theory Spec2Isabelle
  imports Main "HOL-Library.Word"
begin

unbundle bit_operations_syntax

section \<open>Platform types and constants\<close>

text \<open>
  The fixed-width integer types of the 64-bit Windows ABI that the dispatch core uses.
  Handles and pointers are 64-bit words; 0 is the null pointer. A signed \<^verbatim>\<open>int\<close> is
  kept as its 32-bit two's complement pattern (\<open>sint\<close> reads its value), so the
  conversion \<^verbatim>\<open>static_cast<int>\<close> of a \<^verbatim>\<open>UINT\<close> leaves the word as it is.
\<close>

type_synonym UINT = "32 word"
type_synonym WORD = "16 word"
type_synonym DWORD = "32 word"
type_synonym c_int = "32 word"
type_synonym UINT_PTR = "64 word"
type_synonym WPARAM = "64 word"
type_synonym LPARAM = "64 word"
type_synonym LRESULT = "64 word"
type_synonym HWND = "64 word"

text \<open>Message codes and error codes, with the values the Windows SDK headers give them.\<close>

definition WM_CLOSE :: UINT where "WM_CLOSE = 0x0010"
definition WM_NOTIFY :: UINT where "WM_NOTIFY = 0x004E"
definition WM_NCCREATE :: UINT where "WM_NCCREATE = 0x0081"
definition WM_NCDESTROY :: UINT where "WM_NCDESTROY = 0x0082"
definition WM_INITDIALOG :: UINT where "WM_INITDIALOG = 0x0110"
definition WM_COMMAND :: UINT where "WM_COMMAND = 0x0111"
definition WM_APP :: UINT where "WM_APP = 0x8000"
definition ERROR_SUCCESS :: DWORD where "ERROR_SUCCESS = 0"
definition ERROR_CLASS_ALREADY_EXISTS :: DWORD where "ERROR_CLASS_ALREADY_EXISTS = 1410"

text \<open>\<^verbatim>\<open>LOWORD(w)\<close>: the low 16 bits of a pointer-sized value.\<close>

definition LOWORD :: "64 word \<Rightarrow> WORD" where
  "LOWORD w = ucast (w AND 0xffff)"

section \<open>Callbacks and exceptions\<close>

text \<open>\<^verbatim>\<open>wl::param::any\<close>: the raw parameters handed to every handler.\<close>

record any =
  wparam :: WPARAM
  lparam :: LPARAM

text \<open>
  The C++ exceptions a callable can throw, by the first \<^verbatim>\<open>catch\<close> clause of
  \<^verbatim>\<open>catch_all_excps\<close> that accepts them: \<^verbatim>\<open>std::system_error\<close> with its code,
  other \<^verbatim>\<open>std::runtime_error\<close>s, \<^verbatim>\<open>std::invalid_argument\<close>, other
  \<^verbatim>\<open>std::logic_error\<close>s, other \<^verbatim>\<open>std::exception\<close>s (among them the
  \<^verbatim>\<open>std::bad_function_call\<close> of an empty \<^verbatim>\<open>std::function\<close>), and anything else.
\<close>

datatype excp =
    system_error DWORD
  | runtime_error
  | invalid_argument
  | logic_error
  | bad_function_call
  | std_exception
  | unknown_exception

text \<open>The per-window slots of \<^verbatim>\<open>SetWindowLongPtrW\<close> that the procedures use.\<close>

datatype window_slot = GWLP_USERDATA | DWLP_USER

text \<open>
  What a user lambda can read of the library's objects through the references it
  captured: the handle field (\<^verbatim>\<open>hwnd()\<close>) of the window, dialog or control object at
  an address, 0 where there is none, and the per-window slots.
\<close>

record observed =
  seen_window_hWnd :: "64 word \<Rightarrow> HWND"
  seen_dialog_hWnd :: "64 word \<Rightarrow> HWND"
  seen_control_hWnd :: "64 word \<Rightarrow> HWND"
  seen_window_long :: "HWND \<times> window_slot \<Rightarrow> 64 word"

text \<open>
  A user lambda runs on the application's own state \<open>'u\<close>, sees the library's objects
  as they are at the moment of the call, and either returns a result code or throws.
\<close>

type_synonym 'u user_func = "any \<Rightarrow> observed \<Rightarrow> 'u \<Rightarrow> (excp + LRESULT) \<times> 'u"

text \<open>
  The callables a \<^verbatim>\<open>std::function<LRESULT(wl::param::any)>\<close> of a handler table holds:
  \<^item> \<open>nullfn\<close>: the empty function object (\<^verbatim>\<open>nullptr\<close>) of the sentinel;
  \<^item> \<open>user f\<close>: a lambda supplied by the user;
  \<^item> \<open>thunk funcIdx\<close>: the light wrapper of the multi-key \<^verbatim>\<open>add\<close>, which captured
    \<^verbatim>\<open>this\<close> and \<^verbatim>\<open>funcIdx\<close> and calls \<^verbatim>\<open>this->_handlers[funcIdx].func(p)\<close>;
  \<^item> \<open>ui_thread\<close>: the lambda \<^verbatim>\<open>base_msg_handler\<close> registers for its private message.
\<close>

datatype 'u func =
    nullfn
  | user "'u user_func"
  | thunk nat
  | ui_thread

section \<open>The handler table: \<^verbatim>\<open>store<idT>\<close>\<close>

record ('id, 'u) handler =
  handler_id :: 'id
  func :: "'u func"

record ('id, 'u) store =
  handlers :: "('id, 'u) handler list"

text \<open>
  The constructor puts the sentinel at index 0. The primary template initialises its
  key with 0 and the specialisation for pairs with (0, 0); here the caller passes that
  zero key.
\<close>

definition store_new :: "'id \<Rightarrow> ('id, 'u) store" where
  "store_new zero = \<lparr>handlers = [\<lparr>handler_id = zero, func = nullfn\<rparr>]\<rparr>"

definition store_empty :: "('id, 'u) store \<Rightarrow> bool" where
  "store_empty s = (length (handlers s) \<le> 1)"

definition store_add :: "('id, 'u) store \<Rightarrow> 'id \<Rightarrow> 'u func \<Rightarrow> ('id, 'u) store" where
  "store_add s k f = s\<lparr>handlers := handlers s @ [\<lparr>handler_id = k, func = f\<rparr>]\<rparr>"

text \<open>
  The multi-key overload. Reading \<^verbatim>\<open>pIds[0]\<close> of an empty initializer list is undefined
  behaviour: \<open>None\<close>.
\<close>

definition store_add_list ::
  "('id, 'u) store \<Rightarrow> 'id list \<Rightarrow> 'u func \<Rightarrow> ('id, 'u) store option" where
  "store_add_list s ids f =
     (case ids of
        [] \<Rightarrow> None
      | id0 # rest \<Rightarrow>
          let s1 = store_add s id0 f;
              funcIdx = length (handlers s1) - 1
          in Some (foldl (\<lambda>st k. if k \<noteq> id0 then store_add st k (thunk funcIdx) else st)
                     s1 rest))"

text \<open>
  The reverse linear search \<^verbatim>\<open>while (revRunner->id != id) --revRunner;\<close> started at
  index \<open>i\<close>. Stepping below index 0 leaves the vector: undefined behaviour, \<open>None\<close>.
\<close>

fun rev_runner :: "('id, 'u) handler list \<Rightarrow> 'id \<Rightarrow> nat \<Rightarrow> nat option" where
  "rev_runner hs k 0 = (if handler_id (hs ! 0) = k then Some 0 else None)"
| "rev_runner hs k (Suc i) =
     (if handler_id (hs ! Suc i) = k then Some (Suc i) else rev_runner hs k i)"

text \<open>
  \<^verbatim>\<open>find\<close> writes the probed key into the sentinel, scans from the last element, and
  returns a pointer to the found function object, here its index, or null (\<open>None\<close>)
  when the scan stopped at the sentinel. The outer \<open>None\<close> is undefined behaviour
  (a vector without its sentinel).
\<close>

definition store_find ::
  "('id, 'u) store \<Rightarrow> 'id \<Rightarrow> (nat option \<times> ('id, 'u) store) option" where
  "store_find s k =
     (if handlers s = [] then None
      else
        let hs = (handlers s)[0 := (handlers s ! 0)\<lparr>handler_id := k\<rparr>]
        in case rev_runner hs k (length hs - 1) of
             None \<Rightarrow> None
           | Some i \<Rightarrow> Some (if i = 0 then None else Some i, s\<lparr>handlers := hs\<rparr>))"

section \<open>The objects of the dispatch core\<close>

text \<open>
  \<^verbatim>\<open>base_msg_handler\<close> owns three handler tables: window messages by message code,
  \<^verbatim>\<open>WM_COMMAND\<close> by command identifier, \<^verbatim>\<open>WM_NOTIFY\<close> by the pair of control
  identifier and notification code.
\<close>

record 'u base_msg_handler =
  msgs :: "(UINT, 'u) store"
  cmds :: "(WORD, 'u) store"
  nfys :: "(UINT_PTR \<times> c_int, 'u) store"

record 'u base_window =
  wnd_hWnd :: HWND
  wnd_msgHandler :: "'u base_msg_handler"

record 'u base_dialog =
  dlg_hWnd :: HWND
  dlg_msgHandler :: "'u base_msg_handler"

record 'u base_native_control =
  ctl_hWnd :: HWND
  ctl_subclassId :: UINT_PTR
  ctl_msgs :: "(UINT, 'u) store"

text \<open>The structures of the platform that the procedures read through a pointer.\<close>

record NMHDR =
  hwndFrom :: HWND
  idFrom :: UINT_PTR
  code :: UINT

record CREATESTRUCTW =
  lpCreateParams :: "64 word"

text \<open>
  The calls into the platform that leave a trace: the message boxes of the fault
  boundary (by caption), the quit request, the subclass installation and removal, and
  the default procedures.
\<close>

datatype api_call =
    MessageBox string
  | PostQuitMessage int
  | SetWindowSubclass HWND UINT_PTR "64 word"
  | RemoveWindowSubclass HWND UINT_PTR
  | DefWindowProcW HWND UINT WPARAM LPARAM
  | DefSubclassProc HWND UINT WPARAM LPARAM
  | SetUiFontOnChildren HWND

text \<open>
  The state of the process: the application's own state, the trace of platform calls,
  the heap (thread packs, notification headers and creation structures handed over by
  pointer, and the window, dialog and control objects), the per-window slots, and the
  function-local static counter \<^verbatim>\<open>firstId\<close> of the subclass installer.
\<close>

record 'u process =
  user_state :: 'u
  api_log :: "api_call list"
  thread_packs :: "64 word \<rightharpoonup> ('u \<Rightarrow> (excp + unit) \<times> 'u)"
  notify_headers :: "64 word \<rightharpoonup> NMHDR"
  create_structs :: "64 word \<rightharpoonup> CREATESTRUCTW"
  window_long :: "HWND \<times> window_slot \<Rightarrow> 64 word"
  windows :: "64 word \<rightharpoonup> 'u base_window"
  dialogs :: "64 word \<rightharpoonup> 'u base_dialog"
  controls :: "64 word \<rightharpoonup> 'u base_native_control"
  firstId :: UINT_PTR

text \<open>The objects as a user lambda sees them in a state of the process.\<close>

definition observe :: "'u process \<Rightarrow> observed" where
  "observe st =
     \<lparr>seen_window_hWnd = (\<lambda>a. case windows st a of None \<Rightarrow> 0 | Some w \<Rightarrow> wnd_hWnd w),
      seen_dialog_hWnd = (\<lambda>a. case dialogs st a of None \<Rightarrow> 0 | Some d \<Rightarrow> dlg_hWnd d),
      seen_control_hWnd = (\<lambda>a. case controls st a of None \<Rightarrow> 0 | Some c \<Rightarrow> ctl_hWnd c),
      seen_window_long = window_long st\<rparr>"

definition log_call :: "api_call \<Rightarrow> 'u process \<Rightarrow> 'u process" where
  "log_call c st = st\<lparr>api_log := api_log st @ [c]\<rparr>"

section \<open>The fault boundary: \<^verbatim>\<open>catch_all_excps\<close>\<close>

text \<open>
  A computation on a state either returns a value or throws; \<open>None\<close> is undefined
  behaviour (a read outside a vector or through a dangling pointer) or a call chain that
  never returns.
\<close>

type_synonym ('a, 's) comp = "'s \<Rightarrow> ((excp + 'a) \<times> 's) option"

definition try_catch :: "('a, 's) comp \<Rightarrow> (excp \<Rightarrow> ('a, 's) comp) \<Rightarrow> ('a, 's) comp" where
  "try_catch body handler s =
     (case body s of
        None \<Rightarrow> None
      | Some (Inl e, s') \<Rightarrow> handler e s'
      | Some (Inr v, s') \<Rightarrow> Some (Inr v, s'))"

datatype post_quit_on_catch = YES | NO

text \<open>The inner \<^verbatim>\<open>catch\<close> clauses, in the order of the source: report, then rethrow.\<close>

fun report_excp :: "excp \<Rightarrow> api_call" where
  "report_excp (system_error c) = MessageBox ''System exception''"
| "report_excp runtime_error = MessageBox ''Runtime exception''"
| "report_excp invalid_argument = MessageBox ''Invalid argument exception''"
| "report_excp logic_error = MessageBox ''Logic exception''"
| "report_excp bad_function_call = MessageBox ''Exception''"
| "report_excp std_exception = MessageBox ''Exception''"
| "report_excp unknown_exception = MessageBox ''Unknown exception''"

text \<open>
  \<^verbatim>\<open>catch_all_excps(func, catchAction)\<close>. The lambda \<open>fn\<close> (the source's \<^verbatim>\<open>func\<close>) runs on the process state
  together with the local variables \<open>'l\<close> it captured by reference.
\<close>

definition catch_all_excps ::
  "(unit, 'l \<times> 'u process) comp \<Rightarrow> post_quit_on_catch \<Rightarrow> (unit, 'l \<times> 'u process) comp" where
  "catch_all_excps fn catchAction =
     try_catch
       (try_catch fn
          (\<lambda>e (l, st). Some (Inl e, (l, log_call (report_excp e) st))))
       (\<lambda>e (l, st).
          Some (Inr (),
                (l, if catchAction = YES then log_call (PostQuitMessage (- 1)) st else st)))"

section \<open>Calling a stored function object\<close>

text \<open>
  The lambda registered for the private message \<^verbatim>\<open>WM_UI_THREAD\<close>: it runs the packed
  function inside the fault boundary, deletes the pack and returns 0.
\<close>

definition ui_thread_handler :: "any \<Rightarrow> (LRESULT, 'u process) comp" where
  "ui_thread_handler p st =
     (if wparam p = 0xc0def00d \<and> lparam p \<noteq> 0 then
        (case thread_packs st (lparam p) of
           None \<Rightarrow> None
         | Some pack_func \<Rightarrow>
             (case catch_all_excps
                     (\<lambda>(l, st1). case pack_func (user_state st1) of
                                    (r, u') \<Rightarrow> Some (r, (l, st1\<lparr>user_state := u'\<rparr>)))
                     YES ((), st) of
                None \<Rightarrow> None
              | Some (r, (l, st2)) \<Rightarrow>
                  Some (Inr 0, st2\<lparr>thread_packs := (thread_packs st2)(lparam p := None)\<rparr>)))
      else Some (Inr 0, st))"

text \<open>
  \<^verbatim>\<open>operator()\<close> of a stored function object. \<open>table\<close> is the \<^verbatim>\<open>_handlers\<close> vector of
  the store the object lives in, which a forwarding wrapper reaches through its captured
  \<^verbatim>\<open>this\<close>. An empty function object throws \<^verbatim>\<open>std::bad_function_call\<close>.
\<close>

partial_function (option) call_func ::
  "'u func list \<Rightarrow> 'u func \<Rightarrow> any \<Rightarrow> 'u process \<Rightarrow> ((excp + LRESULT) \<times> 'u process) option" where
  "call_func table f p st =
     (case f of
        nullfn \<Rightarrow> Some (Inl bad_function_call, st)
      | user g \<Rightarrow>
          (case g p (observe st) (user_state st) of (r, u') \<Rightarrow> Some (r, st\<lparr>user_state := u'\<rparr>))
      | thunk funcIdx \<Rightarrow>
          (if funcIdx < length table then call_func table (table ! funcIdx) p st else None)
      | ui_thread \<Rightarrow> ui_thread_handler p st)"

section \<open>The dispatch core: \<^verbatim>\<open>base_msg_handler\<close>\<close>

definition WM_UI_THREAD :: UINT where
  "WM_UI_THREAD = WM_APP + 0x3FFF"

definition mh_on_message :: "'u base_msg_handler \<Rightarrow> UINT \<Rightarrow> 'u func \<Rightarrow> 'u base_msg_handler" where
  "mh_on_message hm msg f = hm\<lparr>msgs := store_add (msgs hm) msg f\<rparr>"

definition mh_on_message_list ::
  "'u base_msg_handler \<Rightarrow> UINT list \<Rightarrow> 'u func \<Rightarrow> 'u base_msg_handler option" where
  "mh_on_message_list hm ms f =
     map_option (\<lambda>s. hm\<lparr>msgs := s\<rparr>) (store_add_list (msgs hm) ms f)"

definition mh_on_command :: "'u base_msg_handler \<Rightarrow> WORD \<Rightarrow> 'u func \<Rightarrow> 'u base_msg_handler" where
  "mh_on_command hm cmd f = hm\<lparr>cmds := store_add (cmds hm) cmd f\<rparr>"

definition mh_on_command_list ::
  "'u base_msg_handler \<Rightarrow> WORD list \<Rightarrow> 'u func \<Rightarrow> 'u base_msg_handler option" where
  "mh_on_command_list hm cs f =
     map_option (\<lambda>s. hm\<lparr>cmds := s\<rparr>) (store_add_list (cmds hm) cs f)"

definition mh_on_notify ::
  "'u base_msg_handler \<Rightarrow> UINT_PTR \<Rightarrow> c_int \<Rightarrow> 'u func \<Rightarrow> 'u base_msg_handler" where
  "mh_on_notify hm idFrom_arg code_arg f =
     hm\<lparr>nfys := store_add (nfys hm) (idFrom_arg, code_arg) f\<rparr>"

definition mh_on_notify_list ::
  "'u base_msg_handler \<Rightarrow> (UINT_PTR \<times> c_int) list \<Rightarrow> 'u func \<Rightarrow> 'u base_msg_handler option" where
  "mh_on_notify_list hm idFromAndCodes f =
     map_option (\<lambda>s. hm\<lparr>nfys := s\<rparr>) (store_add_list (nfys hm) idFromAndCodes f)"

text \<open>
  The constructor: three fresh tables, then \<^verbatim>\<open>_default_msg_handlers\<close> registers the
  handler of the private message.
\<close>

definition base_msg_handler_new :: "'u base_msg_handler" where
  "base_msg_handler_new =
     mh_on_message \<lparr>msgs = store_new 0, cmds = store_new 0, nfys = store_new (0, 0)\<rparr>
       WM_UI_THREAD ui_thread"

text \<open>
  \<^verbatim>\<open>exec\<close>. The first part chooses the table and searches it; the pointer it keeps is
  modelled by the index \<open>userFunc\<close> into the function objects \<open>table\<close> of the searched
  store. The second part runs the found function inside the fault boundary, with
  \<open>retVal\<close> as the captured local. The result \<open>Inr None\<close> is the empty optional;
  \<open>Inl\<close> would be an exception leaving \<^verbatim>\<open>exec\<close>.
\<close>

definition exec ::
  "'u base_msg_handler \<Rightarrow> UINT \<Rightarrow> WPARAM \<Rightarrow> LPARAM \<Rightarrow> 'u process \<Rightarrow>
   ((excp + LRESULT option) \<times> 'u base_msg_handler \<times> 'u process) option" where
  "exec hm msg wp lp st =
     (case (if msg = WM_COMMAND then
              map_option (\<lambda>(userFunc, s). (userFunc, map func (handlers s), hm\<lparr>cmds := s\<rparr>))
                (store_find (cmds hm) (LOWORD wp))
            else if msg = WM_NOTIFY then
              (case notify_headers st lp of
                 None \<Rightarrow> None
               | Some nmhdr \<Rightarrow>
                   map_option (\<lambda>(userFunc, s). (userFunc, map func (handlers s), hm\<lparr>nfys := s\<rparr>))
                     (store_find (nfys hm) (idFrom nmhdr, code nmhdr)))
            else
              map_option (\<lambda>(userFunc, s). (userFunc, map func (handlers s), hm\<lparr>msgs := s\<rparr>))
                (store_find (msgs hm) msg)) of
        None \<Rightarrow> None
      | Some (userFunc, table, hm') \<Rightarrow>
          (case userFunc of
             Some i \<Rightarrow>
               (case catch_all_excps
                       (\<lambda>(retVal, st1).
                          case call_func table (table ! i) \<lparr>wparam = wp, lparam = lp\<rparr> st1 of
                            None \<Rightarrow> None
                          | Some (Inl e, st2) \<Rightarrow> Some (Inl e, (retVal, st2))
                          | Some (Inr v, st2) \<Rightarrow> Some (Inr (), (v, st2)))
                       YES (0, st) of
                  None \<Rightarrow> None
                | Some (Inl e, (retVal, st')) \<Rightarrow> Some (Inl e, hm', st')
                | Some (Inr u, (retVal, st')) \<Rightarrow> Some (Inr (Some retVal), hm', st'))
           | None \<Rightarrow> Some (Inr None, hm', st)))"

section \<open>Windows: \<^verbatim>\<open>base_window\<close>\<close>

text \<open>Reading an object through a pointer; the null pointer points to nothing.\<close>

definition deref :: "(64 word \<rightharpoonup> 'a) \<Rightarrow> 64 word \<Rightarrow> 'a option" where
  "deref heap p = (if p = 0 then None else heap p)"

definition SetWindowLongPtrW :: "HWND \<Rightarrow> window_slot \<Rightarrow> 64 word \<Rightarrow> 'u process \<Rightarrow> 'u process" where
  "SetWindowLongPtrW h slot v st = st\<lparr>window_long := (window_long st)((h, slot) := v)\<rparr>"

definition GetWindowLongPtrW :: "HWND \<Rightarrow> window_slot \<Rightarrow> 'u process \<Rightarrow> 64 word" where
  "GetWindowLongPtrW h slot st = window_long st (h, slot)"

text \<open>
  \<^verbatim>\<open>create_window\<close>. The platform's \<^verbatim>\<open>CreateWindowExW\<close> is a parameter: given the
  pointer passed as creation parameter it runs on the process (it calls the window
  procedure before it returns) and yields the new handle and the last error code.
\<close>

definition create_window ::
  "(64 word \<Rightarrow> 'u process \<Rightarrow> ((HWND \<times> DWORD) \<times> 'u process) option) \<Rightarrow>
   64 word \<Rightarrow> (HWND, 'u process) comp" where
  "create_window CreateWindowExW_os this st =
     (case deref (windows st) this of
        None \<Rightarrow> None
      | Some self \<Rightarrow>
          if wnd_hWnd self \<noteq> 0 then Some (Inl logic_error, st)
          else
            (case CreateWindowExW_os this st of
               None \<Rightarrow> None
             | Some ((h, lerr), st') \<Rightarrow>
                 if h = 0 then Some (Inl (system_error lerr), st')
                 else Some (Inr h, st')))"

text \<open>The guarded registration methods: each throws once the handle is set.\<close>

definition wnd_register ::
  "('u base_msg_handler \<Rightarrow> 'u base_msg_handler option) \<Rightarrow> 64 word \<Rightarrow> (unit, 'u process) comp" where
  "wnd_register reg this st =
     (case deref (windows st) this of
        None \<Rightarrow> None
      | Some self \<Rightarrow>
          if wnd_hWnd self \<noteq> 0 then Some (Inl logic_error, st)
          else
            (case reg (wnd_msgHandler self) of
               None \<Rightarrow> None
             | Some hm' \<Rightarrow>
                 Some (Inr (), st\<lparr>windows := (windows st)(this \<mapsto> self\<lparr>wnd_msgHandler := hm'\<rparr>)\<rparr>)))"

definition wnd_on_message :: "64 word \<Rightarrow> UINT \<Rightarrow> 'u func \<Rightarrow> (unit, 'u process) comp" where
  "wnd_on_message this msg f = wnd_register (\<lambda>hm. Some (mh_on_message hm msg f)) this"

definition wnd_on_message_list :: "64 word \<Rightarrow> UINT list \<Rightarrow> 'u func \<Rightarrow> (unit, 'u process) comp" where
  "wnd_on_message_list this ms f = wnd_register (\<lambda>hm. mh_on_message_list hm ms f) this"

definition wnd_on_command :: "64 word \<Rightarrow> WORD \<Rightarrow> 'u func \<Rightarrow> (unit, 'u process) comp" where
  "wnd_on_command this cmd f = wnd_register (\<lambda>hm. Some (mh_on_command hm cmd f)) this"

definition wnd_on_command_list :: "64 word \<Rightarrow> WORD list \<Rightarrow> 'u func \<Rightarrow> (unit, 'u process) comp" where
  "wnd_on_command_list this cs f = wnd_register (\<lambda>hm. mh_on_command_list hm cs f) this"

definition wnd_on_notify ::
  "64 word \<Rightarrow> UINT_PTR \<Rightarrow> c_int \<Rightarrow> 'u func \<Rightarrow> (unit, 'u process) comp" where
  "wnd_on_notify this idFrom_arg code_arg f =
     wnd_register (\<lambda>hm. Some (mh_on_notify hm idFrom_arg code_arg f)) this"

definition wnd_on_notify_list ::
  "64 word \<Rightarrow> (UINT_PTR \<times> c_int) list \<Rightarrow> 'u func \<Rightarrow> (unit, 'u process) comp" where
  "wnd_on_notify_list this idFromAndCodes f =
     wnd_register (\<lambda>hm. mh_on_notify_list hm idFromAndCodes f) this"

text \<open>
  \<^verbatim>\<open>_window_proc\<close>. The platform's \<^verbatim>\<open>DefWindowProcW\<close> is a parameter giving the
  result of default processing; the call is recorded in the trace.
\<close>

definition window_proc ::
  "(HWND \<Rightarrow> UINT \<Rightarrow> WPARAM \<Rightarrow> LPARAM \<Rightarrow> LRESULT) \<Rightarrow>
   HWND \<Rightarrow> UINT \<Rightarrow> WPARAM \<Rightarrow> LPARAM \<Rightarrow> (LRESULT, 'u process) comp" where
  "window_proc DefWindowProcW_os hWnd msg wp lp st =
     (case (if msg = WM_NCCREATE then
              (case deref (create_structs st) lp of
                 None \<Rightarrow> None
               | Some pCs \<Rightarrow>
                   let pSelf = lpCreateParams pCs;
                       st1 = SetWindowLongPtrW hWnd GWLP_USERDATA pSelf st
                   in (case deref (windows st1) pSelf of
                         None \<Rightarrow> None
                       | Some self \<Rightarrow>
                           Some (pSelf,
                                 st1\<lparr>windows := (windows st1)(pSelf \<mapsto> self\<lparr>wnd_hWnd := hWnd\<rparr>)\<rparr>)))
            else Some (GetWindowLongPtrW hWnd GWLP_USERDATA st, st)) of
        None \<Rightarrow> None
      | Some (pSelf, st1) \<Rightarrow>
          if pSelf = 0 then
            Some (Inr (DefWindowProcW_os hWnd msg wp lp),
                  log_call (DefWindowProcW hWnd msg wp lp) st1)
          else
            (case deref (windows st1) pSelf of
               None \<Rightarrow> None
             | Some self \<Rightarrow>
                 (case exec (wnd_msgHandler self) msg wp lp st1 of
                    None \<Rightarrow> None
                  | Some (r, hm', st2) \<Rightarrow>
                      let self2 = self\<lparr>wnd_msgHandler := hm'\<rparr>;
                          st3 = st2\<lparr>windows := (windows st2)(pSelf \<mapsto> self2)\<rparr>
                      in (case r of
                            Inl e \<Rightarrow> Some (Inl e, st3)
                          | Inr ret \<Rightarrow>
                              let st4 =
                                    (if msg = WM_NCDESTROY then
                                       (let st' = SetWindowLongPtrW hWnd GWLP_USERDATA 0 st3
                                        in st'\<lparr>windows :=
                                                (windows st')(pSelf \<mapsto> self2\<lparr>wnd_hWnd := 0\<rparr>)\<rparr>)
                                     else st3)
                              in (case ret of
                                    Some v \<Rightarrow> Some (Inr v, st4)
                                  | None \<Rightarrow>
                                      Some (Inr (DefWindowProcW_os hWnd msg wp lp),
                                            log_call (DefWindowProcW hWnd msg wp lp) st4))))))"

text \<open>
  \<^verbatim>\<open>register_class\<close>. The window class structure, with the procedure pointer as a tag.
  \<^verbatim>\<open>RegisterClassExW\<close> is a parameter yielding the atom and the last error code found
  after the call (the source resets it to \<^verbatim>\<open>ERROR_SUCCESS\<close> before);
  \<^verbatim>\<open>GetClassInfoExW\<close> is a parameter yielding its return value and the class
  structure it wrote, if any.
\<close>

datatype WNDPROC = no_proc | window_proc_ptr | foreign_proc "64 word"

record WNDCLASSEXW =
  cbSize :: UINT
  style :: UINT
  lpfnWndProc :: WNDPROC
  cbClsExtra :: c_int
  cbWndExtra :: c_int
  hInstance :: "64 word"
  hIcon :: "64 word"
  hCursor :: "64 word"
  hbrBackground :: "64 word"
  lpszMenuName :: string
  lpszClassName :: string
  hIconSm :: "64 word"

definition sizeof_WNDCLASSEXW :: UINT where
  "sizeof_WNDCLASSEXW = 80"

definition register_class ::
  "(WNDCLASSEXW \<Rightarrow> WORD \<times> DWORD) \<Rightarrow>
   (64 word \<Rightarrow> string \<Rightarrow> WORD \<times> WNDCLASSEXW option) \<Rightarrow>
   WNDCLASSEXW \<Rightarrow> (excp + WORD) \<times> WNDCLASSEXW" where
  "register_class RegisterClassExW_os GetClassInfoExW_os wcx0 =
     (let wcx = wcx0\<lparr>cbSize := sizeof_WNDCLASSEXW, lpfnWndProc := window_proc_ptr\<rparr>;
          (atom, lerr) = RegisterClassExW_os wcx
      in if lerr = ERROR_CLASS_ALREADY_EXISTS then
           (case GetClassInfoExW_os (hInstance wcx) (lpszClassName wcx) of
              (atom', written) \<Rightarrow>
                (Inr atom', case written of None \<Rightarrow> wcx | Some wcx' \<Rightarrow> wcx'))
         else if lerr \<noteq> ERROR_SUCCESS then (Inl (system_error lerr), wcx)
         else (Inr atom, wcx))"

section \<open>Dialogs: \<^verbatim>\<open>base_dialog\<close>\<close>

definition creation_checks :: "'u base_dialog \<Rightarrow> c_int \<Rightarrow> excp option" where
  "creation_checks self dialogId =
     (if dlg_hWnd self \<noteq> 0 then Some logic_error
      else if dialogId = 0 then Some logic_error
      else None)"

text \<open>
  \<^verbatim>\<open>create_dialog_param\<close> and \<^verbatim>\<open>dialog_box_param\<close>, with the platform's
  \<^verbatim>\<open>CreateDialogParamW\<close> and \<^verbatim>\<open>DialogBoxParamW\<close> as parameters that run on the process
  and yield their return value and the last error code.
\<close>

definition create_dialog_param ::
  "(64 word \<Rightarrow> c_int \<Rightarrow> 'u process \<Rightarrow> ((HWND \<times> DWORD) \<times> 'u process) option) \<Rightarrow>
   64 word \<Rightarrow> c_int \<Rightarrow> (HWND, 'u process) comp" where
  "create_dialog_param CreateDialogParamW_os this dialogId st =
     (case deref (dialogs st) this of
        None \<Rightarrow> None
      | Some self \<Rightarrow>
          (case creation_checks self dialogId of
             Some e \<Rightarrow> Some (Inl e, st)
           | None \<Rightarrow>
               (case CreateDialogParamW_os this dialogId st of
                  None \<Rightarrow> None
                | Some ((h, lerr), st') \<Rightarrow>
                    if h = 0 then Some (Inl (system_error lerr), st')
                    else Some (Inr h, st'))))"

definition dialog_box_param ::
  "(64 word \<Rightarrow> c_int \<Rightarrow> 'u process \<Rightarrow> ((64 word \<times> DWORD) \<times> 'u process) option) \<Rightarrow>
   64 word \<Rightarrow> c_int \<Rightarrow> (64 word, 'u process) comp" where
  "dialog_box_param DialogBoxParamW_os this dialogId st =
     (case deref (dialogs st) this of
        None \<Rightarrow> None
      | Some self \<Rightarrow>
          (case creation_checks self dialogId of
             Some e \<Rightarrow> Some (Inl e, st)
           | None \<Rightarrow>
               (case DialogBoxParamW_os this dialogId st of
                  None \<Rightarrow> None
                | Some ((ret, lerr), st') \<Rightarrow>
                    if lerr = - 1 then Some (Inl (system_error lerr), st')
                    else Some (Inr ret, st'))))"

definition dlg_register ::
  "('u base_msg_handler \<Rightarrow> 'u base_msg_handler option) \<Rightarrow> 64 word \<Rightarrow> (unit, 'u process) comp" where
  "dlg_register reg this st =
     (case deref (dialogs st) this of
        None \<Rightarrow> None
      | Some self \<Rightarrow>
          if dlg_hWnd self \<noteq> 0 then Some (Inl logic_error, st)
          else
            (case reg (dlg_msgHandler self) of
               None \<Rightarrow> None
             | Some hm' \<Rightarrow>
                 Some (Inr (), st\<lparr>dialogs := (dialogs st)(this \<mapsto> self\<lparr>dlg_msgHandler := hm'\<rparr>)\<rparr>)))"

definition dlg_on_message :: "64 word \<Rightarrow> UINT \<Rightarrow> 'u func \<Rightarrow> (unit, 'u process) comp" where
  "dlg_on_message this msg f = dlg_register (\<lambda>hm. Some (mh_on_message hm msg f)) this"

definition dlg_on_message_list :: "64 word \<Rightarrow> UINT list \<Rightarrow> 'u func \<Rightarrow> (unit, 'u process) comp" where
  "dlg_on_message_list this ms f = dlg_register (\<lambda>hm. mh_on_message_list hm ms f) this"

definition dlg_on_command :: "64 word \<Rightarrow> WORD \<Rightarrow> 'u func \<Rightarrow> (unit, 'u process) comp" where
  "dlg_on_command this cmd f = dlg_register (\<lambda>hm. Some (mh_on_command hm cmd f)) this"

definition dlg_on_command_list :: "64 word \<Rightarrow> WORD list \<Rightarrow> 'u func \<Rightarrow> (unit, 'u process) comp" where
  "dlg_on_command_list this cs f = dlg_register (\<lambda>hm. mh_on_command_list hm cs f) this"

definition dlg_on_notify ::
  "64 word \<Rightarrow> UINT_PTR \<Rightarrow> c_int \<Rightarrow> 'u func \<Rightarrow> (unit, 'u process) comp" where
  "dlg_on_notify this idFrom_arg code_arg f =
     dlg_register (\<lambda>hm. Some (mh_on_notify hm idFrom_arg code_arg f)) this"

definition dlg_on_notify_list ::
  "64 word \<Rightarrow> (UINT_PTR \<times> c_int) list \<Rightarrow> 'u func \<Rightarrow> (unit, 'u process) comp" where
  "dlg_on_notify_list this idFromAndCodes f =
     dlg_register (\<lambda>hm. mh_on_notify_list hm idFromAndCodes f) this"

text \<open>
  \<^verbatim>\<open>_dialog_proc\<close>. It returns \<^verbatim>\<open>FALSE\<close> (0) where the window procedure calls the
  default procedure. \<^verbatim>\<open>_set_ui_font_on_children\<close> sends font messages through the
  platform; what they do to the process is the parameter \<open>set_font\<close>.
\<close>

definition dialog_proc ::
  "(HWND \<Rightarrow> 'u process \<Rightarrow> 'u process option) \<Rightarrow>
   HWND \<Rightarrow> UINT \<Rightarrow> WPARAM \<Rightarrow> LPARAM \<Rightarrow> (LRESULT, 'u process) comp" where
  "dialog_proc set_font hWnd msg wp lp st =
     (case (if msg = WM_INITDIALOG then
              (let pSelf = lp;
                   st1 = SetWindowLongPtrW hWnd DWLP_USER pSelf st
               in case set_font hWnd (log_call (SetUiFontOnChildren hWnd) st1) of
                    None \<Rightarrow> None
                  | Some st2 \<Rightarrow>
                      (case deref (dialogs st2) pSelf of
                         None \<Rightarrow> None
                       | Some self \<Rightarrow>
                           Some (pSelf,
                                 st2\<lparr>dialogs := (dialogs st2)(pSelf \<mapsto> self\<lparr>dlg_hWnd := hWnd\<rparr>)\<rparr>)))
            else Some (GetWindowLongPtrW hWnd DWLP_USER st, st)) of
        None \<Rightarrow> None
      | Some (pSelf, st1) \<Rightarrow>
          if pSelf = 0 then Some (Inr 0, st1)
          else
            (case deref (dialogs st1) pSelf of
               None \<Rightarrow> None
             | Some self \<Rightarrow>
                 (case exec (dlg_msgHandler self) msg wp lp st1 of
                    None \<Rightarrow> None
                  | Some (r, hm', st2) \<Rightarrow>
                      let self2 = self\<lparr>dlg_msgHandler := hm'\<rparr>;
                          st3 = st2\<lparr>dialogs := (dialogs st2)(pSelf \<mapsto> self2)\<rparr>
                      in (case r of
                            Inl e \<Rightarrow> Some (Inl e, st3)
                          | Inr ret \<Rightarrow>
                              let st4 =
                                    (if msg = WM_NCDESTROY then
                                       (let st' = SetWindowLongPtrW hWnd DWLP_USER 0 st3
                                        in st'\<lparr>dialogs :=
                                                (dialogs st')(pSelf \<mapsto> self2\<lparr>dlg_hWnd := 0\<rparr>)\<rparr>)
                                     else st3)
                              in (case ret of
                                    Some v \<Rightarrow> Some (Inr v, st4)
                                  | None \<Rightarrow> Some (Inr 0, st4))))))"

section \<open>Subclassed controls: \<^verbatim>\<open>base_native_control\<close>\<close>

definition install_subclass_if_needed :: "64 word \<Rightarrow> 'u process \<Rightarrow> 'u process option" where
  "install_subclass_if_needed this st =
     (case deref (controls st) this of
        None \<Rightarrow> None
      | Some self \<Rightarrow>
          if \<not> store_empty (ctl_msgs self) then
            (let st1 = st\<lparr>firstId := firstId st + 1\<rparr>;
                 self1 = self\<lparr>ctl_subclassId := firstId st1\<rparr>;
                 st2 = st1\<lparr>controls := (controls st1)(this \<mapsto> self1)\<rparr>
             in Some (log_call (SetWindowSubclass (ctl_hWnd self1) (ctl_subclassId self1) this) st2))
          else Some st)"

text \<open>
  \<^verbatim>\<open>assign\<close>: \<open>parent\<close> is \<open>None\<close> for a null pointer and otherwise the parent's
  handle; \<^verbatim>\<open>GetDlgItem\<close> is a parameter.
\<close>

definition assign ::
  "(HWND \<Rightarrow> c_int \<Rightarrow> HWND) \<Rightarrow> 64 word \<Rightarrow> HWND option \<Rightarrow> c_int \<Rightarrow> (unit, 'u process) comp" where
  "assign GetDlgItem_os this parent ctrlId st =
     (case deref (controls st) this of
        None \<Rightarrow> None
      | Some self \<Rightarrow>
          if ctl_hWnd self \<noteq> 0 then Some (Inl logic_error, st)
          else
            (case parent of
               None \<Rightarrow> Some (Inl invalid_argument, st)
             | Some parent_hwnd \<Rightarrow>
                 let st1 = st\<lparr>controls :=
                               (controls st)(this \<mapsto> self\<lparr>ctl_hWnd := GetDlgItem_os parent_hwnd ctrlId\<rparr>)\<rparr>
                 in map_option (\<lambda>st2. (Inr (), st2)) (install_subclass_if_needed this st1)))"

definition on_subclass_message :: "64 word \<Rightarrow> UINT \<Rightarrow> 'u func \<Rightarrow> (unit, 'u process) comp" where
  "on_subclass_message this msg f st =
     (case deref (controls st) this of
        None \<Rightarrow> None
      | Some self \<Rightarrow>
          if ctl_hWnd self \<noteq> 0 then Some (Inl logic_error, st)
          else Some (Inr (),
                     st\<lparr>controls :=
                          (controls st)(this \<mapsto> self\<lparr>ctl_msgs := store_add (ctl_msgs self) msg f\<rparr>)\<rparr>))"

definition on_subclass_message_list ::
  "64 word \<Rightarrow> UINT list \<Rightarrow> 'u func \<Rightarrow> (unit, 'u process) comp" where
  "on_subclass_message_list this ms f st =
     (case deref (controls st) this of
        None \<Rightarrow> None
      | Some self \<Rightarrow>
          if ctl_hWnd self \<noteq> 0 then Some (Inl logic_error, st)
          else
            (case store_add_list (ctl_msgs self) ms f of
               None \<Rightarrow> None
             | Some s \<Rightarrow>
                 Some (Inr (), st\<lparr>controls := (controls st)(this \<mapsto> self\<lparr>ctl_msgs := s\<rparr>)\<rparr>)))"

text \<open>
  \<^verbatim>\<open>create_window\<close> of a control: the platform's \<^verbatim>\<open>CreateWindowExW\<close> yields the new
  handle and the last error code.
\<close>

definition ctl_create_window ::
  "('u process \<Rightarrow> ((HWND \<times> DWORD) \<times> 'u process) option) \<Rightarrow>
   64 word \<Rightarrow> HWND option \<Rightarrow> (HWND, 'u process) comp" where
  "ctl_create_window CreateWindowExW_os this parent st =
     (case deref (controls st) this of
        None \<Rightarrow> None
      | Some self \<Rightarrow>
          if ctl_hWnd self \<noteq> 0 then Some (Inl logic_error, st)
          else
            (case parent of
               None \<Rightarrow> Some (Inl invalid_argument, st)
             | Some parent_hwnd \<Rightarrow>
                 (case CreateWindowExW_os st of
                    None \<Rightarrow> None
                  | Some ((h, lerr), st1) \<Rightarrow>
                      if h = 0 then Some (Inl (system_error lerr), st1)
                      else
                        (case deref (controls st1) this of
                           None \<Rightarrow> None
                         | Some self1 \<Rightarrow>
                             map_option (\<lambda>st3. (Inr h, st3))
                               (install_subclass_if_needed this
                                  (st1\<lparr>controls := (controls st1)(this \<mapsto> self1\<lparr>ctl_hWnd := h\<rparr>)\<rparr>))))))"

text \<open>
  \<^verbatim>\<open>_subclass_proc\<close>, with the platform's \<^verbatim>\<open>DefSubclassProc\<close> as a parameter giving
  the result of the next procedure in the chain.
\<close>

definition subclass_proc ::
  "(HWND \<Rightarrow> UINT \<Rightarrow> WPARAM \<Rightarrow> LPARAM \<Rightarrow> LRESULT) \<Rightarrow>
   HWND \<Rightarrow> UINT \<Rightarrow> WPARAM \<Rightarrow> LPARAM \<Rightarrow> UINT_PTR \<Rightarrow> 64 word \<Rightarrow> (LRESULT, 'u process) comp" where
  "subclass_proc DefSubclassProc_os hWnd msg wp lp idSubclass refData st =
     (let pSelf = refData
      in case (if pSelf = 0 then Some (None, 0, Inr (), st)
               else
                 (case controls st pSelf of
                    None \<Rightarrow> None
                  | Some self \<Rightarrow>
                      if ctl_hWnd self \<noteq> 0 then
                        (case store_find (ctl_msgs self) msg of
                           None \<Rightarrow> None
                         | Some (userFunc, s) \<Rightarrow>
                             let table = map func (handlers s);
                                 st1 = st\<lparr>controls := (controls st)(pSelf \<mapsto> self\<lparr>ctl_msgs := s\<rparr>)\<rparr>
                             in (case userFunc of
                                   Some i \<Rightarrow>
                                     (case catch_all_excps
                                             (\<lambda>(retVal, st2).
                                                case call_func table (table ! i)
                                                       \<lparr>wparam = wp, lparam = lp\<rparr> st2 of
                                                  None \<Rightarrow> None
                                                | Some (Inl e, st3) \<Rightarrow> Some (Inl e, (retVal, st3))
                                                | Some (Inr v, st3) \<Rightarrow> Some (Inr (), (v, st3)))
                                             YES (0, st1) of
                                        None \<Rightarrow> None
                                      | Some (r, (retVal, st4)) \<Rightarrow> Some (userFunc, retVal, r, st4))
                                 | None \<Rightarrow> Some (userFunc, 0, Inr (), st1)))
                      else Some (None, 0, Inr (), st))) of
           None \<Rightarrow> None
         | Some (userFunc, retVal, r, st5) \<Rightarrow>
             (case r of
                Inl e \<Rightarrow> Some (Inl e, st5)
              | Inr u \<Rightarrow>
                  let st6 = (if msg = WM_NCDESTROY
                             then log_call (RemoveWindowSubclass hWnd idSubclass) st5
                             else st5)
                  in (case userFunc of
                        Some i \<Rightarrow> Some (Inr retVal, st6)
                      | None \<Rightarrow>
                          Some (Inr (DefSubclassProc_os hWnd msg wp lp),
                                log_call (DefSubclassProc hWnd msg wp lp) st6))))"

section \<open>Vocabulary of the properties\<close>

text \<open>
  A run of single-key \<^verbatim>\<open>add\<close> calls, the entry one call appends, the store after
  \<^verbatim>\<open>find\<close> wrote the probed key into the sentinel, and what it means that \<open>r\<close> is
  the last real registration of a key: no index from 1 on carries the key (\<open>None\<close>), or
  \<open>i\<close> is the greatest such index (\<open>Some i\<close>). Index 0, the sentinel, never counts.
\<close>

definition entry :: "'id \<times> 'u func \<Rightarrow> ('id, 'u) handler" where
  "entry kf = \<lparr>handler_id = fst kf, func = snd kf\<rparr>"

definition adds :: "('id, 'u) store \<Rightarrow> ('id \<times> 'u func) list \<Rightarrow> ('id, 'u) store" where
  "adds s kfs = foldl (\<lambda>st (k, f). store_add st k f) s kfs"

definition last_registration :: "('id, 'u) handler list \<Rightarrow> 'id \<Rightarrow> nat option \<Rightarrow> bool" where
  "last_registration hs k r =
     (case r of
        None \<Rightarrow> (\<forall>m\<in>{1..<length hs}. handler_id (hs ! m) \<noteq> k)
      | Some i \<Rightarrow> 0 < i \<and> i < length hs \<and> handler_id (hs ! i) = k \<and>
                  (\<forall>m\<in>{Suc i..<length hs}. handler_id (hs ! m) \<noteq> k))"

definition write_sentinel :: "('id, 'u) store \<Rightarrow> 'id \<Rightarrow> ('id, 'u) store" where
  "write_sentinel s k = s\<lparr>handlers := (handlers s)[0 := (handlers s ! 0)\<lparr>handler_id := k\<rparr>]\<rparr>"

text \<open>
  A sample user callback that counts its invocations in the application state, and the
  state of a process in which nothing has happened yet.
\<close>

definition count_calls :: "nat user_func" where
  "count_calls p seen n = (Inr 1, Suc n)"

definition process_start :: "'u \<Rightarrow> 'u process" where
  "process_start u =
     \<lparr>user_state = u, api_log = [], thread_packs = Map.empty, notify_headers = Map.empty,
      create_structs = Map.empty, window_long = (\<lambda>_. 0), windows = Map.empty,
      dialogs = Map.empty, controls = Map.empty, firstId = 0\<rparr>"

text \<open>
  The dispatch rule in the words of its contract. \<open>faulted e st\<close> is the process after
  the fault boundary reported \<open>e\<close> and requested termination. \<open>dispatch table r hm\<close>
  is what \<^verbatim>\<open>exec\<close> owes once the lookup gave \<open>r\<close>: the empty result when nothing was
  found, else the result of calling the found function object, with 0 standing in when it
  threw. \<open>found_by\<close>, \<open>probed_table\<close> and \<open>after_probe\<close> name the one table a message
  code selects: the key looked up there, its function objects, and the handler state
  once the probed key sits in that table's sentinel.
\<close>

definition faulted :: "excp \<Rightarrow> 'u process \<Rightarrow> 'u process" where
  "faulted e st = log_call (PostQuitMessage (- 1)) (log_call (report_excp e) st)"

definition dispatch ::
  "'u func list \<Rightarrow> nat option \<Rightarrow> 'u base_msg_handler \<Rightarrow> WPARAM \<Rightarrow> LPARAM \<Rightarrow> 'u process \<Rightarrow>
   ((excp + LRESULT option) \<times> 'u base_msg_handler \<times> 'u process) option" where
  "dispatch table r hm' wp lp st =
     (case r of
        None \<Rightarrow> Some (Inr None, hm', st)
      | Some i \<Rightarrow>
          (case call_func table (table ! i) \<lparr>wparam = wp, lparam = lp\<rparr> st of
             None \<Rightarrow> None
           | Some (Inr v, st') \<Rightarrow> Some (Inr (Some v), hm', st')
           | Some (Inl e, st') \<Rightarrow> Some (Inr (Some 0), hm', faulted e st')))"

definition found_by :: "'u base_msg_handler \<Rightarrow> UINT \<Rightarrow> WPARAM \<Rightarrow> NMHDR \<Rightarrow> nat option \<Rightarrow> bool" where
  "found_by hm msg wp nmhdr r =
     (if msg = WM_COMMAND then last_registration (handlers (cmds hm)) (LOWORD wp) r
      else if msg = WM_NOTIFY then
        last_registration (handlers (nfys hm)) (idFrom nmhdr, code nmhdr) r
      else last_registration (handlers (msgs hm)) msg r)"

definition probed_table :: "'u base_msg_handler \<Rightarrow> UINT \<Rightarrow> 'u func list" where
  "probed_table hm msg =
     (if msg = WM_COMMAND then map func (handlers (cmds hm))
      else if msg = WM_NOTIFY then map func (handlers (nfys hm))
      else map func (handlers (msgs hm)))"

definition after_probe ::
  "'u base_msg_handler \<Rightarrow> UINT \<Rightarrow> WPARAM \<Rightarrow> NMHDR \<Rightarrow> 'u base_msg_handler" where
  "after_probe hm msg wp nmhdr =
     (if msg = WM_COMMAND then hm\<lparr>cmds := write_sentinel (cmds hm) (LOWORD wp)\<rparr>
      else if msg = WM_NOTIFY then
        hm\<lparr>nfys := write_sentinel (nfys hm) (idFrom nmhdr, code nmhdr)\<rparr>
      else hm\<lparr>msgs := write_sentinel (msgs hm) msg\<rparr>)"

definition tables_present :: "'u base_msg_handler \<Rightarrow> bool" where
  "tables_present hm =
     (handlers (msgs hm) \<noteq> [] \<and> handlers (cmds hm) \<noteq> [] \<and> handlers (nfys hm) \<noteq> [])"

text \<open>
  What makes every call of a stored function object return: a forwarding wrapper points
  into the table, at an entry that is not itself a wrapper (the multi-key \<^verbatim>\<open>add\<close>
  builds no other), and a private message carrying the magic number points at a live
  thread pack.
\<close>

fun is_thunk :: "'u func \<Rightarrow> bool" where
  "is_thunk (thunk n) = True"
| "is_thunk f = False"

definition wf_table :: "'u func list \<Rightarrow> bool" where
  "wf_table table =
     list_all (\<lambda>f. case f of
                      thunk n \<Rightarrow> n < length table \<and> \<not> is_thunk (table ! n)
                    | _ \<Rightarrow> True) table"

definition pack_ok :: "WPARAM \<Rightarrow> LPARAM \<Rightarrow> 'u process \<Rightarrow> bool" where
  "pack_ok wp lp st = (wp = 0xc0def00d \<and> lp \<noteq> 0 \<longrightarrow> thread_packs st lp \<noteq> None)"

text \<open>
  A sample callback that throws, the handler state with the function object of one
  generic-table entry exchanged, and the observable part of a result of \<^verbatim>\<open>exec\<close>:
  the returned value and the process, without the handler tables.
\<close>

definition always_throws :: "nat user_func" where
  "always_throws p seen n = (Inl logic_error, n)"

definition replace_func :: "'u base_msg_handler \<Rightarrow> nat \<Rightarrow> 'u func \<Rightarrow> 'u base_msg_handler" where
  "replace_func hm j f' =
     hm\<lparr>msgs := (msgs hm)\<lparr>handlers :=
                    (handlers (msgs hm))[j := (handlers (msgs hm) ! j)\<lparr>func := f'\<rparr>]\<rparr>\<rparr>"

definition outcome ::
  "((excp + LRESULT option) \<times> 'u base_msg_handler \<times> 'u process) option \<Rightarrow>
   ((excp + LRESULT option) \<times> 'u process) option" where
  "outcome = map_option (map_prod id snd)"

definition exec_after ::
  "'u base_msg_handler option \<Rightarrow> UINT \<Rightarrow> WPARAM \<Rightarrow> LPARAM \<Rightarrow> 'u process \<Rightarrow>
   ((excp + LRESULT option) \<times> 'u process) option" where
  "exec_after registered msg wp lp st =
     (case registered of None \<Rightarrow> None | Some hm \<Rightarrow> outcome (exec hm msg wp lp st))"

text \<open>
  The part of the process that no stored function object touches: the objects, the
  per-window slots, the counter and the structures handed over by pointer.
\<close>

definition same_objects :: "'u process \<Rightarrow> 'u process \<Rightarrow> bool" where
  "same_objects st st' =
     (windows st' = windows st \<and> dialogs st' = dialogs st \<and> controls st' = controls st \<and>
      window_long st' = window_long st \<and> firstId st' = firstId st \<and>
      create_structs st' = create_structs st \<and> notify_headers st' = notify_headers st)"

text \<open>
  The per-handle owner association: the slot of the handle holds the address of a live
  object. \<open>handler_ready\<close> collects what makes \<^verbatim>\<open>exec\<close> return on a message.
\<close>

definition window_owner :: "'u process \<Rightarrow> HWND \<Rightarrow> 64 word \<Rightarrow> 'u base_window \<Rightarrow> bool" where
  "window_owner st hWnd w self =
     (GetWindowLongPtrW hWnd GWLP_USERDATA st = w \<and> deref (windows st) w = Some self)"

definition dialog_owner :: "'u process \<Rightarrow> HWND \<Rightarrow> 64 word \<Rightarrow> 'u base_dialog \<Rightarrow> bool" where
  "dialog_owner st hWnd d self =
     (GetWindowLongPtrW hWnd DWLP_USER st = d \<and> deref (dialogs st) d = Some self)"

definition handler_ready ::
  "'u base_msg_handler \<Rightarrow> UINT \<Rightarrow> WPARAM \<Rightarrow> LPARAM \<Rightarrow> 'u process \<Rightarrow> bool" where
  "handler_ready hm msg wp lp st =
     (tables_present hm \<and> wf_table (probed_table hm msg) \<and> pack_ok wp lp st)"

text \<open>
  A small driver for the life of one window object. \<open>def_proc_one\<close> is a default
  procedure that answers 1 to everything; \<open>new_window\<close> and \<open>new_dialog\<close> put a freshly
  constructed object at an address; \<open>sim_CreateWindowExW\<close> stands in for the platform's
  creation call as far as the window procedure is concerned: it hands the creation
  structure over with \<^verbatim>\<open>WM_NCCREATE\<close> and returns the handle when the procedure accepts.
  \<open>window_steps\<close> runs creations, deliveries and registrations in a row and records,
  after each step, the exception it threw and the handle field of the object.
\<close>

definition def_proc_one :: "HWND \<Rightarrow> UINT \<Rightarrow> WPARAM \<Rightarrow> LPARAM \<Rightarrow> LRESULT" where
  "def_proc_one h m w l = 1"

definition new_window :: "64 word \<Rightarrow> 'u process \<Rightarrow> 'u process" where
  "new_window w st =
     st\<lparr>windows := (windows st)(w \<mapsto> \<lparr>wnd_hWnd = 0, wnd_msgHandler = base_msg_handler_new\<rparr>)\<rparr>"

definition new_dialog :: "64 word \<Rightarrow> 'u process \<Rightarrow> 'u process" where
  "new_dialog d st =
     st\<lparr>dialogs := (dialogs st)(d \<mapsto> \<lparr>dlg_hWnd = 0, dlg_msgHandler = base_msg_handler_new\<rparr>)\<rparr>"

definition sim_CreateWindowExW ::
  "HWND \<Rightarrow> 64 word \<Rightarrow> 64 word \<Rightarrow> 'u process \<Rightarrow> ((HWND \<times> DWORD) \<times> 'u process) option" where
  "sim_CreateWindowExW h cs this st =
     (case window_proc def_proc_one h WM_NCCREATE 0 cs
             (st\<lparr>create_structs := (create_structs st)(cs \<mapsto> \<lparr>lpCreateParams = this\<rparr>)\<rparr>) of
        None \<Rightarrow> None
      | Some (Inl e, st') \<Rightarrow> None
      | Some (Inr res, st') \<Rightarrow> if res = 0 then Some ((0, 0), st') else Some ((h, 0), st'))"

datatype 'u wnd_step = Create HWND | Message HWND UINT | OnMessage UINT "'u func"

fun wnd_step_run :: "64 word \<Rightarrow> 'u wnd_step \<Rightarrow> 'u process \<Rightarrow> (excp option \<times> 'u process) option" where
  "wnd_step_run w (Create h) st =
     map_option (map_prod (case_sum Some (\<lambda>_. None)) id)
       (create_window (sim_CreateWindowExW h 0x2000) w st)"
| "wnd_step_run w (Message h m) st =
     map_option (map_prod (case_sum Some (\<lambda>_. None)) id)
       (window_proc def_proc_one h m 0 0 st)"
| "wnd_step_run w (OnMessage m f) st =
     map_option (map_prod (case_sum Some (\<lambda>_. None)) id)
       (wnd_on_message w m f st)"

fun window_steps ::
  "64 word \<Rightarrow> 'u wnd_step list \<Rightarrow> 'u process \<Rightarrow> ((excp option \<times> HWND) list \<times> 'u process) option" where
  "window_steps w [] st = Some ([], st)"
| "window_steps w (s # ss) st =
     (case wnd_step_run w s st of
        None \<Rightarrow> None
      | Some (e, st') \<Rightarrow>
          (case deref (windows st') w of
             None \<Rightarrow> None
           | Some self \<Rightarrow>
               map_option (map_prod ((#) (e, wnd_hWnd self)) id) (window_steps w ss st')))"

text \<open>
  A window and a dialog that were created: handle assigned, owner stored in the slot.
\<close>

definition live_window :: "64 word \<Rightarrow> HWND \<Rightarrow> 'u process \<Rightarrow> 'u process" where
  "live_window w h st =
     (SetWindowLongPtrW h GWLP_USERDATA w st)
       \<lparr>windows := (windows st)(w \<mapsto> \<lparr>wnd_hWnd = h, wnd_msgHandler = base_msg_handler_new\<rparr>)\<rparr>"

definition live_dialog :: "64 word \<Rightarrow> HWND \<Rightarrow> 'u process \<Rightarrow> 'u process" where
  "live_dialog d h st =
     (SetWindowLongPtrW h DWLP_USER d st)
       \<lparr>dialogs := (dialogs st)(d \<mapsto> \<lparr>dlg_hWnd = h, dlg_msgHandler = base_msg_handler_new\<rparr>)\<rparr>"

definition set_font_none :: "HWND \<Rightarrow> 'u process \<Rightarrow> 'u process option" where
  "set_font_none h st = Some st"

text \<open>An instance is live when its handle field is set.\<close>

definition window_live :: "'u process \<Rightarrow> 64 word \<Rightarrow> bool" where
  "window_live st w = (case deref (windows st) w of None \<Rightarrow> False | Some self \<Rightarrow> wnd_hWnd self \<noteq> 0)"

definition dialog_live :: "'u process \<Rightarrow> 64 word \<Rightarrow> bool" where
  "dialog_live st d = (case deref (dialogs st) d of None \<Rightarrow> False | Some self \<Rightarrow> dlg_hWnd self \<noteq> 0)"

text \<open>
  For subclassed controls: the platform calls the fault boundary makes, what makes the
  subclass procedure return for a reference value (a null reference, a control without
  a handle, or one whose table lets every call return), and sample controls: one just
  constructed with a run of registrations, one already live, and a \<^verbatim>\<open>GetDlgItem\<close>
  that finds the handle 0x900.
\<close>

fun is_fault_call :: "api_call \<Rightarrow> bool" where
  "is_fault_call (MessageBox t) = True"
| "is_fault_call (PostQuitMessage n) = True"
| "is_fault_call c = False"

definition control_ready :: "64 word \<Rightarrow> WPARAM \<Rightarrow> LPARAM \<Rightarrow> 'u process \<Rightarrow> bool" where
  "control_ready refData wp lp st =
     (refData = 0 \<or>
      (case controls st refData of
         None \<Rightarrow> False
       | Some self \<Rightarrow>
           ctl_hWnd self = 0 \<or>
           (handlers (ctl_msgs self) \<noteq> [] \<and> wf_table (map func (handlers (ctl_msgs self))) \<and>
            (ui_thread \<in> set (map func (handlers (ctl_msgs self))) \<longrightarrow> pack_ok wp lp st))))"

definition new_control :: "64 word \<Rightarrow> (UINT \<times> 'u func) list \<Rightarrow> 'u process \<Rightarrow> 'u process" where
  "new_control c kfs st =
     st\<lparr>controls := (controls st)
           (c \<mapsto> \<lparr>ctl_hWnd = 0, ctl_subclassId = 0, ctl_msgs = adds (store_new 0) kfs\<rparr>)\<rparr>"

definition dlg_item_900 :: "HWND \<Rightarrow> c_int \<Rightarrow> HWND" where
  "dlg_item_900 parent ctrlId = 0x900"

definition live_control ::
  "64 word \<Rightarrow> HWND \<Rightarrow> UINT_PTR \<Rightarrow> (UINT \<times> 'u func) list \<Rightarrow> 'u process \<Rightarrow> 'u process" where
  "live_control c h n kfs st =
     st\<lparr>controls := (controls st)
           (c \<mapsto> \<lparr>ctl_hWnd = h, ctl_subclassId = n, ctl_msgs = adds (store_new 0) kfs\<rparr>),
        firstId := n\<rparr>"

text \<open>
  For class registration: a table of registered classes with stand-ins for the two
  platform calls over it, a registration call that fails with a given error code, a
  sample class, and the class structure as \<^verbatim>\<open>register_class\<close> passes it on (size and
  procedure filled in).
\<close>

type_synonym class_table = "64 word \<times> string \<rightharpoonup> WORD \<times> WNDCLASSEXW"

definition sim_RegisterClassExW :: "class_table \<Rightarrow> WORD \<Rightarrow> WNDCLASSEXW \<Rightarrow> WORD \<times> DWORD" where
  "sim_RegisterClassExW classes fresh_atom wcx =
     (case classes (hInstance wcx, lpszClassName wcx) of
        Some registered \<Rightarrow> (0, ERROR_CLASS_ALREADY_EXISTS)
      | None \<Rightarrow> (fresh_atom, ERROR_SUCCESS))"

definition sim_GetClassInfoExW ::
  "class_table \<Rightarrow> 64 word \<Rightarrow> string \<Rightarrow> WORD \<times> WNDCLASSEXW option" where
  "sim_GetClassInfoExW classes inst name =
     (case classes (inst, name) of
        Some (atom, wcx) \<Rightarrow> (atom, Some wcx)
      | None \<Rightarrow> (0, None))"

definition failing_RegisterClassExW :: "DWORD \<Rightarrow> WNDCLASSEXW \<Rightarrow> WORD \<times> DWORD" where
  "failing_RegisterClassExW lerr wcx = (0, lerr)"

definition sample_class :: WNDCLASSEXW where
  "sample_class =
     \<lparr>cbSize = 0, style = 3, lpfnWndProc = no_proc, cbClsExtra = 0, cbWndExtra = 0,
      hInstance = 0x400000, hIcon = 0, hCursor = 0, hbrBackground = 6, lpszMenuName = [],
      lpszClassName = ''MAIN'', hIconSm = 0\<rparr>"

definition prepared :: "WNDCLASSEXW \<Rightarrow> WNDCLASSEXW" where
  "prepared wcx = wcx\<lparr>cbSize := sizeof_WNDCLASSEXW, lpfnWndProc := window_proc_ptr\<rparr>"

text \<open>
  The pack of a cross-thread call is read by one function object only, the default handler
  of \<^verbatim>\<open>WM_UI_THREAD\<close>: \<^verbatim>\<open>needs_pack\<close> holds of a function object that is this handler
  or forwards to it, \<^verbatim>\<open>pack_needed\<close> of a message whose lookup finds such an object.
\<close>

fun needs_pack :: "'u func list \<Rightarrow> 'u func \<Rightarrow> bool" where
  "needs_pack table ui_thread = True"
| "needs_pack table (thunk n) =
     (n < length table \<and> (case table ! n of ui_thread \<Rightarrow> True | _ \<Rightarrow> False))"
| "needs_pack table f = False"


text \<open>
  Sample callbacks that look at their own object while they run: the result is the handle
  field they find there, and they leave in the application state the owner they find in
  the slot of the handle. \<open>window_handling\<close> and \<open>dialog_handling\<close> are a created window and
  a created dialog with one registered handler.
\<close>

definition see_window :: "64 word \<Rightarrow> HWND \<Rightarrow> (64 word) user_func" where
  "see_window w h p seen u =
     (Inr (seen_window_hWnd seen w), seen_window_long seen (h, GWLP_USERDATA))"

definition see_dialog :: "64 word \<Rightarrow> HWND \<Rightarrow> (64 word) user_func" where
  "see_dialog d h p seen u =
     (Inr (seen_dialog_hWnd seen d), seen_window_long seen (h, DWLP_USER))"

definition window_handling ::
  "64 word \<Rightarrow> HWND \<Rightarrow> UINT \<Rightarrow> 'u func \<Rightarrow> 'u process \<Rightarrow> 'u process" where
  "window_handling w h m f st =
     (SetWindowLongPtrW h GWLP_USERDATA w st)
       \<lparr>windows := (windows st)
          (w \<mapsto> \<lparr>wnd_hWnd = h, wnd_msgHandler = mh_on_message base_msg_handler_new m f\<rparr>)\<rparr>"

definition dialog_handling ::
  "64 word \<Rightarrow> HWND \<Rightarrow> UINT \<Rightarrow> 'u func \<Rightarrow> 'u process \<Rightarrow> 'u process" where
  "dialog_handling d h m f st =
     (SetWindowLongPtrW h DWLP_USER d st)
       \<lparr>dialogs := (dialogs st)
          (d \<mapsto> \<lparr>dlg_hWnd = h, dlg_msgHandler = mh_on_message base_msg_handler_new m f\<rparr>)\<rparr>"

text \<open>
  What the platform does with the two procedures over time: a run of calls, each to the
  window procedure or to the dialog procedure, for any handle and with any message.
  \<open>proc_calls\<close> gives, for each call, its result and the process it left. \<open>keeps_slots\<close>
  says of the font helper, a parameter of the dialog procedure, that it stores no owner.
\<close>

datatype proc_call = ToWindow HWND UINT WPARAM LPARAM | ToDialog HWND UINT WPARAM LPARAM

fun proc_call_run ::
  "(HWND \<Rightarrow> UINT \<Rightarrow> WPARAM \<Rightarrow> LPARAM \<Rightarrow> LRESULT) \<Rightarrow> (HWND \<Rightarrow> 'u process \<Rightarrow> 'u process option) \<Rightarrow>
   proc_call \<Rightarrow> (LRESULT, 'u process) comp" where
  "proc_call_run dwp sf (ToWindow h m wp lp) st = window_proc dwp h m wp lp st"
| "proc_call_run dwp sf (ToDialog h m wp lp) st = dialog_proc sf h m wp lp st"

fun proc_calls ::
  "(HWND \<Rightarrow> UINT \<Rightarrow> WPARAM \<Rightarrow> LPARAM \<Rightarrow> LRESULT) \<Rightarrow> (HWND \<Rightarrow> 'u process \<Rightarrow> 'u process option) \<Rightarrow>
   proc_call list \<Rightarrow> 'u process \<Rightarrow> ((excp + LRESULT) \<times> 'u process) list option" where
  "proc_calls dwp sf [] st = Some []"
| "proc_calls dwp sf (c # cs) st =
     (case proc_call_run dwp sf c st of
        None \<Rightarrow> None
      | Some (r, st1) \<Rightarrow> map_option ((#) (r, st1)) (proc_calls dwp sf cs st1))"

definition keeps_slots :: "(HWND \<Rightarrow> 'u process \<Rightarrow> 'u process option) \<Rightarrow> bool" where
  "keeps_slots sf = (\<forall>h st st'. sf h st = Some st' \<longrightarrow> window_long st' = window_long st)"

section \<open>Properties of the handler table\<close>

lemma rev_runner_prefix:
  "i < length hs \<Longrightarrow> rev_runner (hs @ ys) k i = rev_runner hs k i"
  by (induction i) (simp_all add: nth_append)

lemma rev_runner_le: "rev_runner hs k i = Some j \<Longrightarrow> j \<le> i"
  by (induction i) (auto split: if_splits)

lemma rev_runner_hit: "rev_runner hs k i = Some j \<Longrightarrow> handler_id (hs ! j) = k"
  by (induction i) (auto split: if_splits)

lemma rev_runner_last:
  "rev_runner hs k i = Some j \<Longrightarrow> j < m \<Longrightarrow> m \<le> i \<Longrightarrow> handler_id (hs ! m) \<noteq> k"
  by (induction i) (auto split: if_splits simp: le_Suc_eq)

lemma rev_runner_sentinel:
  "handler_id (hs ! 0) = k \<Longrightarrow> \<exists>j. rev_runner hs k i = Some j"
  by (induction i) auto

lemma last_registration_unique:
  "last_registration hs k r \<Longrightarrow> last_registration hs k r' \<Longrightarrow> r = r'"
proof (cases r; cases r')
  fix i assume "r = None" "r' = Some i"
  then show "last_registration hs k r \<Longrightarrow> last_registration hs k r' \<Longrightarrow> r = r'"
    unfolding last_registration_def by force
next
  fix i assume "r = Some i" "r' = None"
  then show "last_registration hs k r \<Longrightarrow> last_registration hs k r' \<Longrightarrow> r = r'"
    unfolding last_registration_def by force
next
  fix i i' assume rr: "r = Some i" "r' = Some i'"
  assume a: "last_registration hs k r" and b: "last_registration hs k r'"
  have "\<not> i < i'" using a b rr unfolding last_registration_def by force
  moreover have "\<not> i' < i" using a b rr unfolding last_registration_def by force
  ultimately show "r = r'" using rr by simp
qed simp

lemma last_registration_sentinel:
  "last_registration (hs[0 := h]) k r = last_registration hs k r"
  unfolding last_registration_def by (cases r) auto

lemma store_find_spec:
  assumes "handlers s \<noteq> []"
  shows "\<exists>r. store_find s k = Some (r, write_sentinel s k) \<and> last_registration (handlers s) k r"
proof -
  define hs where "hs = (handlers s)[0 := (handlers s ! 0)\<lparr>handler_id := k\<rparr>]"
  have len: "length hs = length (handlers s)" and ne: "hs \<noteq> []"
    using assms by (simp_all add: hs_def)
  have "handler_id (hs ! 0) = k" using assms by (simp add: hs_def)
  from rev_runner_sentinel [OF this, of "length hs - 1"]
  obtain j where j: "rev_runner hs k (length hs - 1) = Some j" ..
  have jle: "j \<le> length hs - 1" using j by (rule rev_runner_le)
  have hit: "handler_id (hs ! j) = k" using j by (rule rev_runner_hit)
  have after: "\<And>m. j < m \<Longrightarrow> m < length hs \<Longrightarrow> handler_id (hs ! m) \<noteq> k"
    using rev_runner_last [OF j] by simp
  have "last_registration hs k (if j = 0 then None else Some j)"
    unfolding last_registration_def using jle hit after ne by (auto simp: Suc_le_eq)
  then have "last_registration (handlers s) k (if j = 0 then None else Some j)"
    unfolding hs_def by (simp only: last_registration_sentinel)
  moreover have "store_find s k = Some (if j = 0 then None else Some j, write_sentinel s k)"
    using assms j unfolding store_find_def write_sentinel_def hs_def [symmetric]
    by (simp add: Let_def)
  ultimately show ?thesis by blast
qed

lemma handlers_adds: "handlers (adds s kfs) = handlers s @ map entry kfs"
  by (induction kfs arbitrary: s) (simp_all add: adds_def store_add_def entry_def case_prod_beta)

lemma rev_runner_map_of:
  "handler_id h0 = k \<Longrightarrow>
   \<exists>i. rev_runner (h0 # map entry kfs) k (length kfs) = Some i \<and>
       (if i = 0 then None else Some (func ((h0 # map entry kfs) ! i))) = map_of (rev kfs) k"
proof (induction kfs rule: rev_induct)
  case Nil
  then show ?case by simp
next
  case (snoc x xs)
  show ?case
  proof (cases "fst x = k")
    case True
    then show ?thesis by (cases x) (simp add: nth_append entry_def)
  next
    case False
    from snoc obtain i where i: "rev_runner (h0 # map entry xs) k (length xs) = Some i"
      and r: "(if i = 0 then None else Some (func ((h0 # map entry xs) ! i))) = map_of (rev xs) k"
      by blast
    have le: "i \<le> length xs" using i by (rule rev_runner_le)
    have run: "rev_runner ((h0 # map entry xs) @ [entry x]) k (length xs) = Some i"
      using i by (subst rev_runner_prefix) simp_all
    have "handler_id (((h0 # map entry xs) @ [entry x]) ! Suc (length xs)) = fst x"
      by (simp add: nth_append entry_def)
    with False run
    have 1: "rev_runner (h0 # map entry (xs @ [x])) k (length (xs @ [x])) = Some i"
      by simp
    have 2: "(h0 # map entry (xs @ [x])) ! i = (h0 # map entry xs) ! i"
      using le by (cases i) (simp_all add: nth_append)
    have 3: "map_of (rev (xs @ [x])) k = map_of (rev xs) k"
      using False by (cases x) simp
    show ?thesis
    proof (intro exI conjI)
      show "rev_runner (h0 # map entry (xs @ [x])) k (length (xs @ [x])) = Some i"
        by (rule 1)
      show "(if i = 0 then None else Some (func ((h0 # map entry (xs @ [x])) ! i))) =
            map_of (rev (xs @ [x])) k"
        unfolding 2 3 by (rule r)
    qed
  qed
qed

text \<open>
  Claim C1. After any run of \<^verbatim>\<open>add(key, callback)\<close> calls on a fresh store,
  \<^verbatim>\<open>find(key)\<close> returns the function object added last under exactly that key, and
  returns null precisely for a key that was never added.
\<close>

theorem find_last_write_wins:
  "\<exists>r s'. store_find (adds (store_new z) kfs) k = Some (r, s') \<and>
     map_option (\<lambda>i. func (handlers s' ! i)) r = map_of (rev kfs) k \<and>
     (r = None) = (k \<notin> fst ` set kfs)"
proof -
  define h0 :: "('a, 'b) handler" where "h0 = \<lparr>handler_id = k, func = nullfn\<rparr>"
  define hs where "hs = h0 # map entry kfs"
  have hk: "handler_id h0 = k" by (simp add: h0_def)
  from rev_runner_map_of [OF hk, of kfs]
  obtain i where i: "rev_runner hs k (length kfs) = Some i"
    and m: "(if i = 0 then None else Some (func (hs ! i))) = map_of (rev kfs) k"
    unfolding hs_def by blast
  have upd: "(handlers (adds (store_new z) kfs))
               [0 := (handlers (adds (store_new z) kfs) ! 0)\<lparr>handler_id := k\<rparr>] = hs"
    by (simp add: handlers_adds store_new_def hs_def h0_def)
  have ne: "handlers (adds (store_new z) kfs) \<noteq> []"
    by (simp add: handlers_adds store_new_def)
  have len: "length hs - Suc 0 = length kfs" by (simp add: hs_def)
  have f: "store_find (adds (store_new z) kfs) k =
           Some (if i = 0 then None else Some i, (adds (store_new z) kfs)\<lparr>handlers := hs\<rparr>)"
    unfolding store_find_def using ne by (simp add: upd Let_def len i)
  have n: "(map_of (rev kfs) k = None) = (k \<notin> fst ` set kfs)"
    by (simp add: map_of_eq_None_iff)
  show ?thesis
  proof (intro exI conjI)
    show "store_find (adds (store_new z) kfs) k =
          Some (if i = 0 then None else Some i, (adds (store_new z) kfs)\<lparr>handlers := hs\<rparr>)"
      by (rule f)
    show "map_option (\<lambda>i. func (handlers ((adds (store_new z) kfs)\<lparr>handlers := hs\<rparr>) ! i))
            (if i = 0 then None else Some i) = map_of (rev kfs) k"
      using m by (cases "i = 0") simp_all
    show "((if i = 0 then None else Some i) = None) = (k \<notin> fst ` set kfs)"
      using m n by (cases "i = 0") auto
  qed
qed

lemma write_sentinel_twice:
  "handlers s \<noteq> [] \<Longrightarrow> write_sentinel (write_sentinel s k') k = write_sentinel s k"
  by (cases "handlers s") (simp_all add: write_sentinel_def)

lemma handlers_write_sentinel_ne: "handlers (write_sentinel s k) \<noteq> [] \<longleftrightarrow> handlers s \<noteq> []"
  by (simp add: write_sentinel_def)

lemma last_registration_write_sentinel:
  "last_registration (handlers (write_sentinel s k')) k r = last_registration (handlers s) k r"
  by (simp add: write_sentinel_def last_registration_sentinel)

lemma last_registration_empty:
  "length hs \<le> 1 \<Longrightarrow> last_registration hs k r \<Longrightarrow> r = None"
  unfolding last_registration_def by (cases r) auto

text \<open>
  Claim C6. On a store that still has its sentinel, \<^verbatim>\<open>find\<close> returns the last real
  registration of the key and never the sentinel: it returns null when the table holds
  the sentinel only, and whatever an earlier \<^verbatim>\<open>find\<close> left in the sentinel (the probed
  key itself included) changes neither the result nor the store it leaves.
\<close>

theorem find_sentinel_safe:
  assumes "handlers s \<noteq> []"
  shows "\<exists>r. store_find s k = Some (r, write_sentinel s k) \<and>
             last_registration (handlers s) k r \<and>
             (store_empty s \<longrightarrow> r = None) \<and>
             (\<forall>k'. \<exists>r1. store_find s k' = Some (r1, write_sentinel s k') \<and>
                    store_find (write_sentinel s k') k = Some (r, write_sentinel s k))"
proof -
  from store_find_spec [OF assms, of k]
  obtain r where f: "store_find s k = Some (r, write_sentinel s k)"
    and l: "last_registration (handlers s) k r" by blast
  have e: "store_empty s \<longrightarrow> r = None"
    using l last_registration_empty [of "handlers s" k r] by (simp add: store_empty_def)
  have p: "\<exists>r1. store_find s k' = Some (r1, write_sentinel s k') \<and>
                 store_find (write_sentinel s k') k = Some (r, write_sentinel s k)" for k'
  proof -
    from store_find_spec [OF assms, of k']
    obtain r1 where f1: "store_find s k' = Some (r1, write_sentinel s k')" by blast
    have ne: "handlers (write_sentinel s k') \<noteq> []"
      using assms by (simp add: handlers_write_sentinel_ne)
    from store_find_spec [OF ne, of k]
    obtain r2 where f2: "store_find (write_sentinel s k') k =
                           Some (r2, write_sentinel (write_sentinel s k') k)"
      and l2: "last_registration (handlers (write_sentinel s k')) k r2" by blast
    have "last_registration (handlers s) k r2"
      using l2 by (simp only: last_registration_write_sentinel)
    then have "r2 = r" using l by (rule last_registration_unique)
    with f1 f2 show ?thesis by (simp add: write_sentinel_twice [OF assms])
  qed
  from f l e p show ?thesis by blast
qed

theorem find_sentinel_safe_witness:
  "handlers (store_add (store_new 0) 7 nullfn :: (UINT, unit) store) \<noteq> [] \<and>
   store_empty (store_new 0 :: (UINT, unit) store) \<and>
   map_option fst (store_find (store_new 0 :: (UINT, unit) store) 0) = Some None \<and>
   map_option fst (store_find (store_add (store_new 0) 7 nullfn :: (UINT, unit) store) 0) = Some None \<and>
   map_option fst (store_find (write_sentinel (store_add (store_new 0) 7 nullfn :: (UINT, unit) store) 7) 7)
     = Some (Some 1)"
  using find_sentinel_safe [of "store_add (store_new 0) 7 nullfn :: (UINT, unit) store" 7]
    find_sentinel_safe [of "store_new 0 :: (UINT, unit) store" 0]
  by (simp add: store_new_def store_add_def store_empty_def store_find_def write_sentinel_def)

section \<open>Properties of the multi-key registration\<close>

lemma call_func_user:
  "call_func table (user g) p st =
     (case g p (observe st) (user_state st) of (r, u') \<Rightarrow> Some (r, st\<lparr>user_state := u'\<rparr>))"
  by (subst call_func.simps) simp

lemma call_func_nullfn: "call_func table nullfn p st = Some (Inl bad_function_call, st)"
  by (subst call_func.simps) simp

lemma call_func_ui_thread: "call_func table ui_thread p st = ui_thread_handler p st"
  by (subst call_func.simps) simp

lemma call_func_thunk:
  "call_func table (thunk n) p st =
     (if n < length table then call_func table (table ! n) p st else None)"
  by (subst call_func.simps) simp

lemma foldl_add_thunks:
  "handlers (foldl (\<lambda>st k. if k \<noteq> id0 then store_add st k t else st) s ks) =
     handlers s @ map (\<lambda>k. \<lparr>handler_id = k, func = t\<rparr>) (filter (\<lambda>k. k \<noteq> id0) ks)"
  by (induction ks arbitrary: s) (simp_all add: store_add_def)

lemma handlers_add_list:
  "\<exists>s'. store_add_list s (id0 # rest) f = Some s' \<and>
        handlers s' = handlers s @ \<lparr>handler_id = id0, func = f\<rparr> #
          map (\<lambda>k. \<lparr>handler_id = k, func = thunk (length (handlers s))\<rparr>)
            (filter (\<lambda>k. k \<noteq> id0) rest)"
  by (simp add: store_add_list_def Let_def foldl_add_thunks) (simp add: store_add_def)

lemma last_registration_ge:
  assumes "last_registration hs k r" "0 < m" "m < length hs" "handler_id (hs ! m) = k"
  shows "\<exists>i. r = Some i \<and> m \<le> i \<and> i < length hs"
proof (cases r)
  case None
  with assms show ?thesis unfolding last_registration_def by force
next
  case (Some i)
  have "\<not> i < m" using assms Some unfolding last_registration_def by force
  with assms Some show ?thesis unfolding last_registration_def by simp
qed

lemma block_nth_first: "(hs @ h # ts) ! length hs = h"
  by simp

lemma block_nth_later:
  "length hs < i \<Longrightarrow> i < length hs + Suc (length ks) \<Longrightarrow>
   (hs @ h # map (\<lambda>k. \<lparr>handler_id = k, func = t\<rparr>) ks) ! i =
     \<lparr>handler_id = ks ! (i - Suc (length hs)), func = t\<rparr>"
  by (simp add: nth_append nth_Cons')

lemma find_in_block:
  assumes ne: "handlers s \<noteq> []"
    and hs': "handlers s' = handlers s @ \<lparr>handler_id = id0, func = user g\<rparr> #
          map (\<lambda>k. \<lparr>handler_id = k, func = thunk (length (handlers s))\<rparr>)
            (filter (\<lambda>k. k \<noteq> id0) rest)"
    and k: "k \<in> set (id0 # rest)"
  shows "\<exists>i. store_find s' k = Some (Some i, write_sentinel s' k) \<and>
             call_func (map func (handlers (write_sentinel s' k)))
               (func (handlers (write_sentinel s' k) ! i)) p st =
             (case g p (observe st) (user_state st) of (r, u') \<Rightarrow> Some (r, st\<lparr>user_state := u'\<rparr>))"
proof -
  define n where "n = length (handlers s)"
  define ks where "ks = filter (\<lambda>k. k \<noteq> id0) rest"
  define hs where "hs = handlers s'"
  have hs_eq: "hs = handlers s @ \<lparr>handler_id = id0, func = user g\<rparr> #
                 map (\<lambda>k. \<lparr>handler_id = k, func = thunk n\<rparr>) ks"
    by (simp add: hs_def hs' n_def ks_def)
  have n0: "0 < n" using ne by (simp add: n_def)
  have len: "length hs = n + Suc (length ks)" by (simp add: hs_eq n_def)
  have first: "hs ! n = \<lparr>handler_id = id0, func = user g\<rparr>"
    unfolding hs_eq n_def by (rule block_nth_first)
  have later: "hs ! i = \<lparr>handler_id = ks ! (i - Suc n), func = thunk n\<rparr>"
    if "n < i" "i < length hs" for i
    unfolding hs_eq n_def using that block_nth_later [of "handlers s" i ks]
    by (simp add: len n_def)
  have later_key: "handler_id (hs ! i) \<noteq> id0" if "n < i" "i < length hs" for i
  proof -
    have "i - Suc n < length ks" using that len by simp
    then have "ks ! (i - Suc n) \<in> set ks" by (rule nth_mem)
    then have "ks ! (i - Suc n) \<noteq> id0" by (simp add: ks_def)
    then show ?thesis using later [OF that] by simp
  qed
  have ne': "handlers s' \<noteq> []" using hs' by simp
  from store_find_spec [OF ne', of k]
  obtain r where f: "store_find s' k = Some (r, write_sentinel s' k)"
    and l: "last_registration hs k r" unfolding hs_def by blast
  have "\<exists>i. r = Some i \<and> n \<le> i \<and> i < length hs \<and>
            func (hs ! i) = (if i = n then user g else thunk n)"
  proof (cases "k = id0")
    case True
    have "handler_id (hs ! n) = k" using first True by simp
    from last_registration_ge [OF l n0 _ this]
    obtain i where i: "r = Some i" "n \<le> i" "i < length hs" using len by auto
    have "handler_id (hs ! i) = id0"
      using l i True unfolding last_registration_def by simp
    then have "\<not> n < i" using later_key i by blast
    then have "i = n" using i by simp
    then show ?thesis using i first by simp
  next
    case False
    then have "k \<in> set ks" using k by (simp add: ks_def)
    then obtain j where j: "j < length ks" "ks ! j = k" by (auto simp: in_set_conv_nth)
    define m where "m = n + Suc j"
    have m: "n < m" "m < length hs" using j len by (simp_all add: m_def)
    have "handler_id (hs ! m) = k" using later [OF m] j by (simp add: m_def)
    from last_registration_ge [OF l _ m(2) this]
    obtain i where i: "r = Some i" "m \<le> i" "i < length hs" using m by auto
    then have ni: "n < i" using m by simp
    from later [OF ni i(3)] have "func (hs ! i) = thunk n" by simp
    then show ?thesis using i ni by simp
  qed
  then obtain i where i: "r = Some i" "n \<le> i" "i < length hs"
    and fi: "func (hs ! i) = (if i = n then user g else thunk n)" by blast
  define hs2 where "hs2 = handlers (write_sentinel s' k)"
  have hs2: "hs2 = hs[0 := (hs ! 0)\<lparr>handler_id := k\<rparr>]"
    by (simp add: hs2_def write_sentinel_def hs_def)
  have same: "hs2 ! j = hs ! j" if "0 < j" for j using that by (simp add: hs2)
  have len2: "length hs2 = length hs" by (simp add: hs2)
  have tn: "map func hs2 ! n = user g"
    using n0 len first by (simp add: len2 same)
  have "call_func (map func hs2) (func (hs2 ! i)) p st =
          (case g p (observe st) (user_state st) of (r, u') \<Rightarrow> Some (r, st\<lparr>user_state := u'\<rparr>))"
  proof (cases "i = n")
    case True
    then show ?thesis using fi n0 by (simp add: same call_func_user)
  next
    case False
    then have "func (hs2 ! i) = thunk n" using fi i n0 by (simp add: same)
    then show ?thesis using len len2 tn by (simp add: call_func_thunk call_func_user)
  qed
  then show ?thesis using f i unfolding hs2_def by blast
qed

text \<open>
  Claim C5, as the code has it. The multi-key \<^verbatim>\<open>add\<close> appends the callback once,
  under the first key, and one forwarding wrapper holding the index of that entry for
  every later key that differs from the first key; \<^verbatim>\<open>find\<close> on any of the keys then
  reaches a function object whose call runs that callback. A later key equal to the first
  appends nothing.
\<close>

theorem add_list_forwards_to_first:
  assumes "handlers s \<noteq> []"
  shows "\<exists>s'. store_add_list s (id0 # rest) (user g) = Some s' \<and>
     handlers s' = handlers s @ \<lparr>handler_id = id0, func = user g\<rparr> #
          map (\<lambda>k. \<lparr>handler_id = k, func = thunk (length (handlers s))\<rparr>)
            (filter (\<lambda>k. k \<noteq> id0) rest) \<and>
     (\<forall>k\<in>set (id0 # rest).
        \<exists>i. store_find s' k = Some (Some i, write_sentinel s' k) \<and>
            call_func (map func (handlers (write_sentinel s' k)))
              (func (handlers (write_sentinel s' k) ! i)) p st =
            (case g p (observe st) (user_state st) of (r, u') \<Rightarrow> Some (r, st\<lparr>user_state := u'\<rparr>)))"
proof -
  from handlers_add_list [of s id0 rest "user g"]
  obtain s' where a: "store_add_list s (id0 # rest) (user g) = Some s'"
    and h: "handlers s' = handlers s @ \<lparr>handler_id = id0, func = user g\<rparr> #
          map (\<lambda>k. \<lparr>handler_id = k, func = thunk (length (handlers s))\<rparr>)
            (filter (\<lambda>k. k \<noteq> id0) rest)" by blast
  have "\<forall>k\<in>set (id0 # rest).
        \<exists>i. store_find s' k = Some (Some i, write_sentinel s' k) \<and>
            call_func (map func (handlers (write_sentinel s' k)))
              (func (handlers (write_sentinel s' k) ! i)) p st =
            (case g p (observe st) (user_state st) of (r, u') \<Rightarrow> Some (r, st\<lparr>user_state := u'\<rparr>))"
    using find_in_block [OF assms h] by blast
  with a h show ?thesis by blast
qed

theorem add_list_forwards_to_first_witness:
  "handlers (store_new 0 :: (UINT, nat) store) \<noteq> [] \<and>
   (\<exists>s'. store_add_list (store_new 0 :: (UINT, nat) store) [1, 2, 1, 3] (user count_calls) = Some s' \<and>
      map handler_id (handlers s') = [0, 1, 2, 3] \<and>
      (\<exists>i. store_find s' 3 = Some (Some i, write_sentinel s' 3) \<and>
          call_func (map func (handlers (write_sentinel s' 3)))
            (func (handlers (write_sentinel s' 3) ! i)) \<lparr>wparam = 0, lparam = 0\<rparr> (process_start 0) =
          Some (Inr 1, (process_start 0)\<lparr>user_state := 1\<rparr>)))"
proof -
  have ne: "handlers (store_new 0 :: (UINT, nat) store) \<noteq> []"
    by (simp add: store_new_def)
  from add_list_forwards_to_first [OF ne, of 1 "[2, 1, 3]" count_calls
      "\<lparr>wparam = 0, lparam = 0\<rparr>" "process_start 0"]
  obtain s' where a: "store_add_list (store_new 0 :: (UINT, nat) store) [1, 2, 1, 3] (user count_calls) = Some s'"
    and h: "handlers s' = handlers (store_new 0) @ \<lparr>handler_id = 1, func = user count_calls\<rparr> #
          map (\<lambda>k. \<lparr>handler_id = k, func = thunk (length (handlers (store_new 0 :: (UINT, nat) store)))\<rparr>)
            (filter (\<lambda>k. k \<noteq> 1) [2, 1, 3])"
    and f: "\<forall>k\<in>set [1, 2, 1, 3].
        \<exists>i. store_find s' k = Some (Some i, write_sentinel s' k) \<and>
            call_func (map func (handlers (write_sentinel s' k)))
              (func (handlers (write_sentinel s' k) ! i)) \<lparr>wparam = 0, lparam = 0\<rparr> (process_start 0) =
            (case count_calls \<lparr>wparam = 0, lparam = 0\<rparr> (observe (process_start 0 :: nat process))
                    (user_state (process_start 0)) of
               (r, u') \<Rightarrow> Some (r, (process_start 0)\<lparr>user_state := u'\<rparr>))"
    by blast
  have k: "map handler_id (handlers s') = [0, 1, 2, 3]"
    unfolding h by (simp add: store_new_def)
  from f have c: "\<exists>i. store_find s' 3 = Some (Some i, write_sentinel s' 3) \<and>
          call_func (map func (handlers (write_sentinel s' 3)))
            (func (handlers (write_sentinel s' 3) ! i)) \<lparr>wparam = 0, lparam = 0\<rparr> (process_start 0) =
          Some (Inr 1, (process_start 0)\<lparr>user_state := 1\<rparr>)"
    by (simp add: count_calls_def process_start_def)
  show ?thesis
    apply (rule conjI)
     apply (rule ne)
    apply (rule exI [where x = s'])
    apply (rule conjI)
     apply (rule a)
    apply (rule conjI)
     apply (rule k)
    apply (rule c)
    done
qed

text \<open>
  A key repeated among the later keys is appended once per occurrence: after
  \<^verbatim>\<open>add({1, 2, 2}, f)\<close> the table holds two entries with key 2.
\<close>

theorem add_list_duplicate_counterexample:
  "map_option (map handler_id \<circ> handlers)
     (store_add_list (store_new 0 :: (UINT, nat) store) [1, 2, 2] (user count_calls)) =
   Some [0, 1, 2, 2]"
  by (simp add: store_add_list_def store_add_def store_new_def)

section \<open>Properties of the dispatch core\<close>

lemma catch_all_excps_eq:
  "catch_all_excps fn a (l, st) =
     (case fn (l, st) of
        None \<Rightarrow> None
      | Some (Inr v, s') \<Rightarrow> Some (Inr v, s')
      | Some (Inl e, (l', st')) \<Rightarrow>
          Some (Inr (), (l', if a = YES then log_call (PostQuitMessage (- 1)) (log_call (report_excp e) st')
                             else log_call (report_excp e) st')))"
  by (simp add: catch_all_excps_def try_catch_def split: option.splits sum.splits prod.splits)

lemma map_func_write_sentinel:
  "handlers s \<noteq> [] \<Longrightarrow> map func (handlers (write_sentinel s k)) = map func (handlers s)"
  by (cases "handlers s") (simp_all add: write_sentinel_def)

lemma exec_tail:
  "(case userFunc of
      Some i \<Rightarrow>
        (case catch_all_excps
                (\<lambda>(retVal, st1).
                   case call_func table (table ! i) \<lparr>wparam = wp, lparam = lp\<rparr> st1 of
                     None \<Rightarrow> None
                   | Some (Inl e, st2) \<Rightarrow> Some (Inl e, (retVal, st2))
                   | Some (Inr v, st2) \<Rightarrow> Some (Inr (), (v, st2)))
                YES (0, st) of
           None \<Rightarrow> None
         | Some (Inl e, (retVal, st')) \<Rightarrow> Some (Inl e, hm', st')
         | Some (Inr u, (retVal, st')) \<Rightarrow> Some (Inr (Some retVal), hm', st'))
    | None \<Rightarrow> Some (Inr None, hm', st)) = dispatch table userFunc hm' wp lp st"
  by (simp add: dispatch_def catch_all_excps_eq faulted_def
           split: option.splits sum.splits prod.splits)

lemma exec_command:
  assumes "handlers (cmds hm) \<noteq> []"
  shows "\<exists>r. last_registration (handlers (cmds hm)) (LOWORD wp) r \<and>
           exec hm WM_COMMAND wp lp st =
             dispatch (map func (handlers (cmds hm))) r
               (hm\<lparr>cmds := write_sentinel (cmds hm) (LOWORD wp)\<rparr>) wp lp st"
proof -
  from store_find_spec [OF assms, of "LOWORD wp"]
  obtain r where f: "store_find (cmds hm) (LOWORD wp) = Some (r, write_sentinel (cmds hm) (LOWORD wp))"
    and l: "last_registration (handlers (cmds hm)) (LOWORD wp) r" by blast
  have "exec hm WM_COMMAND wp lp st =
             dispatch (map func (handlers (cmds hm))) r
               (hm\<lparr>cmds := write_sentinel (cmds hm) (LOWORD wp)\<rparr>) wp lp st"
    unfolding exec_def by (simp add: f exec_tail map_func_write_sentinel [OF assms])
  with l show ?thesis by blast
qed

lemma exec_notify:
  assumes "handlers (nfys hm) \<noteq> []" "notify_headers st lp = Some nmhdr"
  shows "\<exists>r. last_registration (handlers (nfys hm)) (idFrom nmhdr, code nmhdr) r \<and>
           exec hm WM_NOTIFY wp lp st =
             dispatch (map func (handlers (nfys hm))) r
               (hm\<lparr>nfys := write_sentinel (nfys hm) (idFrom nmhdr, code nmhdr)\<rparr>) wp lp st"
proof -
  from store_find_spec [OF assms(1), of "(idFrom nmhdr, code nmhdr)"]
  obtain r where f: "store_find (nfys hm) (idFrom nmhdr, code nmhdr) =
                       Some (r, write_sentinel (nfys hm) (idFrom nmhdr, code nmhdr))"
    and l: "last_registration (handlers (nfys hm)) (idFrom nmhdr, code nmhdr) r" by blast
  have ne: "WM_NOTIFY \<noteq> WM_COMMAND" by (simp add: WM_NOTIFY_def WM_COMMAND_def)
  have "exec hm WM_NOTIFY wp lp st =
             dispatch (map func (handlers (nfys hm))) r
               (hm\<lparr>nfys := write_sentinel (nfys hm) (idFrom nmhdr, code nmhdr)\<rparr>) wp lp st"
    unfolding exec_def
    by (simp add: ne assms(2) f exec_tail map_func_write_sentinel [OF assms(1)])
  with l show ?thesis by blast
qed

lemma exec_message:
  assumes "handlers (msgs hm) \<noteq> []" "msg \<noteq> WM_COMMAND" "msg \<noteq> WM_NOTIFY"
  shows "\<exists>r. last_registration (handlers (msgs hm)) msg r \<and>
           exec hm msg wp lp st =
             dispatch (map func (handlers (msgs hm))) r
               (hm\<lparr>msgs := write_sentinel (msgs hm) msg\<rparr>) wp lp st"
proof -
  from store_find_spec [OF assms(1), of msg]
  obtain r where f: "store_find (msgs hm) msg = Some (r, write_sentinel (msgs hm) msg)"
    and l: "last_registration (handlers (msgs hm)) msg r" by blast
  have "exec hm msg wp lp st =
             dispatch (map func (handlers (msgs hm))) r
               (hm\<lparr>msgs := write_sentinel (msgs hm) msg\<rparr>) wp lp st"
    unfolding exec_def
    by (simp add: assms(2,3) f exec_tail map_func_write_sentinel [OF assms(1)])
  with l show ?thesis by blast
qed

lemma exec_dispatch:
  assumes "tables_present hm" "msg = WM_NOTIFY \<longrightarrow> notify_headers st lp = Some nmhdr"
  shows "\<exists>r. found_by hm msg wp nmhdr r \<and>
           exec hm msg wp lp st =
             dispatch (probed_table hm msg) r (after_probe hm msg wp nmhdr) wp lp st"
proof -
  have ne: "handlers (msgs hm) \<noteq> []" "handlers (cmds hm) \<noteq> []" "handlers (nfys hm) \<noteq> []"
    using assms(1) by (simp_all add: tables_present_def)
  consider "msg = WM_COMMAND" | "msg = WM_NOTIFY" "msg \<noteq> WM_COMMAND"
    | "msg \<noteq> WM_COMMAND" "msg \<noteq> WM_NOTIFY" by blast
  then show ?thesis
  proof cases
    case 1
    with exec_command [OF ne(2), of wp lp st] show ?thesis
      by (simp add: found_by_def probed_table_def after_probe_def)
  next
    case 2
    then have "notify_headers st lp = Some nmhdr" using assms(2) by simp
    with 2 exec_notify [OF ne(3) this, of wp] show ?thesis
      by (simp add: found_by_def probed_table_def after_probe_def)
  next
    case 3
    with exec_message [OF ne(1) 3, of wp lp st] show ?thesis
      by (simp add: found_by_def probed_table_def after_probe_def)
  qed
qed

lemma found_by_unique: "found_by hm msg wp nmhdr r \<Longrightarrow> found_by hm msg wp nmhdr r' \<Longrightarrow> r = r'"
  unfolding found_by_def by (auto split: if_splits intro: last_registration_unique)

lemma found_by_bound:
  "found_by hm msg wp nmhdr (Some i) \<Longrightarrow> 0 < i \<and> i < length (probed_table hm msg)"
  unfolding found_by_def probed_table_def last_registration_def by (auto split: if_splits)

text \<open>
  Claim C2. For every message \<^verbatim>\<open>exec\<close> searches exactly one table, chosen by the message
  code: the command table under the low word of \<open>wp\<close> for \<^verbatim>\<open>WM_COMMAND\<close>, the
  notification table under the pair read from the header at \<open>lp\<close> for \<^verbatim>\<open>WM_NOTIFY\<close>,
  the generic table under the message code otherwise. It leaves the other two tables as
  they were, calls the function object registered last under that key, and returns the
  empty result when there is none.
\<close>

theorem exec_probes_one_table:
  assumes "tables_present hm" "msg = WM_NOTIFY \<longrightarrow> notify_headers st lp = Some nmhdr"
  shows "\<exists>r hm'. hm' = after_probe hm msg wp nmhdr \<and> found_by hm msg wp nmhdr r \<and>
           exec hm msg wp lp st = dispatch (probed_table hm msg) r hm' wp lp st \<and>
           (r = None \<longrightarrow> exec hm msg wp lp st = Some (Inr None, hm', st)) \<and>
           (msg = WM_COMMAND \<longrightarrow> msgs hm' = msgs hm \<and> nfys hm' = nfys hm) \<and>
           (msg = WM_NOTIFY \<longrightarrow> msgs hm' = msgs hm \<and> cmds hm' = cmds hm) \<and>
           (msg \<noteq> WM_COMMAND \<and> msg \<noteq> WM_NOTIFY \<longrightarrow> cmds hm' = cmds hm \<and> nfys hm' = nfys hm)"
proof -
  from exec_dispatch [OF assms, of wp]
  obtain r where r: "found_by hm msg wp nmhdr r"
    and e: "exec hm msg wp lp st =
              dispatch (probed_table hm msg) r (after_probe hm msg wp nmhdr) wp lp st"
    by blast
  have n: "r = None \<longrightarrow> exec hm msg wp lp st = Some (Inr None, after_probe hm msg wp nmhdr, st)"
    using e by (simp add: dispatch_def)
  have ne: "WM_NOTIFY \<noteq> WM_COMMAND" by (simp add: WM_NOTIFY_def WM_COMMAND_def)
  have u: "(msg = WM_COMMAND \<longrightarrow> msgs (after_probe hm msg wp nmhdr) = msgs hm \<and>
                                 nfys (after_probe hm msg wp nmhdr) = nfys hm) \<and>
           (msg = WM_NOTIFY \<longrightarrow> msgs (after_probe hm msg wp nmhdr) = msgs hm \<and>
                                cmds (after_probe hm msg wp nmhdr) = cmds hm) \<and>
           (msg \<noteq> WM_COMMAND \<and> msg \<noteq> WM_NOTIFY \<longrightarrow>
              cmds (after_probe hm msg wp nmhdr) = cmds hm \<and>
              nfys (after_probe hm msg wp nmhdr) = nfys hm)"
    using ne by (simp add: after_probe_def)
  from r e n u show ?thesis by blast
qed

lemma LOWORD_example: "LOWORD 0x10007 = 7"
  by (simp add: LOWORD_def)

theorem exec_probes_one_table_witness:
  "tables_present (mh_on_command base_msg_handler_new 7 (user count_calls)) \<and>
   map_option (map_prod id (user_state \<circ> snd))
     (exec (mh_on_command base_msg_handler_new 7 (user count_calls)) WM_COMMAND 0x10007 0
        (process_start 0)) = Some (Inr (Some 1), 1) \<and>
   map_option (map_prod id (user_state \<circ> snd))
     (exec (mh_on_command base_msg_handler_new 7 (user count_calls)) WM_CLOSE 0x10007 0
        (process_start 0)) = Some (Inr None, 0)"
proof -
  define hm :: "nat base_msg_handler"
    where "hm = mh_on_command base_msg_handler_new 7 (user count_calls)"
  have t: "tables_present hm"
    by (simp add: hm_def tables_present_def mh_on_command_def mh_on_message_def
        base_msg_handler_new_def store_new_def store_add_def)
  have c: "WM_COMMAND = WM_NOTIFY \<longrightarrow>
           notify_headers (process_start (0::nat)) 0 = Some \<lparr>hwndFrom = 0, idFrom = 0, code = 0\<rparr>"
    by (simp add: WM_COMMAND_def WM_NOTIFY_def)
  have fc: "found_by hm WM_COMMAND 0x10007 \<lparr>hwndFrom = 0, idFrom = 0, code = 0\<rparr> (Some 1)"
    by (simp add: found_by_def last_registration_def hm_def mh_on_command_def mh_on_message_def
        base_msg_handler_new_def store_new_def store_add_def LOWORD_example)
  from exec_probes_one_table [OF t c, where wp = "0x10007"]
  obtain r where r: "found_by hm WM_COMMAND 0x10007 \<lparr>hwndFrom = 0, idFrom = 0, code = 0\<rparr> r"
    and e: "exec hm WM_COMMAND 0x10007 0 (process_start 0) =
            dispatch (probed_table hm WM_COMMAND) r
              (after_probe hm WM_COMMAND 0x10007 \<lparr>hwndFrom = 0, idFrom = 0, code = 0\<rparr>)
              0x10007 0 (process_start 0)"
    by blast
  have "r = Some 1" using r fc by (rule found_by_unique)
  with e have 1: "map_option (map_prod id (user_state \<circ> snd))
     (exec hm WM_COMMAND 0x10007 0 (process_start 0)) = Some (Inr (Some 1), 1)"
    by (simp add: dispatch_def probed_table_def hm_def mh_on_command_def mh_on_message_def
        base_msg_handler_new_def store_new_def store_add_def call_func_user count_calls_def
        process_start_def)
  have c2: "WM_CLOSE = WM_NOTIFY \<longrightarrow>
           notify_headers (process_start (0::nat)) 0 = Some \<lparr>hwndFrom = 0, idFrom = 0, code = 0\<rparr>"
    by (simp add: WM_CLOSE_def WM_NOTIFY_def)
  have fm: "found_by hm WM_CLOSE 0x10007 \<lparr>hwndFrom = 0, idFrom = 0, code = 0\<rparr> None"
    by (simp add: found_by_def last_registration_def hm_def mh_on_command_def mh_on_message_def
        base_msg_handler_new_def store_new_def store_add_def WM_CLOSE_def WM_COMMAND_def
        WM_NOTIFY_def WM_UI_THREAD_def WM_APP_def)
  from exec_probes_one_table [OF t c2, where wp = "0x10007"]
  obtain r2 where r2: "found_by hm WM_CLOSE 0x10007 \<lparr>hwndFrom = 0, idFrom = 0, code = 0\<rparr> r2"
    and e2: "r2 = None \<longrightarrow> exec hm WM_CLOSE 0x10007 0 (process_start 0) =
            Some (Inr None, after_probe hm WM_CLOSE 0x10007 \<lparr>hwndFrom = 0, idFrom = 0, code = 0\<rparr>,
                  process_start 0)"
    by blast
  have "r2 = None" using r2 fm by (rule found_by_unique)
  with e2 have 2: "map_option (map_prod id (user_state \<circ> snd))
     (exec hm WM_CLOSE 0x10007 0 (process_start 0)) = Some (Inr None, 0)"
    by (simp add: process_start_def)
  from t 1 2 show ?thesis unfolding hm_def by simp
qed

lemma ui_thread_handler_total:
  "pack_ok (wparam p) (lparam p) st \<Longrightarrow> \<exists>st'. ui_thread_handler p st = Some (Inr 0, st')"
  unfolding ui_thread_handler_def pack_ok_def
  by (auto simp: catch_all_excps_eq split: option.splits sum.splits prod.splits)

lemma call_func_not_thunk_total:
  assumes "\<not> is_thunk f" "pack_ok (wparam p) (lparam p) st"
  shows "\<exists>r st'. call_func table f p st = Some (r, st')"
proof (cases f)
  case nullfn
  then show ?thesis by (simp add: call_func_nullfn)
next
  case (user g)
  then show ?thesis by (simp add: call_func_user split: prod.splits)
next
  case (thunk n)
  with assms show ?thesis by simp
next
  case ui_thread
  with ui_thread_handler_total [OF assms(2)] show ?thesis
    by (auto simp: call_func_ui_thread)
qed

lemma call_func_total:
  assumes "wf_table table" "i < length table" "pack_ok (wparam p) (lparam p) st"
  shows "\<exists>r st'. call_func table (table ! i) p st = Some (r, st')"
proof (cases "is_thunk (table ! i)")
  case False
  then show ?thesis using assms(3) by (rule call_func_not_thunk_total)
next
  case True
  then obtain n where n: "table ! i = thunk n" by (cases "table ! i") simp_all
  have "table ! i \<in> set table" using assms(2) by simp
  with assms(1) n have b: "n < length table" and t: "\<not> is_thunk (table ! n)"
    by (auto simp: wf_table_def list_all_iff)
  from call_func_not_thunk_total [OF t assms(3), of table]
  show ?thesis using n b by (simp add: call_func_thunk)
qed

lemma call_func_plain_total:
  assumes "\<not> is_thunk f" "needs_pack table f \<longrightarrow> pack_ok (wparam p) (lparam p) st"
  shows "\<exists>r st'. call_func table f p st = Some (r, st')"
proof (cases f)
  case nullfn
  then show ?thesis by (simp add: call_func_nullfn)
next
  case (user g)
  then show ?thesis by (simp add: call_func_user split: prod.splits)
next
  case (thunk n)
  with assms show ?thesis by simp
next
  case ui_thread
  with assms(2) have "pack_ok (wparam p) (lparam p) st" by simp
  from ui_thread_handler_total [OF this] ui_thread show ?thesis
    by (auto simp: call_func_ui_thread)
qed

lemma call_func_total_weak:
  assumes "wf_table table" "i < length table"
    "needs_pack table (table ! i) \<longrightarrow> pack_ok (wparam p) (lparam p) st"
  shows "\<exists>r st'. call_func table (table ! i) p st = Some (r, st')"
proof (cases "is_thunk (table ! i)")
  case False
  then show ?thesis using assms(3) by (rule call_func_plain_total)
next
  case True
  then obtain n where n: "table ! i = thunk n" by (cases "table ! i") simp_all
  have "table ! i \<in> set table" using assms(2) by simp
  with assms(1) n have b: "n < length table" and t: "\<not> is_thunk (table ! n)"
    by (auto simp: wf_table_def list_all_iff)
  have "needs_pack table (table ! n) \<longrightarrow> pack_ok (wparam p) (lparam p) st"
    using assms(3) n b t by (cases "table ! n") simp_all
  from call_func_plain_total [OF t this]
  show ?thesis using n b by (simp add: call_func_thunk)
qed

lemma needs_pack_mem:
  assumes "needs_pack table f" "f \<in> set table"
  shows "ui_thread \<in> set table"
proof (cases f)
  case (thunk n)
  with assms(1) have n: "n < length table" and "table ! n = ui_thread"
    by (simp_all split: func.splits)
  then show ?thesis by (metis nth_mem)
next
  case ui_thread
  with assms(2) show ?thesis by simp
qed (use assms(1) in simp_all)

lemma wf_table_append:
  assumes "wf_table table" "\<not> is_thunk f"
  shows "wf_table (table @ f # replicate m (thunk (length table)))"
proof -
  have old: "\<And>g. g \<in> set table \<Longrightarrow>
          (case g of thunk n \<Rightarrow> n < length table \<and> \<not> is_thunk (table ! n) | _ \<Rightarrow> True)"
    using assms(1) by (simp add: wf_table_def list_all_iff)
  have "(case g of
           thunk n \<Rightarrow> n < length (table @ f # replicate m (thunk (length table))) \<and>
                      \<not> is_thunk ((table @ f # replicate m (thunk (length table))) ! n)
         | _ \<Rightarrow> True)"
    if "g \<in> set (table @ f # replicate m (thunk (length table)))" for g
  proof (cases g)
    case (thunk n)
    show ?thesis
    proof (cases "g \<in> set table")
      case True
      from old [OF this] thunk show ?thesis by (simp add: nth_append)
    next
      case False
      with that thunk assms(2) have "n = length table" by (cases f) auto
      with thunk assms(2) show ?thesis by simp
    qed
  qed simp_all
  then show ?thesis unfolding wf_table_def list_all_iff by blast
qed

lemma wf_table_add:
  "wf_table (map func (handlers s)) \<Longrightarrow> \<not> is_thunk f \<Longrightarrow>
   wf_table (map func (handlers (store_add s k f)))"
  using wf_table_append [of "map func (handlers s)" f 0] by (simp add: store_add_def)

lemma wf_table_add_list:
  assumes "wf_table (map func (handlers s))" "\<not> is_thunk f"
    "store_add_list s ids f = Some s'"
  shows "wf_table (map func (handlers s'))"
proof (cases ids)
  case Nil
  with assms(3) show ?thesis by (simp add: store_add_list_def)
next
  case (Cons id0 rest)
  from handlers_add_list [of s id0 rest f] assms(3) Cons
  have "handlers s' = handlers s @ \<lparr>handler_id = id0, func = f\<rparr> #
          map (\<lambda>k. \<lparr>handler_id = k, func = thunk (length (handlers s))\<rparr>)
            (filter (\<lambda>k. k \<noteq> id0) rest)" by auto
  then have "map func (handlers s') = map func (handlers s) @ f #
          replicate (length (filter (\<lambda>k. k \<noteq> id0) rest)) (thunk (length (map func (handlers s))))"
    by (simp add: map_replicate_const comp_def)
  with wf_table_append [OF assms(1,2)] show ?thesis by simp
qed

lemma wf_table_new: "wf_table (probed_table (base_msg_handler_new :: 'u base_msg_handler) msg)"
  by (simp add: wf_table_def probed_table_def base_msg_handler_new_def mh_on_message_def
      store_new_def store_add_def)

lemma call_func_replace_Some:
  assumes c: "call_func t f p st = Some y"
    and nt: "\<And>i. i < length t \<Longrightarrow> i \<noteq> j \<Longrightarrow> t ! i \<noteq> thunk j"
    and f: "f \<noteq> thunk j"
  shows "call_func (t[j := f']) f p st = Some y"
proof -
  have "t0 = t \<longrightarrow> f \<noteq> thunk j \<longrightarrow> call_func (t[j := f']) f p st = Some y"
    if "call_func t0 f p st = Some y" for t0
    using that
  proof (induction t0 f p st y rule: call_func.raw_induct [rotated, consumes 1])
    case (1 cf table f p st y)
    show ?case
    proof (intro impI)
      assume eq: "table = t" and fj: "f \<noteq> thunk j"
      show "call_func (t[j := f']) f p st = Some y"
      proof (cases f)
        case nullfn
        with 1(2) show ?thesis by (simp add: call_func_nullfn)
      next
        case (user g)
        with 1(2) show ?thesis by (simp add: call_func_user)
      next
        case ui_thread
        with 1(2) show ?thesis by (simp add: call_func_ui_thread)
      next
        case (thunk n)
        with fj have nj: "n \<noteq> j" by simp
        from 1(2) thunk eq have n: "n < length t" and r: "cf t (t ! n) p st = Some y"
          by (simp_all split: if_splits)
        have "t ! n \<noteq> thunk j" using nt [OF n nj] .
        with 1(1) [OF r] have "call_func (t[j := f']) (t ! n) p st = Some y" by simp
        with thunk n nj show ?thesis by (simp add: call_func_thunk)
      qed
    qed
  qed
  with c f show ?thesis by blast
qed

lemma call_func_replace:
  assumes nt: "\<And>i. i < length t \<Longrightarrow> i \<noteq> j \<Longrightarrow> t ! i \<noteq> thunk j"
    and f: "f \<noteq> thunk j"
  shows "call_func (t[j := f']) f p st = call_func t f p st"
proof (cases "call_func t f p st")
  case (Some y)
  from call_func_replace_Some [OF Some nt f] Some show ?thesis by simp
next
  case None
  show ?thesis
  proof (cases "call_func (t[j := f']) f p st")
    case (Some y)
    have nt': "\<And>i. i < length (t[j := f']) \<Longrightarrow> i \<noteq> j \<Longrightarrow> t[j := f'] ! i \<noteq> thunk j"
      using nt by simp
    from call_func_replace_Some [OF Some nt' f, of "t ! j"]
    have "call_func t f p st = Some y" by simp
    with None show ?thesis by simp
  next
    case None': None
    with None show ?thesis by simp
  qed
qed

lemma dispatch_handler_state:
  "dispatch table r hm' wp lp st = Some (res, hm2, st') \<Longrightarrow> hm2 = hm'"
  unfolding dispatch_def by (auto split: option.splits sum.splits prod.splits)

lemma outcome_dispatch:
  "outcome (dispatch table r hmA wp lp st) = outcome (dispatch table r hmB wp lp st)"
  unfolding dispatch_def outcome_def by (auto split: option.splits sum.splits prod.splits)

lemma last_registration_keys:
  "map handler_id hs' = map handler_id hs \<Longrightarrow>
   last_registration hs' k r = last_registration hs k r"
proof -
  assume a: "map handler_id hs' = map handler_id hs"
  then have len: "length hs' = length hs" by (rule map_eq_imp_length_eq)
  have nth: "handler_id (hs' ! m) = handler_id (hs ! m)" if "m < length hs" for m
    using that a len by (metis nth_map)
  show ?thesis unfolding last_registration_def len
    by (cases r) (auto simp: nth)
qed

lemma keys_replace_func:
  "map handler_id (handlers (msgs (replace_func hm j f'))) = map handler_id (handlers (msgs hm))"
proof (cases "j < length (handlers (msgs hm))")
  case True
  then have "handler_id (handlers (msgs hm) ! j) = map handler_id (handlers (msgs hm)) ! j"
    by simp
  then show ?thesis by (simp add: replace_func_def map_update)
next
  case False
  then have "length (handlers (msgs hm)) \<le> j" by simp
  then show ?thesis by (simp add: replace_func_def list_update_beyond)
qed

lemma found_by_replace_func:
  "found_by (replace_func hm j f') msg wp nmhdr r = found_by hm msg wp nmhdr r"
  unfolding found_by_def
  by (simp add: last_registration_keys [OF keys_replace_func]) (simp add: replace_func_def)

lemma tables_present_replace_func:
  "tables_present (replace_func hm j f') = tables_present hm"
  by (simp add: tables_present_def replace_func_def)

lemma probed_table_replace_func:
  "probed_table (replace_func hm j f') msg =
     (if msg = WM_COMMAND \<or> msg = WM_NOTIFY then probed_table hm msg
      else (probed_table hm msg)[j := f'])"
proof (cases "j < length (handlers (msgs hm))")
  case True
  then show ?thesis by (simp add: probed_table_def replace_func_def map_update)
next
  case False
  then have "length (handlers (msgs hm)) \<le> j" by simp
  then show ?thesis by (simp add: probed_table_def replace_func_def list_update_beyond)
qed

lemmas mh_eval = mh_on_message_def mh_on_command_def mh_on_message_list_def
  base_msg_handler_new_def store_new_def store_add_def store_add_list_def
  WM_CLOSE_def WM_COMMAND_def WM_NOTIFY_def WM_UI_THREAD_def WM_APP_def

section \<open>Properties of the fault boundary in the dispatch core\<close>



section \<open>Properties of generic entries keyed by a command or notification code\<close>

lemma call_func_replace_plain:
  assumes "\<not> is_thunk f"
  shows "call_func (t[j := f']) f p st = call_func t f p st"
  using assms
  by (cases f) (simp_all add: call_func_nullfn call_func_user call_func_ui_thread)

lemma call_func_replace_wf:
  assumes wf: "wf_table t" and i: "i < length t" and f: "t ! i \<noteq> thunk j"
  shows "call_func (t[j := f']) (t ! i) p st = call_func t (t ! i) p st"
proof (cases "is_thunk (t ! i)")
  case False
  then show ?thesis by (rule call_func_replace_plain)
next
  case True
  then obtain n where n: "t ! i = thunk n" by (cases "t ! i") simp_all
  with f have nj: "n \<noteq> j" by simp
  have "t ! i \<in> set t" using i by simp
  with wf n have b: "n < length t" and nt: "\<not> is_thunk (t ! n)"
    by (auto simp: wf_table_def list_all_iff)
  from call_func_replace_plain [OF nt, of t j f' p st]
  show ?thesis using n b nj by (simp add: call_func_thunk)
qed

lemma exec_message_find:
  assumes "handlers (msgs hm) \<noteq> []" "msg \<noteq> WM_COMMAND" "msg \<noteq> WM_NOTIFY"
  shows "\<exists>r. store_find (msgs hm) msg = Some (r, write_sentinel (msgs hm) msg) \<and>
           last_registration (handlers (msgs hm)) msg r \<and>
           exec hm msg wp lp st =
             dispatch (map func (handlers (msgs hm))) r
               (hm\<lparr>msgs := write_sentinel (msgs hm) msg\<rparr>) wp lp st"
proof -
  from store_find_spec [OF assms(1), of msg]
  obtain r where f: "store_find (msgs hm) msg = Some (r, write_sentinel (msgs hm) msg)"
    and l: "last_registration (handlers (msgs hm)) msg r" by blast
  have "exec hm msg wp lp st =
             dispatch (map func (handlers (msgs hm))) r
               (hm\<lparr>msgs := write_sentinel (msgs hm) msg\<rparr>) wp lp st"
    unfolding exec_def
    by (simp add: assms(2,3) f exec_tail map_func_write_sentinel [OF assms(1)])
  with f l show ?thesis by blast
qed

lemma exec_replace_func:
  assumes "tables_present hm" "msg = WM_NOTIFY \<longrightarrow> notify_headers st lp = Some nmhdr"
    and r: "found_by hm msg wp nmhdr r"
    and same: "\<And>i. r = Some i \<Longrightarrow>
        call_func (probed_table (replace_func hm j f') msg) (probed_table (replace_func hm j f') msg ! i)
          \<lparr>wparam = wp, lparam = lp\<rparr> st =
        call_func (probed_table hm msg) (probed_table hm msg ! i) \<lparr>wparam = wp, lparam = lp\<rparr> st"
  shows "outcome (exec (replace_func hm j f') msg wp lp st) = outcome (exec hm msg wp lp st)"
proof -
  from exec_dispatch [OF assms(1,2), of wp]
  obtain r1 where r1: "found_by hm msg wp nmhdr r1"
    and e: "exec hm msg wp lp st =
              dispatch (probed_table hm msg) r1 (after_probe hm msg wp nmhdr) wp lp st"
    by blast
  from r1 r have r1r: "r1 = r" by (rule found_by_unique)
  have tp: "tables_present (replace_func hm j f')"
    using assms(1) by (simp only: tables_present_replace_func)
  from exec_dispatch [OF tp assms(2), of wp]
  obtain r2 where r2: "found_by (replace_func hm j f') msg wp nmhdr r2"
    and e2: "exec (replace_func hm j f') msg wp lp st =
              dispatch (probed_table (replace_func hm j f') msg) r2
                (after_probe (replace_func hm j f') msg wp nmhdr) wp lp st"
    by blast
  have "found_by hm msg wp nmhdr r2" using r2 by (simp only: found_by_replace_func)
  then have rr: "r2 = r" using r by (rule found_by_unique)
  have d: "dispatch (probed_table (replace_func hm j f') msg) r hmB wp lp st =
           dispatch (probed_table hm msg) r hmB wp lp st" for hmB
  proof (cases r)
    case None
    then show ?thesis by (simp add: dispatch_def)
  next
    case (Some i)
    from same [OF Some] Some show ?thesis by (simp add: dispatch_def)
  qed
  show ?thesis unfolding e e2 rr r1r d by (rule outcome_dispatch)
qed

text \<open>
  Claim C10, as the code has it. Take any entry of the generic table whose key is
  \<^verbatim>\<open>WM_COMMAND\<close> or \<^verbatim>\<open>WM_NOTIFY\<close>. For these two message codes \<^verbatim>\<open>exec\<close> does not consult
  the generic table: its result does not depend on the function object of the entry, and
  the generic table is left as it was. For every other code the search \<^verbatim>\<open>find\<close> of the
  generic table returns an entry other than this one, with the code of the message as its
  key, and \<^verbatim>\<open>exec\<close> calls the function object of the entry found. The entry is reached only
  through a forwarding wrapper: on tables as the registration methods build them, whenever
  the entry found is not a wrapper pointing at it, and for every message when no wrapper
  points at it, exchanging its function object for any other changes no result of \<^verbatim>\<open>exec\<close>.
\<close>

theorem generic_entry_for_command_unreachable:
  assumes "tables_present hm" "msg = WM_NOTIFY \<longrightarrow> notify_headers st lp = Some nmhdr"
    and j: "j < length (handlers (msgs hm))"
    and key: "handler_id (handlers (msgs hm) ! j) = WM_COMMAND \<or>
              handler_id (handlers (msgs hm) ! j) = WM_NOTIFY"
  shows "(msg = WM_COMMAND \<or> msg = WM_NOTIFY \<longrightarrow>
            outcome (exec (replace_func hm j f') msg wp lp st) = outcome (exec hm msg wp lp st) \<and>
            (\<forall>res hm' st'. exec hm msg wp lp st = Some (res, hm', st') \<longrightarrow> msgs hm' = msgs hm)) \<and>
         (msg \<noteq> WM_COMMAND \<and> msg \<noteq> WM_NOTIFY \<longrightarrow>
            (\<exists>r s'. store_find (msgs hm) msg = Some (r, s') \<and> r \<noteq> Some j \<and>
               (\<forall>i. r = Some i \<longrightarrow> handler_id (handlers (msgs hm) ! i) = msg) \<and>
               exec hm msg wp lp st =
                 dispatch (map func (handlers (msgs hm))) r (hm\<lparr>msgs := s'\<rparr>) wp lp st \<and>
               (wf_table (map func (handlers (msgs hm))) \<and>
                (\<forall>i. r = Some i \<longrightarrow> func (handlers (msgs hm) ! i) \<noteq> thunk j) \<longrightarrow>
                  outcome (exec (replace_func hm j f') msg wp lp st) =
                  outcome (exec hm msg wp lp st)))) \<and>
         (list_all (\<lambda>f. f \<noteq> thunk j) (map func (handlers (msgs hm))) \<longrightarrow>
            outcome (exec (replace_func hm j f') msg wp lp st) = outcome (exec hm msg wp lp st))"
proof -
  from exec_dispatch [OF assms(1,2), of wp]
  obtain r where r: "found_by hm msg wp nmhdr r"
    and e: "exec hm msg wp lp st =
              dispatch (probed_table hm msg) r (after_probe hm msg wp nmhdr) wp lp st"
    by blast
  have ne: "handlers (msgs hm) \<noteq> []" using assms(1) by (simp add: tables_present_def)
  have A: "outcome (exec (replace_func hm j f') msg wp lp st) = outcome (exec hm msg wp lp st) \<and>
           (\<forall>res hm' st'. exec hm msg wp lp st = Some (res, hm', st') \<longrightarrow> msgs hm' = msgs hm)"
    if m: "msg = WM_COMMAND \<or> msg = WM_NOTIFY"
  proof
    from m have pt: "probed_table (replace_func hm j f') msg = probed_table hm msg"
      by (simp add: probed_table_replace_func)
    show "outcome (exec (replace_func hm j f') msg wp lp st) = outcome (exec hm msg wp lp st)"
      by (rule exec_replace_func [OF assms(1,2) r]) (simp only: pt)
    show "\<forall>res hm' st'. exec hm msg wp lp st = Some (res, hm', st') \<longrightarrow> msgs hm' = msgs hm"
    proof (intro allI impI)
      fix res hm' st'
      assume "exec hm msg wp lp st = Some (res, hm', st')"
      with e have "hm' = after_probe hm msg wp nmhdr"
        using dispatch_handler_state by metis
      with m show "msgs hm' = msgs hm" by (auto simp: after_probe_def)
    qed
  qed
  have B: "\<exists>r s'. store_find (msgs hm) msg = Some (r, s') \<and> r \<noteq> Some j \<and>
               (\<forall>i. r = Some i \<longrightarrow> handler_id (handlers (msgs hm) ! i) = msg) \<and>
               exec hm msg wp lp st =
                 dispatch (map func (handlers (msgs hm))) r (hm\<lparr>msgs := s'\<rparr>) wp lp st \<and>
               (wf_table (map func (handlers (msgs hm))) \<and>
                (\<forall>i. r = Some i \<longrightarrow> func (handlers (msgs hm) ! i) \<noteq> thunk j) \<longrightarrow>
                  outcome (exec (replace_func hm j f') msg wp lp st) =
                  outcome (exec hm msg wp lp st))"
    if m: "msg \<noteq> WM_COMMAND \<and> msg \<noteq> WM_NOTIFY"
  proof -
    from m have m1: "msg \<noteq> WM_COMMAND" and m2: "msg \<noteq> WM_NOTIFY" by simp_all
    from exec_message_find [OF ne m1 m2, of wp lp st]
    obtain q where f: "store_find (msgs hm) msg = Some (q, write_sentinel (msgs hm) msg)"
      and l: "last_registration (handlers (msgs hm)) msg q"
      and x: "exec hm msg wp lp st =
             dispatch (map func (handlers (msgs hm))) q
               (hm\<lparr>msgs := write_sentinel (msgs hm) msg\<rparr>) wp lp st" by blast
    have fq: "found_by hm msg wp nmhdr q" using l m by (simp add: found_by_def)
    have qk: "\<forall>i. q = Some i \<longrightarrow> handler_id (handlers (msgs hm) ! i) = msg"
      using l by (auto simp: last_registration_def)
    have qj: "q \<noteq> Some j" using qk key m by auto
    have pt: "probed_table (replace_func hm j f') msg = (probed_table hm msg)[j := f']"
      using m by (simp add: probed_table_replace_func)
    have t: "probed_table hm msg = map func (handlers (msgs hm))"
      using m by (simp add: probed_table_def)
    have o: "outcome (exec (replace_func hm j f') msg wp lp st) = outcome (exec hm msg wp lp st)"
      if wf: "wf_table (map func (handlers (msgs hm)))"
        and nj: "\<forall>i. q = Some i \<longrightarrow> func (handlers (msgs hm) ! i) \<noteq> thunk j"
    proof (rule exec_replace_func [OF assms(1,2) fq])
      fix i assume qi: "q = Some i"
      with fq have il: "i < length (probed_table hm msg)" using found_by_bound by blast
      from qi qj have ij: "i \<noteq> j" by simp
      from nj qi il have nt: "probed_table hm msg ! i \<noteq> thunk j" by (simp add: t)
      have wf': "wf_table (probed_table hm msg)" using wf by (simp only: t)
      from call_func_replace_wf [OF wf' il nt, of f' "\<lparr>wparam = wp, lparam = lp\<rparr>" st]
      show "call_func (probed_table (replace_func hm j f') msg)
              (probed_table (replace_func hm j f') msg ! i) \<lparr>wparam = wp, lparam = lp\<rparr> st =
            call_func (probed_table hm msg) (probed_table hm msg ! i)
              \<lparr>wparam = wp, lparam = lp\<rparr> st"
        using ij by (simp add: pt)
    qed
    from f qj qk x o show ?thesis by blast
  qed
  have C: "outcome (exec (replace_func hm j f') msg wp lp st) = outcome (exec hm msg wp lp st)"
    if nt: "list_all (\<lambda>f. f \<noteq> thunk j) (map func (handlers (msgs hm)))"
  proof (cases "msg = WM_COMMAND \<or> msg = WM_NOTIFY")
    case True
    from A [OF True] show ?thesis by simp
  next
    case False
    then have pt: "probed_table (replace_func hm j f') msg = (probed_table hm msg)[j := f']"
      by (simp add: probed_table_replace_func)
    from False have t: "probed_table hm msg = map func (handlers (msgs hm))"
      by (simp add: probed_table_def)
    have nth: "\<And>m. m < length (probed_table hm msg) \<Longrightarrow> probed_table hm msg ! m \<noteq> thunk j"
      using nt unfolding t list_all_length by blast
    show ?thesis
    proof (rule exec_replace_func [OF assms(1,2) r])
      fix i assume ri: "r = Some i"
      with r have il: "i < length (probed_table hm msg)" using found_by_bound by blast
      have "handler_id (handlers (msgs hm) ! i) = msg"
        using r ri False by (auto simp: found_by_def last_registration_def)
      with key False have ij: "i \<noteq> j" by auto
      have "call_func ((probed_table hm msg)[j := f']) (probed_table hm msg ! i)
                \<lparr>wparam = wp, lparam = lp\<rparr> st =
            call_func (probed_table hm msg) (probed_table hm msg ! i)
                \<lparr>wparam = wp, lparam = lp\<rparr> st"
        by (rule call_func_replace) (simp_all add: nth il)
      then show "call_func (probed_table (replace_func hm j f') msg)
              (probed_table (replace_func hm j f') msg ! i) \<lparr>wparam = wp, lparam = lp\<rparr> st =
            call_func (probed_table hm msg) (probed_table hm msg ! i)
              \<lparr>wparam = wp, lparam = lp\<rparr> st"
        using ij by (simp add: pt)
    qed
  qed
  from A B C show ?thesis by blast
qed

text \<open>
  The entry does run when it is the first key of a multi-key registration: after
  \<^verbatim>\<open>on_message({WM_COMMAND, WM_CLOSE}, f)\<close> the callback is stored in the entry keyed
  \<^verbatim>\<open>WM_COMMAND\<close>, and \<^verbatim>\<open>exec\<close> on \<^verbatim>\<open>WM_CLOSE\<close> calls it through the wrapper.
\<close>

theorem generic_entry_for_command_counterexample:
  "map_option (map handler_id \<circ> handlers \<circ> msgs)
     (mh_on_message_list base_msg_handler_new [WM_COMMAND, WM_CLOSE] (user count_calls)) =
     Some [0, WM_UI_THREAD, WM_COMMAND, WM_CLOSE] \<and>
   map_option (map func \<circ> handlers \<circ> msgs)
     (mh_on_message_list base_msg_handler_new [WM_COMMAND, WM_CLOSE] (user count_calls)) =
     Some [nullfn, ui_thread, user count_calls, thunk 2] \<and>
   exec_after (mh_on_message_list base_msg_handler_new [WM_COMMAND, WM_CLOSE] (user count_calls))
     WM_CLOSE 0 0 (process_start 0) =
     Some (Inr (Some 1), (process_start 0)\<lparr>user_state := 1\<rparr>)"
  by (simp add: mh_eval exec_after_def outcome_def exec_def store_find_def
      catch_all_excps_eq call_func_thunk call_func_user count_calls_def process_start_def)

text \<open>
  The instances: the table of the multi-key registration above, where a wrapper points at
  the entry keyed \<^verbatim>\<open>WM_COMMAND\<close>, and the table after \<^verbatim>\<open>on_message(WM_COMMAND, f)\<close> alone.
\<close>

theorem generic_entry_for_command_unreachable_witness:
  "\<exists>hm. mh_on_message_list base_msg_handler_new [WM_COMMAND, WM_CLOSE] (user count_calls) = Some hm \<and>
     tables_present hm \<and> 2 < length (handlers (msgs hm)) \<and>
     handler_id (handlers (msgs hm) ! 2) = WM_COMMAND \<and>
     \<not> list_all (\<lambda>f. f \<noteq> thunk 2) (map func (handlers (msgs hm))) \<and>
     wf_table (map func (handlers (msgs hm))) \<and>
     map_option fst (store_find (msgs hm) WM_CLOSE) = Some (Some 3) \<and>
     (\<exists>r s'. store_find (msgs hm) WM_CLOSE = Some (r, s') \<and> r \<noteq> Some 2 \<and>
        exec hm WM_CLOSE 0 0 (process_start 0) =
          dispatch (map func (handlers (msgs hm))) r (hm\<lparr>msgs := s'\<rparr>) 0 0 (process_start 0)) \<and>
     outcome (exec (replace_func hm 2 nullfn) WM_COMMAND 0 0 (process_start 0)) =
       outcome (exec hm WM_COMMAND 0 0 (process_start 0)) \<and>
     outcome (exec hm WM_COMMAND 0 0 (process_start 0)) = Some (Inr None, process_start 0) \<and>
     outcome (exec (replace_func hm 2 nullfn) WM_UI_THREAD 0 0 (process_start 0)) =
       outcome (exec hm WM_UI_THREAD 0 0 (process_start 0)) \<and>
     list_all (\<lambda>f. f \<noteq> thunk 2)
       (map func (handlers (msgs (mh_on_message base_msg_handler_new WM_COMMAND (user count_calls))))) \<and>
     outcome (exec (replace_func (mh_on_message base_msg_handler_new WM_COMMAND (user count_calls))
                2 nullfn) WM_CLOSE 0 0 (process_start 0)) =
       outcome (exec (mh_on_message base_msg_handler_new WM_COMMAND (user count_calls))
                WM_CLOSE 0 0 (process_start 0)) \<and>
     outcome (exec (mh_on_message base_msg_handler_new WM_COMMAND (user count_calls))
                WM_CLOSE 0 0 (process_start 0)) = Some (Inr None, process_start 0)"
proof -
  have "\<exists>hm :: nat base_msg_handler.
          mh_on_message_list base_msg_handler_new [WM_COMMAND, WM_CLOSE] (user count_calls) = Some hm"
    by (simp add: mh_on_message_list_def store_add_list_def Let_def)
  then obtain hm :: "nat base_msg_handler"
    where h: "mh_on_message_list base_msg_handler_new [WM_COMMAND, WM_CLOSE] (user count_calls) = Some hm"
    ..
  define nm where "nm = \<lparr>hwndFrom = 0, idFrom = 0, code = 0\<rparr>"
  define st0 :: "nat process" where "st0 = process_start 0"
  from h have ms: "handlers (msgs hm) =
      [\<lparr>handler_id = 0, func = nullfn\<rparr>, \<lparr>handler_id = WM_UI_THREAD, func = ui_thread\<rparr>,
       \<lparr>handler_id = WM_COMMAND, func = user count_calls\<rparr>,
       \<lparr>handler_id = WM_CLOSE, func = thunk 2\<rparr>]"
    and cs: "handlers (cmds hm) = [\<lparr>handler_id = 0, func = nullfn\<rparr>]"
    and ns: "handlers (nfys hm) = [\<lparr>handler_id = (0, 0), func = nullfn\<rparr>]"
    by (auto simp: mh_on_message_list_def mh_on_message_def base_msg_handler_new_def
        store_new_def store_add_def store_add_list_def WM_COMMAND_def WM_CLOSE_def)
  have t: "tables_present hm" by (simp add: tables_present_def ms cs ns)
  have j: "2 < length (handlers (msgs hm))" by (simp add: ms)
  have k: "handler_id (handlers (msgs hm) ! 2) = WM_COMMAND" by (simp add: ms)
  then have k': "handler_id (handlers (msgs hm) ! 2) = WM_COMMAND \<or>
                 handler_id (handlers (msgs hm) ! 2) = WM_NOTIFY" by simp
  have n: "\<not> list_all (\<lambda>f. f \<noteq> thunk 2) (map func (handlers (msgs hm)))" by (simp add: ms)
  have w: "wf_table (map func (handlers (msgs hm)))" by (simp add: ms wf_table_def)
  have f3: "map_option fst (store_find (msgs hm) WM_CLOSE) = Some (Some 3)"
    by (simp add: store_find_def ms WM_CLOSE_def WM_COMMAND_def WM_UI_THREAD_def WM_APP_def)
  have c1: "WM_CLOSE = WM_NOTIFY \<longrightarrow> notify_headers st0 0 = Some nm"
    by (simp add: WM_CLOSE_def WM_NOTIFY_def)
  have c2: "WM_COMMAND = WM_NOTIFY \<longrightarrow> notify_headers st0 0 = Some nm"
    by (simp add: WM_COMMAND_def WM_NOTIFY_def)
  have c3: "WM_UI_THREAD = WM_NOTIFY \<longrightarrow> notify_headers st0 0 = Some nm"
    by (simp add: WM_UI_THREAD_def WM_APP_def WM_NOTIFY_def)
  have d1: "WM_CLOSE \<noteq> WM_COMMAND \<and> WM_CLOSE \<noteq> WM_NOTIFY"
    by (simp add: WM_CLOSE_def WM_COMMAND_def WM_NOTIFY_def)
  have d3: "WM_UI_THREAD \<noteq> WM_COMMAND \<and> WM_UI_THREAD \<noteq> WM_NOTIFY"
    by (simp add: WM_UI_THREAD_def WM_APP_def WM_COMMAND_def WM_NOTIFY_def)
  from generic_entry_for_command_unreachable [OF t c1 j k', where wp = 0 and f' = nullfn,
      THEN conjunct2, THEN conjunct1, THEN mp, OF d1]
  have i1: "\<exists>r s'. store_find (msgs hm) WM_CLOSE = Some (r, s') \<and> r \<noteq> Some 2 \<and>
        exec hm WM_CLOSE 0 0 st0 =
          dispatch (map func (handlers (msgs hm))) r (hm\<lparr>msgs := s'\<rparr>) 0 0 st0"
    by blast
  from generic_entry_for_command_unreachable [OF t c2 j k', where wp = 0 and f' = nullfn,
      THEN conjunct1]
  have i2: "outcome (exec (replace_func hm 2 nullfn) WM_COMMAND 0 0 st0) =
            outcome (exec hm WM_COMMAND 0 0 st0)"
    by simp
  have i2': "outcome (exec hm WM_COMMAND 0 0 st0) = Some (Inr None, st0)"
    by (simp add: outcome_def exec_def store_find_def cs LOWORD_def)
  from generic_entry_for_command_unreachable [OF t c3 j k', where wp = 0 and f' = nullfn,
      THEN conjunct2, THEN conjunct1, THEN mp, OF d3]
  obtain r s' where f: "store_find (msgs hm) WM_UI_THREAD = Some (r, s')"
    and o: "wf_table (map func (handlers (msgs hm))) \<and>
            (\<forall>i. r = Some i \<longrightarrow> func (handlers (msgs hm) ! i) \<noteq> thunk 2) \<longrightarrow>
              outcome (exec (replace_func hm 2 nullfn) WM_UI_THREAD 0 0 st0) =
              outcome (exec hm WM_UI_THREAD 0 0 st0)"
    by blast
  have "map_option fst (store_find (msgs hm) WM_UI_THREAD) = Some (Some 1)"
    by (simp add: store_find_def ms WM_CLOSE_def WM_COMMAND_def WM_UI_THREAD_def WM_APP_def)
  with f have "r = Some 1" by simp
  with o w have i3: "outcome (exec (replace_func hm 2 nullfn) WM_UI_THREAD 0 0 st0) =
              outcome (exec hm WM_UI_THREAD 0 0 st0)"
    by (simp add: ms)
  define hm1 :: "nat base_msg_handler"
    where "hm1 = mh_on_message base_msg_handler_new WM_COMMAND (user count_calls)"
  have t1: "tables_present hm1" by (simp add: tables_present_def hm1_def mh_eval)
  have j1: "2 < length (handlers (msgs hm1))" by (simp add: hm1_def mh_eval)
  have k1: "handler_id (handlers (msgs hm1) ! 2) = WM_COMMAND \<or>
            handler_id (handlers (msgs hm1) ! 2) = WM_NOTIFY" by (simp add: hm1_def mh_eval)
  have n1: "list_all (\<lambda>f. f \<noteq> thunk 2) (map func (handlers (msgs hm1)))"
    by (simp add: hm1_def mh_eval)
  from generic_entry_for_command_unreachable [OF t1 c1 j1 k1, where wp = 0 and f' = nullfn,
      THEN conjunct2, THEN conjunct2, THEN mp, OF n1]
  have i4: "outcome (exec (replace_func hm1 2 nullfn) WM_CLOSE 0 0 st0) =
            outcome (exec hm1 WM_CLOSE 0 0 st0)" .
  have i4': "outcome (exec hm1 WM_CLOSE 0 0 st0) = Some (Inr None, st0)"
    by (simp add: hm1_def mh_eval outcome_def exec_def store_find_def)
  from h t j k n w f3 i1 i2 i2' i3 n1 i4 i4' show ?thesis unfolding st0_def hm1_def by blast
qed

section \<open>Properties of windows and dialogs\<close>

lemma same_objects_refl: "same_objects st st"
  by (simp add: same_objects_def)

lemma same_objects_log: "same_objects st (log_call c st)"
  by (simp add: same_objects_def log_call_def)

lemma same_objects_trans: "same_objects a b \<Longrightarrow> same_objects b c \<Longrightarrow> same_objects a c"
  by (simp add: same_objects_def)

lemma ui_thread_handler_frame:
  "ui_thread_handler p st = Some (r, st') \<Longrightarrow> same_objects st st'"
  unfolding ui_thread_handler_def
  by (auto simp: catch_all_excps_eq same_objects_def log_call_def
      split: if_splits option.splits sum.splits prod.splits)

lemma call_func_frame:
  assumes "call_func t f p st = Some y"
  shows "same_objects st (snd y)"
  using assms
proof (induction t f p st y rule: call_func.raw_induct [rotated, consumes 1])
  case (1 cf table f p st y)
  show ?case
  proof (cases f)
    case nullfn
    with 1(2) show ?thesis by (auto simp: same_objects_def)
  next
    case (user g)
    with 1(2) show ?thesis by (auto simp: same_objects_def split: prod.splits)
  next
    case (thunk n)
    with 1(2) have "cf table (table ! n) p st = Some y" by (simp split: if_splits)
    then show ?thesis by (rule 1(1))
  next
    case ui_thread
    with 1(2) show ?thesis using ui_thread_handler_frame [of p st "fst y" "snd y"] by simp
  qed
qed

lemma dispatch_frame:
  "dispatch table r hm' wp lp st = Some (res, hm2, st') \<Longrightarrow> same_objects st st'"
  unfolding dispatch_def faulted_def
  by (auto split: option.splits sum.splits prod.splits dest!: call_func_frame
      simp: same_objects_def log_call_def)

lemma exec_returns:
  assumes "tables_present hm" "msg = WM_NOTIFY \<longrightarrow> notify_headers st lp = Some nmhdr"
    and "wf_table (probed_table hm msg)" "pack_ok wp lp st"
  shows "\<exists>ret st1. exec hm msg wp lp st = Some (Inr ret, after_probe hm msg wp nmhdr, st1) \<and>
           same_objects st st1"
proof -
  from exec_dispatch [OF assms(1,2), of wp]
  obtain r where r: "found_by hm msg wp nmhdr r"
    and e: "exec hm msg wp lp st =
              dispatch (probed_table hm msg) r (after_probe hm msg wp nmhdr) wp lp st"
    by blast
  have "\<exists>ret st1. dispatch (probed_table hm msg) r (after_probe hm msg wp nmhdr) wp lp st =
          Some (Inr ret, after_probe hm msg wp nmhdr, st1)"
  proof (cases r)
    case None
    then show ?thesis by (simp add: dispatch_def)
  next
    case (Some i)
    with r have "i < length (probed_table hm msg)" using found_by_bound by blast
    from call_func_total [OF assms(3) this, of "\<lparr>wparam = wp, lparam = lp\<rparr>" st] assms(4)
    obtain cr st1 where "call_func (probed_table hm msg) (probed_table hm msg ! i)
                  \<lparr>wparam = wp, lparam = lp\<rparr> st = Some (cr, st1)" by auto
    with Some show ?thesis by (cases cr) (simp_all add: dispatch_def)
  qed
  then obtain ret st1 where d: "dispatch (probed_table hm msg) r (after_probe hm msg wp nmhdr) wp lp st =
          Some (Inr ret, after_probe hm msg wp nmhdr, st1)" by blast
  from dispatch_frame [OF d] d e show ?thesis by simp
qed

lemma window_proc_no_owner:
  assumes "msg \<noteq> WM_NCCREATE" "GetWindowLongPtrW hWnd GWLP_USERDATA st = 0"
  shows "window_proc dwp hWnd msg wp lp st =
           Some (Inr (dwp hWnd msg wp lp), log_call (DefWindowProcW hWnd msg wp lp) st)"
  using assms unfolding window_proc_def by simp

lemma dialog_proc_no_owner:
  assumes "msg \<noteq> WM_INITDIALOG" "GetWindowLongPtrW hWnd DWLP_USER st = 0"
  shows "dialog_proc sf hWnd msg wp lp st = Some (Inr 0, st)"
  using assms unfolding dialog_proc_def by simp

lemma window_proc_owner:
  assumes "msg \<noteq> WM_NCCREATE" "GetWindowLongPtrW hWnd GWLP_USERDATA st = w"
    "deref (windows st) w = Some self"
    "exec (wnd_msgHandler self) msg wp lp st = Some (Inr ret, hm', st1)"
  shows "window_proc dwp hWnd msg wp lp st =
     (let self2 = self\<lparr>wnd_msgHandler := hm'\<rparr>;
          st3 = st1\<lparr>windows := (windows st1)(w \<mapsto> self2)\<rparr>;
          st4 = (if msg = WM_NCDESTROY then
                   (SetWindowLongPtrW hWnd GWLP_USERDATA 0 st3)
                     \<lparr>windows := (windows st3)(w \<mapsto> self2\<lparr>wnd_hWnd := 0\<rparr>)\<rparr>
                 else st3)
      in case ret of
           Some v \<Rightarrow> Some (Inr v, st4)
         | None \<Rightarrow> Some (Inr (dwp hWnd msg wp lp), log_call (DefWindowProcW hWnd msg wp lp) st4))"
proof -
  have w0: "w \<noteq> 0" using assms(3) by (auto simp: deref_def split: if_splits)
  show ?thesis
    using assms w0 unfolding window_proc_def
    by (cases ret) (simp_all add: Let_def SetWindowLongPtrW_def)
qed

lemma dialog_proc_owner:
  assumes "msg \<noteq> WM_INITDIALOG" "GetWindowLongPtrW hWnd DWLP_USER st = d"
    "deref (dialogs st) d = Some self"
    "exec (dlg_msgHandler self) msg wp lp st = Some (Inr ret, hm', st1)"
  shows "dialog_proc sf hWnd msg wp lp st =
     (let self2 = self\<lparr>dlg_msgHandler := hm'\<rparr>;
          st3 = st1\<lparr>dialogs := (dialogs st1)(d \<mapsto> self2)\<rparr>;
          st4 = (if msg = WM_NCDESTROY then
                   (SetWindowLongPtrW hWnd DWLP_USER 0 st3)
                     \<lparr>dialogs := (dialogs st3)(d \<mapsto> self2\<lparr>dlg_hWnd := 0\<rparr>)\<rparr>
                 else st3)
      in case ret of
           Some v \<Rightarrow> Some (Inr v, st4)
         | None \<Rightarrow> Some (Inr 0, st4))"
proof -
  have d0: "d \<noteq> 0" using assms(3) by (auto simp: deref_def split: if_splits)
  show ?thesis
    using assms d0 unfolding dialog_proc_def
    by (cases ret) (simp_all add: Let_def SetWindowLongPtrW_def)
qed

lemma exec_ready:
  assumes "handler_ready hm msg wp lp st" "msg \<noteq> WM_NOTIFY"
  shows "\<exists>ret hm' st1. exec hm msg wp lp st = Some (Inr ret, hm', st1) \<and> same_objects st st1"
proof -
  have n: "msg = WM_NOTIFY \<longrightarrow> notify_headers st lp = Some \<lparr>hwndFrom = 0, idFrom = 0, code = 0\<rparr>"
    using assms(2) by simp
  from assms(1) have "tables_present hm" "wf_table (probed_table hm msg)" "pack_ok wp lp st"
    by (simp_all add: handler_ready_def)
  from exec_returns [OF this(1) n this(2,3)] show ?thesis by blast
qed

lemma WM_NCDESTROY_distinct:
  "WM_NCDESTROY \<noteq> WM_NOTIFY" "WM_NCDESTROY \<noteq> WM_NCCREATE" "WM_NCDESTROY \<noteq> WM_INITDIALOG"
  by (simp_all add: WM_NCDESTROY_def WM_NOTIFY_def WM_NCCREATE_def WM_INITDIALOG_def)

lemma window_teardown:
  assumes o: "window_owner st hWnd w self"
    and r: "handler_ready (wnd_msgHandler self) WM_NCDESTROY wp lp st"
  shows "\<exists>ret hm' st1 st'.
     exec (wnd_msgHandler self) WM_NCDESTROY wp lp st = Some (Inr ret, hm', st1) \<and>
     window_proc dwp hWnd WM_NCDESTROY wp lp st =
       Some (Inr (case ret of Some v \<Rightarrow> v | None \<Rightarrow> dwp hWnd WM_NCDESTROY wp lp), st') \<and>
     user_state st' = user_state st1 \<and>
     GetWindowLongPtrW hWnd GWLP_USERDATA st' = 0 \<and>
     windows st' = (windows st)(w \<mapsto> self\<lparr>wnd_msgHandler := hm', wnd_hWnd := 0\<rparr>) \<and>
     (\<forall>msg wp2 lp2. msg \<noteq> WM_NCCREATE \<longrightarrow>
        window_proc dwp hWnd msg wp2 lp2 st' =
          Some (Inr (dwp hWnd msg wp2 lp2), log_call (DefWindowProcW hWnd msg wp2 lp2) st')) \<and>
     (\<forall>m f. \<exists>st2. wnd_on_message w m f st' = Some (Inr (), st2)) \<and>
     (\<forall>os. create_window os w st' =
        (case os w st' of
           None \<Rightarrow> None
         | Some ((h, lerr), st2) \<Rightarrow>
             if h = 0 then Some (Inl (system_error lerr), st2) else Some (Inr h, st2)))"
proof -
  from o have slot: "GetWindowLongPtrW hWnd GWLP_USERDATA st = w"
    and obj: "deref (windows st) w = Some self" by (simp_all add: window_owner_def)
  have w0: "w \<noteq> 0" using obj by (auto simp: deref_def split: if_splits)
  from exec_ready [OF r WM_NCDESTROY_distinct(1)]
  obtain ret hm' st1 where e: "exec (wnd_msgHandler self) WM_NCDESTROY wp lp st = Some (Inr ret, hm', st1)"
    and so: "same_objects st st1" by blast
  define self0 where "self0 = self\<lparr>wnd_msgHandler := hm', wnd_hWnd := 0\<rparr>"
  define st4 where "st4 = (SetWindowLongPtrW hWnd GWLP_USERDATA 0
                       (st1\<lparr>windows := (windows st1)(w \<mapsto> self\<lparr>wnd_msgHandler := hm'\<rparr>)\<rparr>))
                     \<lparr>windows := (windows st1)(w \<mapsto> self0)\<rparr>"
  define st' where "st' = (case ret of Some v \<Rightarrow> st4
                            | None \<Rightarrow> log_call (DefWindowProcW hWnd WM_NCDESTROY wp lp) st4)"
  have p: "window_proc dwp hWnd WM_NCDESTROY wp lp st =
       Some (Inr (case ret of Some v \<Rightarrow> v | None \<Rightarrow> dwp hWnd WM_NCDESTROY wp lp), st')"
    unfolding window_proc_owner [OF WM_NCDESTROY_distinct(2) slot obj e]
    by (cases ret) (simp_all add: st'_def st4_def self0_def Let_def)
  have u: "user_state st' = user_state st1"
    by (cases ret) (simp_all add: st'_def st4_def SetWindowLongPtrW_def log_call_def)
  have s0: "GetWindowLongPtrW hWnd GWLP_USERDATA st' = 0"
    by (cases ret)
      (simp_all add: st'_def st4_def SetWindowLongPtrW_def GetWindowLongPtrW_def log_call_def)
  have ws: "windows st' = (windows st)(w \<mapsto> self0)"
    using so by (cases ret)
      (simp_all add: st'_def st4_def SetWindowLongPtrW_def log_call_def same_objects_def)
  have later: "\<forall>msg wp2 lp2. msg \<noteq> WM_NCCREATE \<longrightarrow>
        window_proc dwp hWnd msg wp2 lp2 st' =
          Some (Inr (dwp hWnd msg wp2 lp2), log_call (DefWindowProcW hWnd msg wp2 lp2) st')"
    using window_proc_no_owner [OF _ s0] by blast
  have d: "deref (windows st') w = Some self0" using w0 by (simp add: deref_def ws)
  have reg: "\<forall>m f. \<exists>st2. wnd_on_message w m f st' = Some (Inr (), st2)"
    by (simp add: wnd_on_message_def wnd_register_def d self0_def)
  have cr: "\<forall>os. create_window os w st' =
        (case os w st' of
           None \<Rightarrow> None
         | Some ((h, lerr), st2) \<Rightarrow>
             if h = 0 then Some (Inl (system_error lerr), st2) else Some (Inr h, st2))"
    by (simp add: create_window_def d self0_def)
  from e p u s0 ws later reg cr show ?thesis unfolding self0_def by blast
qed

lemma dialog_teardown:
  assumes o: "dialog_owner st hWnd d self"
    and r: "handler_ready (dlg_msgHandler self) WM_NCDESTROY wp lp st"
  shows "\<exists>ret hm' st1 st'.
     exec (dlg_msgHandler self) WM_NCDESTROY wp lp st = Some (Inr ret, hm', st1) \<and>
     dialog_proc sf hWnd WM_NCDESTROY wp lp st =
       Some (Inr (case ret of Some v \<Rightarrow> v | None \<Rightarrow> 0), st') \<and>
     user_state st' = user_state st1 \<and>
     GetWindowLongPtrW hWnd DWLP_USER st' = 0 \<and>
     dialogs st' = (dialogs st)(d \<mapsto> self\<lparr>dlg_msgHandler := hm', dlg_hWnd := 0\<rparr>) \<and>
     (\<forall>msg wp2 lp2. msg \<noteq> WM_INITDIALOG \<longrightarrow>
        dialog_proc sf hWnd msg wp2 lp2 st' = Some (Inr 0, st')) \<and>
     (\<forall>m f. \<exists>st2. dlg_on_message d m f st' = Some (Inr (), st2)) \<and>
     (\<forall>os dialogId. dialogId \<noteq> 0 \<longrightarrow> create_dialog_param os d dialogId st' =
        (case os d dialogId st' of
           None \<Rightarrow> None
         | Some ((h, lerr), st2) \<Rightarrow>
             if h = 0 then Some (Inl (system_error lerr), st2) else Some (Inr h, st2)))"
proof -
  from o have slot: "GetWindowLongPtrW hWnd DWLP_USER st = d"
    and obj: "deref (dialogs st) d = Some self" by (simp_all add: dialog_owner_def)
  have d0: "d \<noteq> 0" using obj by (auto simp: deref_def split: if_splits)
  from exec_ready [OF r WM_NCDESTROY_distinct(1)]
  obtain ret hm' st1 where e: "exec (dlg_msgHandler self) WM_NCDESTROY wp lp st = Some (Inr ret, hm', st1)"
    and so: "same_objects st st1" by blast
  define self0 where "self0 = self\<lparr>dlg_msgHandler := hm', dlg_hWnd := 0\<rparr>"
  define st' where "st' = (SetWindowLongPtrW hWnd DWLP_USER 0
                       (st1\<lparr>dialogs := (dialogs st1)(d \<mapsto> self\<lparr>dlg_msgHandler := hm'\<rparr>)\<rparr>))
                     \<lparr>dialogs := (dialogs st1)(d \<mapsto> self0)\<rparr>"
  have p: "dialog_proc sf hWnd WM_NCDESTROY wp lp st =
       Some (Inr (case ret of Some v \<Rightarrow> v | None \<Rightarrow> 0), st')"
    unfolding dialog_proc_owner [OF WM_NCDESTROY_distinct(3) slot obj e]
    by (cases ret) (simp_all add: st'_def self0_def Let_def)
  have u: "user_state st' = user_state st1"
    by (simp add: st'_def SetWindowLongPtrW_def)
  have s0: "GetWindowLongPtrW hWnd DWLP_USER st' = 0"
    by (simp add: st'_def SetWindowLongPtrW_def GetWindowLongPtrW_def)
  have ws: "dialogs st' = (dialogs st)(d \<mapsto> self0)"
    using so by (simp add: st'_def SetWindowLongPtrW_def same_objects_def)
  have later: "\<forall>msg wp2 lp2. msg \<noteq> WM_INITDIALOG \<longrightarrow>
        dialog_proc sf hWnd msg wp2 lp2 st' = Some (Inr 0, st')"
    using dialog_proc_no_owner [OF _ s0] by blast
  have dd: "deref (dialogs st') d = Some self0" using d0 by (simp add: deref_def ws)
  have reg: "\<forall>m f. \<exists>st2. dlg_on_message d m f st' = Some (Inr (), st2)"
    by (simp add: dlg_on_message_def dlg_register_def dd self0_def)
  have cr: "\<forall>os dialogId. dialogId \<noteq> 0 \<longrightarrow> create_dialog_param os d dialogId st' =
        (case os d dialogId st' of
           None \<Rightarrow> None
         | Some ((h, lerr), st2) \<Rightarrow>
             if h = 0 then Some (Inl (system_error lerr), st2) else Some (Inr h, st2))"
    by (simp add: create_dialog_param_def creation_checks_def dd self0_def)
  from e p u s0 ws later reg cr show ?thesis unfolding self0_def by blast
qed

lemmas wnd_eval = new_window_def process_start_def sim_CreateWindowExW_def create_window_def
  window_proc_def deref_def SetWindowLongPtrW_def GetWindowLongPtrW_def def_proc_one_def
  log_call_def wnd_on_message_def wnd_register_def
  exec_def store_find_def mh_on_message_def base_msg_handler_new_def store_new_def store_add_def
  WM_CLOSE_def WM_COMMAND_def WM_NOTIFY_def WM_UI_THREAD_def WM_APP_def WM_NCCREATE_def
  WM_NCDESTROY_def

lemma exec_frame:
  assumes "exec hm msg wp lp st = Some (r, hm', st')"
  shows "same_objects st st'"
proof -
  from assms have "\<exists>userFunc table hm1.
      dispatch table userFunc hm1 wp lp st = Some (r, hm', st')"
    unfolding exec_def
    by (simp only: exec_tail split: option.splits prod.splits) auto
  then show ?thesis using dispatch_frame by blast
qed

lemma window_proc_other_slot:
  assumes "window_proc dwp h m wp lp st = Some (r, st')" "key \<noteq> (h, GWLP_USERDATA)"
  shows "window_long st' key = window_long st key"
  using assms unfolding window_proc_def
  by (auto simp: Let_def SetWindowLongPtrW_def GetWindowLongPtrW_def log_call_def same_objects_def
      split: option.splits if_splits sum.splits prod.splits dest!: exec_frame)

lemma dialog_proc_other_slot:
  assumes "dialog_proc sf h m wp lp st = Some (r, st')" "key \<noteq> (h, DWLP_USER)" "keeps_slots sf"
  shows "window_long st' key = window_long st key"
  using assms unfolding dialog_proc_def keeps_slots_def
  by (auto simp: Let_def SetWindowLongPtrW_def GetWindowLongPtrW_def log_call_def same_objects_def
      split: option.splits if_splits sum.splits prod.splits dest!: exec_frame)

lemma proc_call_keeps_window_cleared:
  assumes "proc_call_run dwp sf c st = Some (r, st1)" "keeps_slots sf"
    and "window_long st (hWnd, GWLP_USERDATA) = 0"
    and "\<forall>wp lp. c \<noteq> ToWindow hWnd WM_NCCREATE wp lp"
  shows "window_long st1 (hWnd, GWLP_USERDATA) = 0"
proof (cases c)
  case (ToWindow h m wp lp)
  with assms(1) have p: "window_proc dwp h m wp lp st = Some (r, st1)" by simp
  show ?thesis
  proof (cases "h = hWnd")
    case True
    with assms(4) ToWindow have "m \<noteq> WM_NCCREATE" by simp
    from window_proc_no_owner [OF this, of hWnd st dwp wp lp] assms(3) p True
    show ?thesis by (auto simp: GetWindowLongPtrW_def log_call_def)
  next
    case False
    then have "(hWnd, GWLP_USERDATA) \<noteq> (h, GWLP_USERDATA)" by simp
    from window_proc_other_slot [OF p this] assms(3) show ?thesis by simp
  qed
next
  case (ToDialog h m wp lp)
  with assms(1) have p: "dialog_proc sf h m wp lp st = Some (r, st1)" by simp
  have "(hWnd, GWLP_USERDATA) \<noteq> (h, DWLP_USER)" by simp
  from dialog_proc_other_slot [OF p this assms(2)] assms(3) show ?thesis by simp
qed

lemma proc_call_keeps_dialog_cleared:
  assumes "proc_call_run dwp sf c st = Some (r, st1)" "keeps_slots sf"
    and "window_long st (hDlg, DWLP_USER) = 0"
    and "\<forall>wp lp. c \<noteq> ToDialog hDlg WM_INITDIALOG wp lp"
  shows "window_long st1 (hDlg, DWLP_USER) = 0"
proof (cases c)
  case (ToDialog h m wp lp)
  with assms(1) have p: "dialog_proc sf h m wp lp st = Some (r, st1)" by simp
  show ?thesis
  proof (cases "h = hDlg")
    case True
    with assms(4) ToDialog have "m \<noteq> WM_INITDIALOG" by simp
    from dialog_proc_no_owner [OF this, of hDlg st sf wp lp] assms(3) p True
    show ?thesis by (auto simp: GetWindowLongPtrW_def)
  next
    case False
    then have "(hDlg, DWLP_USER) \<noteq> (h, DWLP_USER)" by simp
    from dialog_proc_other_slot [OF p this assms(2)] assms(3) show ?thesis by simp
  qed
next
  case (ToWindow h m wp lp)
  with assms(1) have p: "window_proc dwp h m wp lp st = Some (r, st1)" by simp
  have "(hDlg, DWLP_USER) \<noteq> (h, GWLP_USERDATA)" by simp
  from window_proc_other_slot [OF p this] assms(3) show ?thesis by simp
qed

lemma window_cleared_run:
  assumes "proc_calls dwp sf cs st = Some outs" "keeps_slots sf"
    and "window_long st (hWnd, GWLP_USERDATA) = 0"
    and "\<forall>wp lp. ToWindow hWnd WM_NCCREATE wp lp \<notin> set cs"
    and "k < length cs" "cs ! k = ToWindow hWnd m wp2 lp2"
  shows "outs ! k = (Inr (dwp hWnd m wp2 lp2),
                     log_call (DefWindowProcW hWnd m wp2 lp2) ((st # map snd outs) ! k))"
  using assms
proof (induction cs arbitrary: st outs k)
  case Nil
  then show ?case by simp
next
  case (Cons c cs)
  from Cons.prems(1) obtain r st1 outs1 where c: "proc_call_run dwp sf c st = Some (r, st1)"
    and rest: "proc_calls dwp sf cs st1 = Some outs1" and o: "outs = (r, st1) # outs1"
    by (auto split: option.splits)
  from Cons.prems(4) have nc: "\<forall>wp lp. c \<noteq> ToWindow hWnd WM_NCCREATE wp lp"
    and ncs: "\<forall>wp lp. ToWindow hWnd WM_NCCREATE wp lp \<notin> set cs" by auto
  show ?case
  proof (cases k)
    case 0
    with Cons.prems(6) have ck: "c = ToWindow hWnd m wp2 lp2" by simp
    with nc have "m \<noteq> WM_NCCREATE" by simp
    from window_proc_no_owner [OF this, of hWnd st dwp wp2 lp2] Cons.prems(3) c ck
    have "r = Inr (dwp hWnd m wp2 lp2)" "st1 = log_call (DefWindowProcW hWnd m wp2 lp2) st"
      by (simp_all add: GetWindowLongPtrW_def)
    with 0 o show ?thesis by simp
  next
    case (Suc k')
    from proc_call_keeps_window_cleared [OF c Cons.prems(2,3) nc]
    have z: "window_long st1 (hWnd, GWLP_USERDATA) = 0" .
    from Suc Cons.prems(5,6) have kl: "k' < length cs" and ck: "cs ! k' = ToWindow hWnd m wp2 lp2"
      by simp_all
    from Cons.IH [OF rest Cons.prems(2) z ncs kl ck] Suc o show ?thesis by simp
  qed
qed

lemma dialog_cleared_run:
  assumes "proc_calls dwp sf cs st = Some outs" "keeps_slots sf"
    and "window_long st (hDlg, DWLP_USER) = 0"
    and "\<forall>wp lp. ToDialog hDlg WM_INITDIALOG wp lp \<notin> set cs"
    and "k < length cs" "cs ! k = ToDialog hDlg m wp2 lp2"
  shows "outs ! k = (Inr 0, (st # map snd outs) ! k)"
  using assms
proof (induction cs arbitrary: st outs k)
  case Nil
  then show ?case by simp
next
  case (Cons c cs)
  from Cons.prems(1) obtain r st1 outs1 where c: "proc_call_run dwp sf c st = Some (r, st1)"
    and rest: "proc_calls dwp sf cs st1 = Some outs1" and o: "outs = (r, st1) # outs1"
    by (auto split: option.splits)
  from Cons.prems(4) have nc: "\<forall>wp lp. c \<noteq> ToDialog hDlg WM_INITDIALOG wp lp"
    and ncs: "\<forall>wp lp. ToDialog hDlg WM_INITDIALOG wp lp \<notin> set cs" by auto
  show ?case
  proof (cases k)
    case 0
    with Cons.prems(6) have ck: "c = ToDialog hDlg m wp2 lp2" by simp
    with nc have "m \<noteq> WM_INITDIALOG" by simp
    from dialog_proc_no_owner [OF this, of hDlg st sf wp2 lp2] Cons.prems(3) c ck
    have "r = Inr 0" "st1 = st" by (simp_all add: GetWindowLongPtrW_def)
    with 0 o show ?thesis by simp
  next
    case (Suc k')
    from proc_call_keeps_dialog_cleared [OF c Cons.prems(2,3) nc]
    have z: "window_long st1 (hDlg, DWLP_USER) = 0" .
    from Suc Cons.prems(5,6) have kl: "k' < length cs" and ck: "cs ! k' = ToDialog hDlg m wp2 lp2"
      by simp_all
    from Cons.IH [OF rest Cons.prems(2) z ncs kl ck] Suc o show ?thesis by simp
  qed
qed

lemma window_cleared_total:
  assumes "window_long st (hWnd, GWLP_USERDATA) = 0"
    and "list_all (\<lambda>c. fst c \<noteq> WM_NCCREATE) ms"
  shows "\<exists>outs. proc_calls dwp sf (map (\<lambda>(m, wp, lp). ToWindow hWnd m wp lp) ms) st = Some outs"
  using assms
proof (induction ms arbitrary: st)
  case Nil
  then show ?case by simp
next
  case (Cons a ms)
  obtain m wp lp where a: "a = (m, wp, lp)" by (cases a)
  with Cons.prems(2) have m: "m \<noteq> WM_NCCREATE" and r: "list_all (\<lambda>c. fst c \<noteq> WM_NCCREATE) ms"
    by simp_all
  from window_proc_no_owner [OF m, of hWnd st dwp wp lp] Cons.prems(1)
  have p: "window_proc dwp hWnd m wp lp st =
             Some (Inr (dwp hWnd m wp lp), log_call (DefWindowProcW hWnd m wp lp) st)"
    by (simp add: GetWindowLongPtrW_def)
  have "window_long (log_call (DefWindowProcW hWnd m wp lp) st) (hWnd, GWLP_USERDATA) = 0"
    using Cons.prems(1) by (simp add: log_call_def)
  from Cons.IH [OF this r] obtain outs where
    "proc_calls dwp sf (map (\<lambda>(m, wp, lp). ToWindow hWnd m wp lp) ms)
       (log_call (DefWindowProcW hWnd m wp lp) st) = Some outs" ..
  with p a show ?case by simp
qed

lemma dialog_cleared_total:
  assumes "window_long st (hDlg, DWLP_USER) = 0"
    and "list_all (\<lambda>c. fst c \<noteq> WM_INITDIALOG) ms"
  shows "\<exists>outs. proc_calls dwp sf (map (\<lambda>(m, wp, lp). ToDialog hDlg m wp lp) ms) st = Some outs"
  using assms
proof (induction ms arbitrary: st)
  case Nil
  then show ?case by simp
next
  case (Cons a ms)
  obtain m wp lp where a: "a = (m, wp, lp)" by (cases a)
  with Cons.prems(2) have m: "m \<noteq> WM_INITDIALOG"
    and r: "list_all (\<lambda>c. fst c \<noteq> WM_INITDIALOG) ms"
    by simp_all
  from dialog_proc_no_owner [OF m, of hDlg st sf wp lp] Cons.prems(1)
  have p: "dialog_proc sf hDlg m wp lp st = Some (Inr 0, st)"
    by (simp add: GetWindowLongPtrW_def)
  from Cons.IH [OF Cons.prems(1) r] obtain outs where
    "proc_calls dwp sf (map (\<lambda>(m, wp, lp). ToDialog hDlg m wp lp) ms) st = Some outs" ..
  with p a show ?case by simp
qed

lemma proc_calls_length:
  "proc_calls dwp sf cs st = Some outs \<Longrightarrow> length outs = length cs"
  by (induction cs arbitrary: st outs) (auto split: option.splits)

lemma two_elems: "length xs = 2 \<Longrightarrow> xs = [xs ! 0, xs ! 1]"
proof -
  assume "length xs = 2"
  then obtain a b where "xs = [a, b]"
    by (metis One_nat_def Suc_1 length_0_conv length_Suc_conv)
  then show ?thesis by simp
qed

text \<open>
  Claim C3, as the code has it. When the procedure of a live window or dialog processes
  \<^verbatim>\<open>WM_NCDESTROY\<close>, the handler of that message is dispatched first, on the process in
  which the owner is still in the slot of the handle and the handle field of the instance
  is still set: a handler that reads them finds them. Afterwards the slot is cleared and
  the handle field is zero. From then on, in every run of calls to the two procedures in
  which that handle gets no creation message, every call for that handle finds no owner
  and takes the default path, and such calls always return. The instance is then without
  a handle, as before its creation: it accepts registrations and a new creation again.
\<close>

theorem teardown_clears_owner:
  "(window_owner st hWnd w wself \<and> handler_ready (wnd_msgHandler wself) WM_NCDESTROY wp lp st \<longrightarrow>
    (\<exists>ret hm' st1 st'.
       seen_window_hWnd (observe st) w = wnd_hWnd wself \<and>
       seen_window_long (observe st) (hWnd, GWLP_USERDATA) = w \<and>
       exec (wnd_msgHandler wself) WM_NCDESTROY wp lp st = Some (Inr ret, hm', st1) \<and>
       window_proc dwp hWnd WM_NCDESTROY wp lp st =
         Some (Inr (case ret of Some v \<Rightarrow> v | None \<Rightarrow> dwp hWnd WM_NCDESTROY wp lp), st') \<and>
       user_state st' = user_state st1 \<and>
       GetWindowLongPtrW hWnd GWLP_USERDATA st' = 0 \<and>
       windows st' = (windows st)(w \<mapsto> wself\<lparr>wnd_msgHandler := hm', wnd_hWnd := 0\<rparr>) \<and>
       (\<forall>msg wp2 lp2. msg \<noteq> WM_NCCREATE \<longrightarrow>
          window_proc dwp hWnd msg wp2 lp2 st' =
            Some (Inr (dwp hWnd msg wp2 lp2), log_call (DefWindowProcW hWnd msg wp2 lp2) st')) \<and>
       (\<forall>cs outs k msg wp2 lp2.
          keeps_slots sf \<and> (\<forall>wp3 lp3. ToWindow hWnd WM_NCCREATE wp3 lp3 \<notin> set cs) \<and>
          proc_calls dwp sf cs st' = Some outs \<and> k < length cs \<and>
          cs ! k = ToWindow hWnd msg wp2 lp2 \<longrightarrow>
          outs ! k = (Inr (dwp hWnd msg wp2 lp2),
                      log_call (DefWindowProcW hWnd msg wp2 lp2) ((st' # map snd outs) ! k))) \<and>
       (\<forall>ms. list_all (\<lambda>c. fst c \<noteq> WM_NCCREATE) ms \<longrightarrow>
          (\<exists>outs. proc_calls dwp sf (map (\<lambda>(m, wp, lp). ToWindow hWnd m wp lp) ms) st' = Some outs)) \<and>
       (\<forall>m f. \<exists>st2. wnd_on_message w m f st' = Some (Inr (), st2)) \<and>
       (\<forall>os. create_window os w st' =
          (case os w st' of
             None \<Rightarrow> None
           | Some ((h, lerr), st2) \<Rightarrow>
               if h = 0 then Some (Inl (system_error lerr), st2) else Some (Inr h, st2))))) \<and>
   (dialog_owner st hDlg d dself \<and> handler_ready (dlg_msgHandler dself) WM_NCDESTROY wp lp st \<longrightarrow>
    (\<exists>ret hm' st1 st'.
       seen_dialog_hWnd (observe st) d = dlg_hWnd dself \<and>
       seen_window_long (observe st) (hDlg, DWLP_USER) = d \<and>
       exec (dlg_msgHandler dself) WM_NCDESTROY wp lp st = Some (Inr ret, hm', st1) \<and>
       dialog_proc sf hDlg WM_NCDESTROY wp lp st =
         Some (Inr (case ret of Some v \<Rightarrow> v | None \<Rightarrow> 0), st') \<and>
       user_state st' = user_state st1 \<and>
       GetWindowLongPtrW hDlg DWLP_USER st' = 0 \<and>
       dialogs st' = (dialogs st)(d \<mapsto> dself\<lparr>dlg_msgHandler := hm', dlg_hWnd := 0\<rparr>) \<and>
       (\<forall>msg wp2 lp2. msg \<noteq> WM_INITDIALOG \<longrightarrow>
          dialog_proc sf hDlg msg wp2 lp2 st' = Some (Inr 0, st')) \<and>
       (\<forall>cs outs k msg wp2 lp2.
          keeps_slots sf \<and> (\<forall>wp3 lp3. ToDialog hDlg WM_INITDIALOG wp3 lp3 \<notin> set cs) \<and>
          proc_calls dwp sf cs st' = Some outs \<and> k < length cs \<and>
          cs ! k = ToDialog hDlg msg wp2 lp2 \<longrightarrow>
          outs ! k = (Inr 0, (st' # map snd outs) ! k)) \<and>
       (\<forall>ms. list_all (\<lambda>c. fst c \<noteq> WM_INITDIALOG) ms \<longrightarrow>
          (\<exists>outs. proc_calls dwp sf (map (\<lambda>(m, wp, lp). ToDialog hDlg m wp lp) ms) st' = Some outs)) \<and>
       (\<forall>m f. \<exists>st2. dlg_on_message d m f st' = Some (Inr (), st2)) \<and>
       (\<forall>os dialogId. dialogId \<noteq> 0 \<longrightarrow> create_dialog_param os d dialogId st' =
          (case os d dialogId st' of
             None \<Rightarrow> None
           | Some ((h, lerr), st2) \<Rightarrow>
               if h = 0 then Some (Inl (system_error lerr), st2) else Some (Inr h, st2)))))"
  (is "(?WH \<longrightarrow> ?WC) \<and> (?DH \<longrightarrow> ?DC)")
proof (rule conjI)
  show "?WH \<longrightarrow> ?WC"
  proof (rule impI)
    assume "?WH"
    then have a: "window_owner st hWnd w wself"
      and b: "handler_ready (wnd_msgHandler wself) WM_NCDESTROY wp lp st" by simp_all
    from a have slot: "GetWindowLongPtrW hWnd GWLP_USERDATA st = w"
      and obj: "deref (windows st) w = Some wself" by (simp_all add: window_owner_def)
    have n0: "w \<noteq> 0" using obj by (auto simp: deref_def split: if_splits)
    have seen1: "seen_window_hWnd (observe st) w = wnd_hWnd wself"
      using obj n0 by (simp add: observe_def deref_def)
    have seen2: "seen_window_long (observe st) (hWnd, GWLP_USERDATA) = w"
      using slot by (simp add: observe_def GetWindowLongPtrW_def)
    from window_teardown [OF a b, of dwp]
    obtain ret hm' st1 st' where e: "exec (wnd_msgHandler wself) WM_NCDESTROY wp lp st = Some (Inr ret, hm', st1)"
      and p: "window_proc dwp hWnd WM_NCDESTROY wp lp st =
         Some (Inr (case ret of Some v \<Rightarrow> v | None \<Rightarrow> dwp hWnd WM_NCDESTROY wp lp), st')"
      and u: "user_state st' = user_state st1"
      and s0: "GetWindowLongPtrW hWnd GWLP_USERDATA st' = 0"
      and ws: "windows st' = (windows st)(w \<mapsto> wself\<lparr>wnd_msgHandler := hm', wnd_hWnd := 0\<rparr>)"
      and later: "\<forall>msg wp2 lp2. msg \<noteq> WM_NCCREATE \<longrightarrow>
          window_proc dwp hWnd msg wp2 lp2 st' =
            Some (Inr (dwp hWnd msg wp2 lp2), log_call (DefWindowProcW hWnd msg wp2 lp2) st')"
      and reg: "\<forall>m f. \<exists>st2. wnd_on_message w m f st' = Some (Inr (), st2)"
      and cr: "\<forall>os. create_window os w st' =
          (case os w st' of
             None \<Rightarrow> None
           | Some ((h, lerr), st2) \<Rightarrow>
               if h = 0 then Some (Inl (system_error lerr), st2) else Some (Inr h, st2))"
      by blast
    from s0 have z: "window_long st' (hWnd, GWLP_USERDATA) = 0" by (simp add: GetWindowLongPtrW_def)
    have run: "\<forall>cs outs k msg wp2 lp2.
          keeps_slots sf \<and> (\<forall>wp3 lp3. ToWindow hWnd WM_NCCREATE wp3 lp3 \<notin> set cs) \<and>
          proc_calls dwp sf cs st' = Some outs \<and> k < length cs \<and>
          cs ! k = ToWindow hWnd msg wp2 lp2 \<longrightarrow>
          outs ! k = (Inr (dwp hWnd msg wp2 lp2),
                      log_call (DefWindowProcW hWnd msg wp2 lp2) ((st' # map snd outs) ! k))"
    proof (intro allI impI)
      fix cs :: "proc_call list" and outs :: "((excp + LRESULT) \<times> 'a process) list"
        and k msg wp2 lp2
      assume h: "keeps_slots sf \<and> (\<forall>wp3 lp3. ToWindow hWnd WM_NCCREATE wp3 lp3 \<notin> set cs) \<and>
          proc_calls dwp sf cs st' = Some outs \<and> k < length cs \<and>
          cs ! k = ToWindow hWnd msg wp2 lp2"
      then have h1: "keeps_slots sf" and h2: "\<forall>wp3 lp3. ToWindow hWnd WM_NCCREATE wp3 lp3 \<notin> set cs"
        and h3: "proc_calls dwp sf cs st' = Some outs" and h4: "k < length cs"
        and h5: "cs ! k = ToWindow hWnd msg wp2 lp2" by simp_all
      show "outs ! k = (Inr (dwp hWnd msg wp2 lp2),
                      log_call (DefWindowProcW hWnd msg wp2 lp2) ((st' # map snd outs) ! k))"
        by (rule window_cleared_run [OF h3 h1 z h2 h4 h5])
    qed
    have tot: "\<forall>ms. list_all (\<lambda>c. fst c \<noteq> WM_NCCREATE) ms \<longrightarrow>
          (\<exists>outs. proc_calls dwp sf (map (\<lambda>(m, wp, lp). ToWindow hWnd m wp lp) ms) st' = Some outs)"
      using window_cleared_total [OF z] by blast
    show "?WC"
      apply (intro exI conjI)
                 apply (rule seen1)
                 apply (rule seen2)
                 apply (rule e)
                 apply (rule p)
                 apply (rule u)
                 apply (rule s0)
                 apply (rule ws)
                 apply (rule later)
                 apply (rule run)
                 apply (rule tot)
                 apply (rule reg)
                 apply (rule cr)
      done
  qed
next
  show "?DH \<longrightarrow> ?DC"
  proof (rule impI)
    assume "?DH"
    then have a: "dialog_owner st hDlg d dself"
      and b: "handler_ready (dlg_msgHandler dself) WM_NCDESTROY wp lp st" by simp_all
    from a have slot: "GetWindowLongPtrW hDlg DWLP_USER st = d"
      and obj: "deref (dialogs st) d = Some dself" by (simp_all add: dialog_owner_def)
    have n0: "d \<noteq> 0" using obj by (auto simp: deref_def split: if_splits)
    have seen1: "seen_dialog_hWnd (observe st) d = dlg_hWnd dself"
      using obj n0 by (simp add: observe_def deref_def)
    have seen2: "seen_window_long (observe st) (hDlg, DWLP_USER) = d"
      using slot by (simp add: observe_def GetWindowLongPtrW_def)
    from dialog_teardown [OF a b, of sf]
    obtain ret hm' st1 st' where e: "exec (dlg_msgHandler dself) WM_NCDESTROY wp lp st = Some (Inr ret, hm', st1)"
      and p: "dialog_proc sf hDlg WM_NCDESTROY wp lp st =
         Some (Inr (case ret of Some v \<Rightarrow> v | None \<Rightarrow> 0), st')"
      and u: "user_state st' = user_state st1"
      and s0: "GetWindowLongPtrW hDlg DWLP_USER st' = 0"
      and ws: "dialogs st' = (dialogs st)(d \<mapsto> dself\<lparr>dlg_msgHandler := hm', dlg_hWnd := 0\<rparr>)"
      and later: "\<forall>msg wp2 lp2. msg \<noteq> WM_INITDIALOG \<longrightarrow>
          dialog_proc sf hDlg msg wp2 lp2 st' = Some (Inr 0, st')"
      and reg: "\<forall>m f. \<exists>st2. dlg_on_message d m f st' = Some (Inr (), st2)"
      and cr: "\<forall>os dialogId. dialogId \<noteq> 0 \<longrightarrow> create_dialog_param os d dialogId st' =
          (case os d dialogId st' of
             None \<Rightarrow> None
           | Some ((h, lerr), st2) \<Rightarrow>
               if h = 0 then Some (Inl (system_error lerr), st2) else Some (Inr h, st2))"
      by blast
    from s0 have z: "window_long st' (hDlg, DWLP_USER) = 0" by (simp add: GetWindowLongPtrW_def)
    have run: "\<forall>cs outs k msg wp2 lp2.
          keeps_slots sf \<and> (\<forall>wp3 lp3. ToDialog hDlg WM_INITDIALOG wp3 lp3 \<notin> set cs) \<and>
          proc_calls dwp sf cs st' = Some outs \<and> k < length cs \<and>
          cs ! k = ToDialog hDlg msg wp2 lp2 \<longrightarrow>
          outs ! k = (Inr 0, (st' # map snd outs) ! k)"
    proof (intro allI impI)
      fix cs :: "proc_call list" and outs :: "((excp + LRESULT) \<times> 'a process) list"
        and k msg wp2 lp2
      assume h: "keeps_slots sf \<and> (\<forall>wp3 lp3. ToDialog hDlg WM_INITDIALOG wp3 lp3 \<notin> set cs) \<and>
          proc_calls dwp sf cs st' = Some outs \<and> k < length cs \<and>
          cs ! k = ToDialog hDlg msg wp2 lp2"
      then have h1: "keeps_slots sf" and h2: "\<forall>wp3 lp3. ToDialog hDlg WM_INITDIALOG wp3 lp3 \<notin> set cs"
        and h3: "proc_calls dwp sf cs st' = Some outs" and h4: "k < length cs"
        and h5: "cs ! k = ToDialog hDlg msg wp2 lp2" by simp_all
      show "outs ! k = (Inr 0, (st' # map snd outs) ! k)"
        by (rule dialog_cleared_run [OF h3 h1 z h2 h4 h5])
    qed
    have tot: "\<forall>ms. list_all (\<lambda>c. fst c \<noteq> WM_INITDIALOG) ms \<longrightarrow>
          (\<exists>outs. proc_calls dwp sf (map (\<lambda>(m, wp, lp). ToDialog hDlg m wp lp) ms) st' = Some outs)"
      using dialog_cleared_total [OF z] by blast
    show "?DC"
      apply (intro exI conjI)
                 apply (rule seen1)
                 apply (rule seen2)
                 apply (rule e)
                 apply (rule p)
                 apply (rule u)
                 apply (rule s0)
                 apply (rule ws)
                 apply (rule later)
                 apply (rule run)
                 apply (rule tot)
                 apply (rule reg)
                 apply (rule cr)
      done
  qed
qed

text \<open>
  The life of an instance can be run again, and a cleared handle can get its owner back:
  created with handle 0x500 and torn down by \<^verbatim>\<open>WM_NCDESTROY\<close> (handle field 0), the
  instance accepts a registration for \<^verbatim>\<open>WM_CLOSE\<close> and a second creation under the same
  handle; the \<^verbatim>\<open>WM_CLOSE\<close> that follows finds the owner and runs the new handler once.
  No step throws.
\<close>

theorem window_recreated_counterexample:
  "map_option (map_prod id user_state)
     (window_steps 0x1000
        [Create 0x500, Message 0x500 WM_NCDESTROY, OnMessage WM_CLOSE (user count_calls),
         Create 0x500, Message 0x500 WM_CLOSE]
        (new_window 0x1000 (process_start 0))) =
   Some ([(None, 0x500), (None, 0), (None, 0), (None, 0x500), (None, 0x500)], 1)"
  by (simp add: wnd_eval catch_all_excps_eq call_func_user count_calls_def)

text \<open>
  The instance: a window and a dialog whose handlers of \<^verbatim>\<open>WM_NCDESTROY\<close> look at their own
  object. Each returns the handle it found, 0x500 and 0x700, and leaves the owner it
  found in the application state; after the call the handle field and the slot are 0,
  and two later messages for the window's handle get the result of the default procedure.
\<close>

theorem teardown_clears_owner_witness:
  "window_owner
     (dialog_handling 0x3000 0x700 WM_NCDESTROY (user (see_dialog 0x3000 0x700))
        (window_handling 0x1000 0x500 WM_NCDESTROY (user (see_window 0x1000 0x500))
           (process_start 0)))
     0x500 0x1000
     \<lparr>wnd_hWnd = 0x500,
      wnd_msgHandler = mh_on_message base_msg_handler_new WM_NCDESTROY
                         (user (see_window 0x1000 0x500))\<rparr> \<and>
   handler_ready
     (mh_on_message base_msg_handler_new WM_NCDESTROY (user (see_window 0x1000 0x500)))
     WM_NCDESTROY 0 0
     (dialog_handling 0x3000 0x700 WM_NCDESTROY (user (see_dialog 0x3000 0x700))
        (window_handling 0x1000 0x500 WM_NCDESTROY (user (see_window 0x1000 0x500))
           (process_start 0))) \<and>
   dialog_owner
     (dialog_handling 0x3000 0x700 WM_NCDESTROY (user (see_dialog 0x3000 0x700))
        (window_handling 0x1000 0x500 WM_NCDESTROY (user (see_window 0x1000 0x500))
           (process_start 0)))
     0x700 0x3000
     \<lparr>dlg_hWnd = 0x700,
      dlg_msgHandler = mh_on_message base_msg_handler_new WM_NCDESTROY
                         (user (see_dialog 0x3000 0x700))\<rparr> \<and>
   handler_ready
     (mh_on_message base_msg_handler_new WM_NCDESTROY (user (see_dialog 0x3000 0x700)))
     WM_NCDESTROY 0 0
     (dialog_handling 0x3000 0x700 WM_NCDESTROY (user (see_dialog 0x3000 0x700))
        (window_handling 0x1000 0x500 WM_NCDESTROY (user (see_window 0x1000 0x500))
           (process_start 0))) \<and>
   keeps_slots (set_font_none :: HWND \<Rightarrow> (64 word) process \<Rightarrow> (64 word) process option) \<and>
   map_option
     (\<lambda>(r, s). (r, user_state s, seen_window_hWnd (observe s) 0x1000,
                seen_window_long (observe s) (0x500, GWLP_USERDATA)))
     (window_proc def_proc_one 0x500 WM_NCDESTROY 0 0
        (dialog_handling 0x3000 0x700 WM_NCDESTROY (user (see_dialog 0x3000 0x700))
           (window_handling 0x1000 0x500 WM_NCDESTROY (user (see_window 0x1000 0x500))
              (process_start 0)))) =
     Some (Inr 0x500, 0x1000, 0, 0) \<and>
   map_option
     (\<lambda>(r, s). (r, user_state s, seen_dialog_hWnd (observe s) 0x3000,
                seen_window_long (observe s) (0x700, DWLP_USER)))
     (dialog_proc set_font_none 0x700 WM_NCDESTROY 0 0
        (dialog_handling 0x3000 0x700 WM_NCDESTROY (user (see_dialog 0x3000 0x700))
           (window_handling 0x1000 0x500 WM_NCDESTROY (user (see_window 0x1000 0x500))
              (process_start 0)))) =
     Some (Inr 0x700, 0x3000, 0, 0) \<and>
   Option.bind
     (window_proc def_proc_one 0x500 WM_NCDESTROY 0 0
        (dialog_handling 0x3000 0x700 WM_NCDESTROY (user (see_dialog 0x3000 0x700))
           (window_handling 0x1000 0x500 WM_NCDESTROY (user (see_window 0x1000 0x500))
              (process_start 0))))
     (\<lambda>(r, s). map_option (map (map_prod id user_state))
        (proc_calls def_proc_one set_font_none
           [ToWindow 0x500 WM_NCDESTROY 0 0, ToWindow 0x500 WM_CLOSE 0 0] s)) =
     Some [(Inr 1, 0x1000), (Inr 1, 0x1000)]"
proof -
  define fw :: "(64 word) func" where "fw = user (see_window 0x1000 0x500)"
  define fd :: "(64 word) func" where "fd = user (see_dialog 0x3000 0x700)"
  define hmw where "hmw = mh_on_message base_msg_handler_new WM_NCDESTROY fw"
  define hmd where "hmd = mh_on_message base_msg_handler_new WM_NCDESTROY fd"
  define st :: "(64 word) process"
    where "st = dialog_handling 0x3000 0x700 WM_NCDESTROY fd
                  (window_handling 0x1000 0x500 WM_NCDESTROY fw (process_start 0))"
  define ws where "ws = \<lparr>wnd_hWnd = 0x500, wnd_msgHandler = hmw\<rparr>"
  define ds where "ds = \<lparr>dlg_hWnd = 0x700, dlg_msgHandler = hmd\<rparr>"
  note ev = st_def ws_def ds_def hmw_def hmd_def dialog_handling_def window_handling_def
    process_start_def SetWindowLongPtrW_def GetWindowLongPtrW_def deref_def
  note hv = hmw_def hmd_def mh_on_message_def base_msg_handler_new_def store_new_def store_add_def
    WM_NCDESTROY_def WM_COMMAND_def WM_NOTIFY_def WM_UI_THREAD_def WM_APP_def
  have wo: "window_owner st 0x500 0x1000 ws" by (simp add: window_owner_def ev)
  have dow: "dialog_owner st 0x700 0x3000 ds" by (simp add: dialog_owner_def ev)
  have whr: "handler_ready hmw WM_NCDESTROY 0 0 st"
    by (simp add: handler_ready_def tables_present_def wf_table_def probed_table_def pack_ok_def
        hv fw_def)
  have dhr: "handler_ready hmd WM_NCDESTROY 0 0 st"
    by (simp add: handler_ready_def tables_present_def wf_table_def probed_table_def pack_ok_def
        hv fd_def)
  have ks: "keeps_slots (set_font_none :: HWND \<Rightarrow> (64 word) process \<Rightarrow> (64 word) process option)"
    by (simp add: keeps_slots_def set_font_none_def)
  have exw: "\<exists>hm1. exec hmw WM_NCDESTROY 0 0 st = Some (Inr (Some 0x500), hm1, st\<lparr>user_state := 0x1000\<rparr>)"
    by (simp add: exec_def store_find_def hv fw_def catch_all_excps_eq call_func_user
        see_window_def observe_def st_def dialog_handling_def window_handling_def
        process_start_def SetWindowLongPtrW_def)
  have exd: "\<exists>hm1. exec hmd WM_NCDESTROY 0 0 st = Some (Inr (Some 0x700), hm1, st\<lparr>user_state := 0x3000\<rparr>)"
    by (simp add: exec_def store_find_def hv fd_def catch_all_excps_eq call_func_user
        see_dialog_def observe_def st_def dialog_handling_def window_handling_def
        process_start_def SetWindowLongPtrW_def)
  note inst = teardown_clears_owner [where st = st and hWnd = "0x500" and w = "0x1000"
      and wself = ws and wp = 0 and lp = 0 and dwp = def_proc_one and sf = set_font_none
      and hDlg = "0x700" and d = "0x3000" and dself = ds]
  have wh: "window_owner st 0x500 0x1000 ws \<and> handler_ready (wnd_msgHandler ws) WM_NCDESTROY 0 0 st"
    using wo whr by (simp add: ws_def)
  have dh: "dialog_owner st 0x700 0x3000 ds \<and> handler_ready (dlg_msgHandler ds) WM_NCDESTROY 0 0 st"
    using dow dhr by (simp add: ds_def)
  from inst [THEN conjunct1, THEN mp, OF wh]
  obtain ret hm' st1 st' where
      e1: "exec (wnd_msgHandler ws) WM_NCDESTROY 0 0 st = Some (Inr ret, hm', st1)"
    and p1: "window_proc def_proc_one 0x500 WM_NCDESTROY 0 0 st =
         Some (Inr (case ret of Some v \<Rightarrow> v | None \<Rightarrow> def_proc_one 0x500 WM_NCDESTROY 0 0), st')"
    and u1: "user_state st' = user_state st1"
    and s1: "GetWindowLongPtrW 0x500 GWLP_USERDATA st' = 0"
    and w1: "windows st' = (windows st)(0x1000 \<mapsto> ws\<lparr>wnd_msgHandler := hm', wnd_hWnd := 0\<rparr>)"
    and run1: "\<forall>cs outs k msg wp2 lp2.
          keeps_slots (set_font_none :: HWND \<Rightarrow> (64 word) process \<Rightarrow> (64 word) process option) \<and>
          (\<forall>wp3 lp3. ToWindow 0x500 WM_NCCREATE wp3 lp3 \<notin> set cs) \<and>
          proc_calls def_proc_one set_font_none cs st' = Some outs \<and> k < length cs \<and>
          cs ! k = ToWindow 0x500 msg wp2 lp2 \<longrightarrow>
          outs ! k = (Inr (def_proc_one 0x500 msg wp2 lp2),
                      log_call (DefWindowProcW 0x500 msg wp2 lp2) ((st' # map snd outs) ! k))"
    and tot1: "\<forall>ms. list_all (\<lambda>c. fst c \<noteq> WM_NCCREATE) ms \<longrightarrow>
          (\<exists>outs. proc_calls def_proc_one set_font_none
                    (map (\<lambda>(m, wp, lp). ToWindow 0x500 m wp lp) ms) st' = Some outs)"
    by (elim exE conjE) (rule that)
  from e1 exw have r1: "ret = Some 0x500" and st1: "st1 = st\<lparr>user_state := 0x1000\<rparr>"
    by (auto simp: ws_def)
  have 1: "map_option
     (\<lambda>(r, s). (r, user_state s, seen_window_hWnd (observe s) 0x1000,
                seen_window_long (observe s) (0x500, GWLP_USERDATA)))
     (window_proc def_proc_one 0x500 WM_NCDESTROY 0 0 st) = Some (Inr 0x500, 0x1000, 0, 0)"
    using s1 by (simp add: p1 r1 u1 st1 w1 observe_def GetWindowLongPtrW_def)
  define cs where "cs = [ToWindow 0x500 WM_NCDESTROY 0 0, ToWindow 0x500 WM_CLOSE 0 0]"
  have nc: "\<forall>wp3 lp3. ToWindow 0x500 WM_NCCREATE wp3 lp3 \<notin> set cs"
    by (simp add: cs_def WM_NCCREATE_def WM_NCDESTROY_def WM_CLOSE_def)
  have "list_all (\<lambda>c. fst c \<noteq> WM_NCCREATE) [(WM_NCDESTROY, 0, 0), (WM_CLOSE, 0, 0)]"
    by (simp add: WM_NCCREATE_def WM_NCDESTROY_def WM_CLOSE_def)
  from tot1 [rule_format, OF this] obtain outs where
    "proc_calls def_proc_one set_font_none
       (map (\<lambda>(m, wp, lp). ToWindow 0x500 m wp lp) [(WM_NCDESTROY, 0, 0), (WM_CLOSE, 0, 0)]) st' =
     Some outs" ..
  then have o: "proc_calls def_proc_one set_font_none cs st' = Some outs"
    by (simp only: cs_def list.map prod.case)
  from proc_calls_length [OF o] have len: "length outs = 2" by (simp add: cs_def)
  have k0: "0 < length cs" "cs ! 0 = ToWindow 0x500 WM_NCDESTROY 0 0"
    and k1: "Suc 0 < length cs" "cs ! Suc 0 = ToWindow 0x500 WM_CLOSE 0 0"
    by (simp_all add: cs_def)
  from run1 [rule_format, of cs outs 0 WM_NCDESTROY 0 0, OF conjI [OF ks conjI [OF nc conjI [OF o conjI [OF k0]]]]]
  have o0: "outs ! 0 = (Inr 1, log_call (DefWindowProcW 0x500 WM_NCDESTROY 0 0) st')"
    by (simp add: def_proc_one_def)
  from run1 [rule_format, of cs outs "Suc 0" WM_CLOSE 0 0, OF conjI [OF ks conjI [OF nc conjI [OF o conjI [OF k1]]]]]
  have o1: "outs ! Suc 0 = (Inr 1, log_call (DefWindowProcW 0x500 WM_CLOSE 0 0) (snd (outs ! 0)))"
    using len by (simp add: def_proc_one_def)
  from len have "outs = [outs ! 0, outs ! 1]" by (rule two_elems)
  from arg_cong [OF this, of "map (map_prod id user_state)"]
  have "map (map_prod id user_state) outs =
          map (map_prod id user_state) [outs ! 0, outs ! 1]" .
  also have "\<dots> = [(Inr 1, 0x1000), (Inr 1, 0x1000)]"
    by (simp add: o0 o1 u1 st1 log_call_def)
  finally have m: "map (map_prod id user_state) outs = [(Inr 1, 0x1000), (Inr 1, 0x1000)]" .
  have 3: "Option.bind (window_proc def_proc_one 0x500 WM_NCDESTROY 0 0 st)
     (\<lambda>(r, s). map_option (map (map_prod id user_state))
        (proc_calls def_proc_one set_font_none cs s)) =
     Some [(Inr 1, 0x1000), (Inr 1, 0x1000)]"
    by (simp add: p1 o m)
  from inst [THEN conjunct2, THEN mp, OF dh]
  obtain ret2 hm2 st12 st2 where
      e2: "exec (dlg_msgHandler ds) WM_NCDESTROY 0 0 st = Some (Inr ret2, hm2, st12)"
    and p2: "dialog_proc set_font_none 0x700 WM_NCDESTROY 0 0 st =
         Some (Inr (case ret2 of Some v \<Rightarrow> v | None \<Rightarrow> 0), st2)"
    and u2: "user_state st2 = user_state st12"
    and s2: "GetWindowLongPtrW 0x700 DWLP_USER st2 = 0"
    and w2: "dialogs st2 = (dialogs st)(0x3000 \<mapsto> ds\<lparr>dlg_msgHandler := hm2, dlg_hWnd := 0\<rparr>)"
    by (elim exE conjE) (rule that)
  from e2 exd have r2: "ret2 = Some 0x700" and st12: "st12 = st\<lparr>user_state := 0x3000\<rparr>"
    by (auto simp: ds_def)
  have 2: "map_option
     (\<lambda>(r, s). (r, user_state s, seen_dialog_hWnd (observe s) 0x3000,
                seen_window_long (observe s) (0x700, DWLP_USER)))
     (dialog_proc set_font_none 0x700 WM_NCDESTROY 0 0 st) = Some (Inr 0x700, 0x3000, 0, 0)"
    using s2 by (simp add: p2 r2 u2 st12 w2 observe_def GetWindowLongPtrW_def)
  from wo whr dow dhr ks 1 2 3 show ?thesis
    unfolding st_def ws_def ds_def hmw_def hmd_def fw_def fd_def cs_def by (intro conjI)
qed

lemma wnd_register_live:
  "window_live st w \<Longrightarrow> wnd_register reg w st = Some (Inl logic_error, st)"
  by (auto simp: window_live_def wnd_register_def split: option.splits)

lemma dlg_register_live:
  "dialog_live st d \<Longrightarrow> dlg_register reg d st = Some (Inl logic_error, st)"
  by (auto simp: dialog_live_def dlg_register_def split: option.splits)

text \<open>
  Claim C4. On a live window or dialog every creation call and every registration method
  throws a logic error and leaves the process, the instance included, as it was.
\<close>

theorem live_instance_rejects:
  "(window_live st w \<longrightarrow>
      create_window os w st = Some (Inl logic_error, st) \<and>
      wnd_on_message w msg f st = Some (Inl logic_error, st) \<and>
      wnd_on_message_list w ms f st = Some (Inl logic_error, st) \<and>
      wnd_on_command w cmd f st = Some (Inl logic_error, st) \<and>
      wnd_on_command_list w cs f st = Some (Inl logic_error, st) \<and>
      wnd_on_notify w idf cd f st = Some (Inl logic_error, st) \<and>
      wnd_on_notify_list w ns f st = Some (Inl logic_error, st)) \<and>
   (dialog_live st d \<longrightarrow>
      create_dialog_param osd d dialogId st = Some (Inl logic_error, st) \<and>
      dialog_box_param osb d dialogId st = Some (Inl logic_error, st) \<and>
      dlg_on_message d msg f st = Some (Inl logic_error, st) \<and>
      dlg_on_message_list d ms f st = Some (Inl logic_error, st) \<and>
      dlg_on_command d cmd f st = Some (Inl logic_error, st) \<and>
      dlg_on_command_list d cs f st = Some (Inl logic_error, st) \<and>
      dlg_on_notify d idf cd f st = Some (Inl logic_error, st) \<and>
      dlg_on_notify_list d ns f st = Some (Inl logic_error, st))"
proof (intro conjI impI)
  assume l: "window_live st w"
  show "create_window os w st = Some (Inl logic_error, st)"
    using l by (auto simp: window_live_def create_window_def split: option.splits)
  show "wnd_on_message w msg f st = Some (Inl logic_error, st)"
    unfolding wnd_on_message_def using l by (rule wnd_register_live)
  show "wnd_on_message_list w ms f st = Some (Inl logic_error, st)"
    unfolding wnd_on_message_list_def using l by (rule wnd_register_live)
  show "wnd_on_command w cmd f st = Some (Inl logic_error, st)"
    unfolding wnd_on_command_def using l by (rule wnd_register_live)
  show "wnd_on_command_list w cs f st = Some (Inl logic_error, st)"
    unfolding wnd_on_command_list_def using l by (rule wnd_register_live)
  show "wnd_on_notify w idf cd f st = Some (Inl logic_error, st)"
    unfolding wnd_on_notify_def using l by (rule wnd_register_live)
  show "wnd_on_notify_list w ns f st = Some (Inl logic_error, st)"
    unfolding wnd_on_notify_list_def using l by (rule wnd_register_live)
next
  assume l: "dialog_live st d"
  show "create_dialog_param osd d dialogId st = Some (Inl logic_error, st)"
    using l by (auto simp: dialog_live_def create_dialog_param_def creation_checks_def
        split: option.splits)
  show "dialog_box_param osb d dialogId st = Some (Inl logic_error, st)"
    using l by (auto simp: dialog_live_def dialog_box_param_def creation_checks_def
        split: option.splits)
  show "dlg_on_message d msg f st = Some (Inl logic_error, st)"
    unfolding dlg_on_message_def using l by (rule dlg_register_live)
  show "dlg_on_message_list d ms f st = Some (Inl logic_error, st)"
    unfolding dlg_on_message_list_def using l by (rule dlg_register_live)
  show "dlg_on_command d cmd f st = Some (Inl logic_error, st)"
    unfolding dlg_on_command_def using l by (rule dlg_register_live)
  show "dlg_on_command_list d cs f st = Some (Inl logic_error, st)"
    unfolding dlg_on_command_list_def using l by (rule dlg_register_live)
  show "dlg_on_notify d idf cd f st = Some (Inl logic_error, st)"
    unfolding dlg_on_notify_def using l by (rule dlg_register_live)
  show "dlg_on_notify_list d ns f st = Some (Inl logic_error, st)"
    unfolding dlg_on_notify_list_def using l by (rule dlg_register_live)
qed

theorem live_instance_rejects_witness:
  "window_live (live_dialog 0x3000 0x700 (live_window 0x1000 0x500 (process_start (0::nat)))) 0x1000 \<and>
   dialog_live (live_dialog 0x3000 0x700 (live_window 0x1000 0x500 (process_start (0::nat)))) 0x3000 \<and>
   create_window (sim_CreateWindowExW 0x600 0x2000) 0x1000
       (live_dialog 0x3000 0x700 (live_window 0x1000 0x500 (process_start (0::nat)))) =
     Some (Inl logic_error, live_dialog 0x3000 0x700 (live_window 0x1000 0x500 (process_start 0))) \<and>
   wnd_on_message 0x1000 WM_CLOSE (user count_calls)
       (live_dialog 0x3000 0x700 (live_window 0x1000 0x500 (process_start 0))) =
     Some (Inl logic_error, live_dialog 0x3000 0x700 (live_window 0x1000 0x500 (process_start 0))) \<and>
   dlg_on_command 0x3000 7 (user count_calls)
       (live_dialog 0x3000 0x700 (live_window 0x1000 0x500 (process_start 0))) =
     Some (Inl logic_error, live_dialog 0x3000 0x700 (live_window 0x1000 0x500 (process_start 0)))"
proof -
  define st :: "nat process"
    where "st = live_dialog 0x3000 0x700 (live_window 0x1000 0x500 (process_start 0))"
  have wl: "window_live st 0x1000"
    by (simp add: window_live_def st_def live_dialog_def live_window_def process_start_def
        SetWindowLongPtrW_def deref_def)
  have dl: "dialog_live st 0x3000"
    by (simp add: dialog_live_def st_def live_dialog_def live_window_def process_start_def
        SetWindowLongPtrW_def deref_def)
  from live_instance_rejects [of st "0x1000" "sim_CreateWindowExW 0x600 0x2000" WM_CLOSE
      "user count_calls" _ 7 _ _ _ _ "0x3000"] wl dl
  have "create_window (sim_CreateWindowExW 0x600 0x2000) 0x1000 st = Some (Inl logic_error, st)"
    and "wnd_on_message 0x1000 WM_CLOSE (user count_calls) st = Some (Inl logic_error, st)"
    and "dlg_on_command 0x3000 7 (user count_calls) st = Some (Inl logic_error, st)"
    by blast+
  with wl dl show ?thesis unfolding st_def by simp
qed

section \<open>Properties of subclassed controls\<close>

lemma report_excp_fault: "is_fault_call (report_excp e)"
  by (cases e) simp_all

lemma ui_thread_handler_log:
  "ui_thread_handler p st = Some (r, st') \<Longrightarrow>
   \<exists>xs. api_log st' = api_log st @ xs \<and> list_all is_fault_call xs"
  unfolding ui_thread_handler_def
  by (auto simp: catch_all_excps_eq log_call_def report_excp_fault
      split: if_splits option.splits sum.splits prod.splits)

lemma call_func_log:
  assumes "call_func t f p st = Some y"
  shows "\<exists>xs. api_log (snd y) = api_log st @ xs \<and> list_all is_fault_call xs"
  using assms
proof (induction t f p st y rule: call_func.raw_induct [rotated, consumes 1])
  case (1 cf table f p st y)
  show ?case
  proof (cases f)
    case nullfn
    with 1(2) show ?thesis by auto
  next
    case (user g)
    with 1(2) show ?thesis by (auto split: prod.splits)
  next
    case (thunk n)
    with 1(2) have "cf table (table ! n) p st = Some y" by (simp split: if_splits)
    then show ?thesis by (rule 1(1))
  next
    case ui_thread
    with 1(2) show ?thesis using ui_thread_handler_log [of p st "fst y" "snd y"] by simp
  qed
qed

lemma guarded_call:
  assumes "call_func table (table ! i) p st1 = Some (cr, st2)"
  shows "catch_all_excps
           (\<lambda>(retVal, st2).
              case call_func table (table ! i) p st2 of
                None \<Rightarrow> None
              | Some (Inl e, st3) \<Rightarrow> Some (Inl e, (retVal, st3))
              | Some (Inr v, st3) \<Rightarrow> Some (Inr (), (v, st3)))
           YES (0, st1) =
         Some (Inr (), (case cr of Inl e \<Rightarrow> 0 | Inr v \<Rightarrow> v,
                        case cr of Inl e \<Rightarrow> faulted e st2 | Inr v \<Rightarrow> st2))"
  using assms by (cases cr) (simp_all add: catch_all_excps_eq faulted_def)

lemma guarded_call_log:
  assumes "call_func table f p st1 = Some (cr, st2)"
  shows "\<exists>xs. api_log (case cr of Inl e \<Rightarrow> faulted e st2 | Inr v \<Rightarrow> st2) = api_log st1 @ xs \<and>
              list_all is_fault_call xs"
proof -
  from call_func_log [OF assms]
  obtain xs where x: "api_log st2 = api_log st1 @ xs" "list_all is_fault_call xs" by auto
  show ?thesis
  proof (cases cr)
    case (Inl e)
    with x report_excp_fault [of e] show ?thesis by (simp add: faulted_def log_call_def)
  next
    case (Inr v)
    with x show ?thesis by simp
  qed
qed

lemma store_empty_adds: "store_empty (adds (store_new z) kfs) = (kfs = [])"
  by (simp add: store_empty_def handlers_adds store_new_def)

lemma add_list_is_adds:
  "store_add_list s (id0 # rest) f =
     Some (adds s ((id0, f) # map (\<lambda>k. (k, thunk (length (handlers s))))
                               (filter (\<lambda>k. k \<noteq> id0) rest)))"
proof -
  have "foldl (\<lambda>st k. if k \<noteq> id0 then store_add st k t else st) s1 ks =
        adds s1 (map (\<lambda>k. (k, t)) (filter (\<lambda>k. k \<noteq> id0) ks))" for s1 :: "('a, 'b) store" and t ks
    by (induction ks arbitrary: s1) (simp_all add: adds_def)
  then show ?thesis
    by (simp add: store_add_list_def Let_def adds_def store_add_def)
qed

lemma install_subclass_log:
  assumes "deref (controls st) this = Some self"
  shows "\<exists>st'. install_subclass_if_needed this st = Some st' \<and>
           api_log st' = api_log st @
             (if store_empty (ctl_msgs self) then []
              else [SetWindowSubclass (ctl_hWnd self) (firstId st + 1) this]) \<and>
           user_state st' = user_state st"
  using assms by (simp add: install_subclass_if_needed_def Let_def log_call_def)

lemma assign_log:
  assumes "deref (controls st) this = Some self" "ctl_hWnd self = 0"
  shows "\<exists>st'. assign gdi this (Some ph) ctrlId st = Some (Inr (), st') \<and>
           api_log st' = api_log st @
             (if store_empty (ctl_msgs self) then []
              else [SetWindowSubclass (gdi ph ctrlId) (firstId st + 1) this])"
proof -
  define st1 where "st1 = st\<lparr>controls := (controls st)(this \<mapsto> self\<lparr>ctl_hWnd := gdi ph ctrlId\<rparr>)\<rparr>"
  have t0: "this \<noteq> 0" using assms(1) by (auto simp: deref_def split: if_splits)
  have d: "deref (controls st1) this = Some (self\<lparr>ctl_hWnd := gdi ph ctrlId\<rparr>)"
    using t0 by (simp add: st1_def deref_def)
  from install_subclass_log [OF d]
  obtain st' where i: "install_subclass_if_needed this st1 = Some st'"
    and l: "api_log st' = api_log st1 @
             (if store_empty (ctl_msgs (self\<lparr>ctl_hWnd := gdi ph ctrlId\<rparr>)) then []
              else [SetWindowSubclass (ctl_hWnd (self\<lparr>ctl_hWnd := gdi ph ctrlId\<rparr>)) (firstId st1 + 1) this])"
    by blast
  have "assign gdi this (Some ph) ctrlId st = Some (Inr (), st')"
    using assms i by (simp add: assign_def st1_def Let_def)
  moreover have "api_log st' = api_log st @
             (if store_empty (ctl_msgs self) then []
              else [SetWindowSubclass (gdi ph ctrlId) (firstId st + 1) this])"
    using l by (simp add: st1_def)
  ultimately show ?thesis by blast
qed

lemma ctl_create_window_log:
  assumes "deref (controls st) this = Some self" "ctl_hWnd self = 0"
    "os st = Some ((h, lerr), st1)" "h \<noteq> 0" "deref (controls st1) this = Some self"
  shows "\<exists>st'. ctl_create_window os this (Some ph) st = Some (Inr h, st') \<and>
           api_log st' = api_log st1 @
             (if store_empty (ctl_msgs self) then []
              else [SetWindowSubclass h (firstId st1 + 1) this])"
proof -
  define st2 where "st2 = st1\<lparr>controls := (controls st1)(this \<mapsto> self\<lparr>ctl_hWnd := h\<rparr>)\<rparr>"
  have t0: "this \<noteq> 0" using assms(1) by (auto simp: deref_def split: if_splits)
  have d: "deref (controls st2) this = Some (self\<lparr>ctl_hWnd := h\<rparr>)"
    using t0 by (simp add: st2_def deref_def)
  from install_subclass_log [OF d]
  obtain st' where i: "install_subclass_if_needed this st2 = Some st'"
    and l: "api_log st' = api_log st2 @
             (if store_empty (ctl_msgs (self\<lparr>ctl_hWnd := h\<rparr>)) then []
              else [SetWindowSubclass (ctl_hWnd (self\<lparr>ctl_hWnd := h\<rparr>)) (firstId st2 + 1) this])"
    by blast
  have "ctl_create_window os this (Some ph) st = Some (Inr h, st')"
    using assms i by (simp add: ctl_create_window_def st2_def)
  moreover have "api_log st' = api_log st1 @
             (if store_empty (ctl_msgs self) then []
              else [SetWindowSubclass h (firstId st1 + 1) this])"
    using l by (simp add: st2_def)
  ultimately show ?thesis by blast
qed

lemma subclass_proc_log:
  assumes "control_ready refData wp lp st"
  shows "\<exists>res st' pre post.
     subclass_proc dsp hWnd msg wp lp idSubclass refData st = Some (Inr res, st') \<and>
     api_log st' = api_log st @ pre @
       (if msg = WM_NCDESTROY then [RemoveWindowSubclass hWnd idSubclass] else []) @ post \<and>
     list_all is_fault_call pre \<and>
     (post = [] \<or> post = [DefSubclassProc hWnd msg wp lp])"
proof -
  have pack: "\<exists>res st' pre post.
     subclass_proc dsp hWnd msg wp lp idSubclass refData st = Some (Inr res, st') \<and>
     api_log st' = api_log st @ pre @
       (if msg = WM_NCDESTROY then [RemoveWindowSubclass hWnd idSubclass] else []) @ post \<and>
     list_all is_fault_call pre \<and>
     (post = [] \<or> post = [DefSubclassProc hWnd msg wp lp])"
    if "subclass_proc dsp hWnd msg wp lp idSubclass refData st = Some (Inr res, st')"
      "api_log st' = api_log st @ pre @
       (if msg = WM_NCDESTROY then [RemoveWindowSubclass hWnd idSubclass] else []) @ post"
      "list_all is_fault_call pre" "post = [] \<or> post = [DefSubclassProc hWnd msg wp lp]"
    for res st' pre post
    using that by blast
  consider (null) "refData = 0"
    | (idle) self where "refData \<noteq> 0" "controls st refData = Some self" "ctl_hWnd self = 0"
    | (live) self where "refData \<noteq> 0" "controls st refData = Some self" "ctl_hWnd self \<noteq> 0"
        "handlers (ctl_msgs self) \<noteq> []" "wf_table (map func (handlers (ctl_msgs self)))"
        "ui_thread \<in> set (map func (handlers (ctl_msgs self))) \<longrightarrow> pack_ok wp lp st"
    using assms unfolding control_ready_def by (auto split: option.splits)
  then show ?thesis
  proof cases
    case null
    have "subclass_proc dsp hWnd msg wp lp idSubclass refData st =
            Some (Inr (dsp hWnd msg wp lp),
                  log_call (DefSubclassProc hWnd msg wp lp)
                    (if msg = WM_NCDESTROY then log_call (RemoveWindowSubclass hWnd idSubclass) st
                     else st))"
      using null by (simp add: subclass_proc_def)
    then show ?thesis
      by (rule pack [where pre = "[]" and post = "[DefSubclassProc hWnd msg wp lp]"])
        (simp_all add: log_call_def)
  next
    case idle
    have "subclass_proc dsp hWnd msg wp lp idSubclass refData st =
            Some (Inr (dsp hWnd msg wp lp),
                  log_call (DefSubclassProc hWnd msg wp lp)
                    (if msg = WM_NCDESTROY then log_call (RemoveWindowSubclass hWnd idSubclass) st
                     else st))"
      using idle by (simp add: subclass_proc_def)
    then show ?thesis
      by (rule pack [where pre = "[]" and post = "[DefSubclassProc hWnd msg wp lp]"])
        (simp_all add: log_call_def)
  next
    case live
    from store_find_spec [OF live(4), of msg]
    obtain r where f: "store_find (ctl_msgs self) msg = Some (r, write_sentinel (ctl_msgs self) msg)"
      and l: "last_registration (handlers (ctl_msgs self)) msg r" by blast
    define table where "table = map func (handlers (ctl_msgs self))"
    have tab: "map func (handlers (write_sentinel (ctl_msgs self) msg)) = table"
      unfolding table_def by (rule map_func_write_sentinel [OF live(4)])
    define st1 where "st1 = st\<lparr>controls :=
        (controls st)(refData \<mapsto> self\<lparr>ctl_msgs := write_sentinel (ctl_msgs self) msg\<rparr>)\<rparr>"
    have log1: "api_log st1 = api_log st" by (simp add: st1_def)
    show ?thesis
    proof (cases r)
      case None
      have "subclass_proc dsp hWnd msg wp lp idSubclass refData st =
            Some (Inr (dsp hWnd msg wp lp),
                  log_call (DefSubclassProc hWnd msg wp lp)
                    (if msg = WM_NCDESTROY then log_call (RemoveWindowSubclass hWnd idSubclass) st1
                     else st1))"
        using live(1,2,3) f None by (simp add: subclass_proc_def st1_def Let_def)
      then show ?thesis
        by (rule pack [where pre = "[]" and post = "[DefSubclassProc hWnd msg wp lp]"])
          (simp_all add: log_call_def log1)
    next
      case (Some i)
      have il: "i < length table" using l Some by (simp add: last_registration_def table_def)
      have pk: "needs_pack table (table ! i) \<longrightarrow>
                pack_ok (wparam \<lparr>wparam = wp, lparam = lp\<rparr>) (lparam \<lparr>wparam = wp, lparam = lp\<rparr>) st1"
      proof
        assume "needs_pack table (table ! i)"
        moreover have "table ! i \<in> set table" using il by simp
        ultimately have "ui_thread \<in> set table" by (rule needs_pack_mem)
        with live(6) have "pack_ok wp lp st" by (simp add: table_def)
        then show "pack_ok (wparam \<lparr>wparam = wp, lparam = lp\<rparr>)
                     (lparam \<lparr>wparam = wp, lparam = lp\<rparr>) st1"
          by (simp add: pack_ok_def st1_def)
      qed
      have wf: "wf_table table" using live(5) by (simp add: table_def)
      from call_func_total_weak [OF wf il pk]
      obtain cr st2 where c: "call_func table (table ! i) \<lparr>wparam = wp, lparam = lp\<rparr> st1 = Some (cr, st2)"
        by blast
      define st4 where "st4 = (case cr of Inl e \<Rightarrow> faulted e st2 | Inr v \<Rightarrow> st2)"
      define rv where "rv = (case cr of Inl e \<Rightarrow> (0 :: LRESULT) | Inr v \<Rightarrow> v)"
      from guarded_call_log [OF c]
      obtain xs where xs: "api_log st4 = api_log st @ xs" "list_all is_fault_call xs"
        unfolding st4_def log1 by blast
      have "subclass_proc dsp hWnd msg wp lp idSubclass refData st =
            Some (Inr rv,
                  if msg = WM_NCDESTROY then log_call (RemoveWindowSubclass hWnd idSubclass) st4
                  else st4)"
        using live(1,2,3) f Some
        by (simp add: subclass_proc_def Let_def tab st1_def [symmetric] guarded_call [OF c]
            st4_def rv_def)
      then show ?thesis
        by (rule pack [where pre = xs and post = "[]"]) (simp_all add: log_call_def xs)
    qed
  qed
qed

lemma adds_snoc: "adds s (kfs @ [(k, f)]) = store_add (adds s kfs) k f"
  by (simp add: adds_def)

lemma adds_append: "adds s (xs @ ys) = adds (adds s xs) ys"
  by (simp add: adds_def)

text \<open>
  Claim C7. For a control without a handle whose table holds the registrations \<open>kfs\<close>,
  both registration methods extend that run: \<^verbatim>\<open>on_subclass_message\<close> with one key by one
  registration, with several keys by the callback under the first key and a forwarding
  wrapper under every later key that differs from it. \<^verbatim>\<open>assign\<close> and \<^verbatim>\<open>create_window\<close> call
  \<^verbatim>\<open>SetWindowSubclass\<close> exactly when \<open>kfs\<close> is not empty, and otherwise call nothing.
  The subclass procedure always returns, and among the platform calls it makes there is
  one \<^verbatim>\<open>RemoveWindowSubclass\<close> for its own handle and subclass identifier exactly when
  the message is \<^verbatim>\<open>WM_NCDESTROY\<close>: with a null reference, with or without a handler for
  the message, and when the handler throws.
\<close>

theorem subclass_installed_iff_registered:
  "(deref (controls (st :: 'u process)) this = Some self \<and> ctl_hWnd self = 0 \<and>
    ctl_msgs self = adds (store_new 0) kfs \<longrightarrow>
      on_subclass_message this m f st =
        Some (Inr (), st\<lparr>controls := (controls st)
                         (this \<mapsto> self\<lparr>ctl_msgs := adds (store_new 0) (kfs @ [(m, f)])\<rparr>)\<rparr>) \<and>
      (\<forall>id0 rest.
          on_subclass_message_list this (id0 # rest) f st =
            Some (Inr (), st\<lparr>controls := (controls st)
                   (this \<mapsto> self\<lparr>ctl_msgs := adds (store_new 0)
                      (kfs @ (id0, f) #
                         map (\<lambda>k. (k, thunk (Suc (length kfs)))) (filter (\<lambda>k. k \<noteq> id0) rest))\<rparr>)\<rparr>)) \<and>
      (\<exists>st'. assign gdi this (Some ph) ctrlId st = Some (Inr (), st') \<and>
            api_log st' = api_log st @
              (if kfs = [] then [] else [SetWindowSubclass (gdi ph ctrlId) (firstId st + 1) this])) \<and>
      (\<forall>os h lerr st1.
          os st = Some ((h, lerr), st1) \<and> h \<noteq> 0 \<and> deref (controls st1) this = Some self \<longrightarrow>
          (\<exists>st'. ctl_create_window os this (Some ph) st = Some (Inr h, st') \<and>
                api_log st' = api_log st1 @
                  (if kfs = [] then [] else [SetWindowSubclass h (firstId st1 + 1) this])))) \<and>
   (control_ready refData wp lp st \<longrightarrow>
      (\<exists>res st' pre post.
         subclass_proc dsp hWnd msg wp lp idSubclass refData st = Some (Inr res, st') \<and>
         api_log st' = api_log st @ pre @
           (if msg = WM_NCDESTROY then [RemoveWindowSubclass hWnd idSubclass] else []) @ post \<and>
         list_all is_fault_call pre \<and>
         (post = [] \<or> post = [DefSubclassProc hWnd msg wp lp])))"
proof (intro conjI impI allI)
  assume a: "deref (controls st) this = Some self \<and> ctl_hWnd self = 0 \<and>
             ctl_msgs self = adds (store_new 0) kfs"
  then have d: "deref (controls st) this = Some self" and h0: "ctl_hWnd self = 0"
    and k: "ctl_msgs self = adds (store_new 0) kfs" by simp_all
  have e: "store_empty (ctl_msgs self) = (kfs = [])" unfolding k by (rule store_empty_adds)
  show "on_subclass_message this m f st =
        Some (Inr (), st\<lparr>controls := (controls st)
                         (this \<mapsto> self\<lparr>ctl_msgs := adds (store_new 0) (kfs @ [(m, f)])\<rparr>)\<rparr>)"
    using d h0 by (simp add: on_subclass_message_def k adds_snoc)
  show "on_subclass_message_list this (id0 # rest) f st =
            Some (Inr (), st\<lparr>controls := (controls st)
                   (this \<mapsto> self\<lparr>ctl_msgs := adds (store_new 0)
                      (kfs @ (id0, f) #
                         map (\<lambda>k. (k, thunk (Suc (length kfs)))) (filter (\<lambda>k. k \<noteq> id0) rest))\<rparr>)\<rparr>)"
    for id0 rest
    using d h0
    by (simp add: on_subclass_message_list_def k add_list_is_adds handlers_adds store_new_def
        adds_append)
  show "\<exists>st'. assign gdi this (Some ph) ctrlId st = Some (Inr (), st') \<and>
            api_log st' = api_log st @
              (if kfs = [] then [] else [SetWindowSubclass (gdi ph ctrlId) (firstId st + 1) this])"
    using assign_log [OF d h0, of gdi ph ctrlId] unfolding e .
  fix os :: "'u process \<Rightarrow> ((HWND \<times> DWORD) \<times> 'u process) option"
    and h lerr and st1 :: "'u process"
  assume "os st = Some ((h, lerr), st1) \<and> h \<noteq> 0 \<and> deref (controls st1) this = Some self"
  then have o: "os st = Some ((h, lerr), st1)" and hn: "h \<noteq> 0"
    and d1: "deref (controls st1) this = Some self" by simp_all
  show "\<exists>st'. ctl_create_window os this (Some ph) st = Some (Inr h, st') \<and>
                api_log st' = api_log st1 @
                  (if kfs = [] then [] else [SetWindowSubclass h (firstId st1 + 1) this])"
    using ctl_create_window_log [where os = os, OF d h0 o hn d1, of ph] unfolding e .
next
  assume "control_ready refData wp lp st"
  then show "\<exists>res st' pre post.
         subclass_proc dsp hWnd msg wp lp idSubclass refData st = Some (Inr res, st') \<and>
         api_log st' = api_log st @ pre @
           (if msg = WM_NCDESTROY then [RemoveWindowSubclass hWnd idSubclass] else []) @ post \<and>
         list_all is_fault_call pre \<and>
         (post = [] \<or> post = [DefSubclassProc hWnd msg wp lp])"
    by (rule subclass_proc_log)
qed

theorem subclass_installed_iff_registered_witness:
  "deref (controls (new_control 0x4000 [(WM_CLOSE, user count_calls)] (process_start (0::nat)))) 0x4000 =
     Some \<lparr>ctl_hWnd = 0, ctl_subclassId = 0,
           ctl_msgs = adds (store_new 0) [(WM_CLOSE, user count_calls)]\<rparr> \<and>
   map_option (api_log \<circ> snd)
     (assign dlg_item_900 0x4000 (Some 0x100) 5
        (new_control 0x4000 [(WM_CLOSE, user count_calls)] (process_start (0::nat)))) =
     Some [SetWindowSubclass 0x900 1 0x4000] \<and>
   map_option (api_log \<circ> snd)
     (assign dlg_item_900 0x4000 (Some 0x100) 5
        (new_control 0x4000 [] (process_start (0::nat)))) = Some [] \<and>
   on_subclass_message_list 0x4000 [WM_CLOSE, WM_COMMAND] (user count_calls)
       (new_control 0x4000 [] (process_start (0::nat))) =
     Some (Inr (), new_control 0x4000 [(WM_CLOSE, user count_calls), (WM_COMMAND, thunk 1)]
                     (process_start 0)) \<and>
   map_option (api_log \<circ> snd)
     (assign dlg_item_900 0x4000 (Some 0x100) 5
        (new_control 0x4000 [(WM_CLOSE, user count_calls), (WM_COMMAND, thunk 1)]
           (process_start (0::nat)))) =
     Some [SetWindowSubclass 0x900 1 0x4000] \<and>
   control_ready 0x4000 0 0
     (live_control 0x4000 0x900 1 [(WM_NCDESTROY, user always_throws)] (process_start (0::nat))) \<and>
   map_option (map_prod id api_log)
     (subclass_proc def_proc_one 0x900 WM_NCDESTROY 0 0 1 0x4000
        (live_control 0x4000 0x900 1 [(WM_NCDESTROY, user always_throws)] (process_start (0::nat)))) =
     Some (Inr 0, [MessageBox ''Logic exception'', PostQuitMessage (- 1),
                   RemoveWindowSubclass 0x900 1])"
proof -
  define stA :: "nat process"
    where "stA = new_control 0x4000 [(WM_CLOSE, user count_calls)] (process_start 0)"
  define selfA :: "nat base_native_control"
    where "selfA = \<lparr>ctl_hWnd = 0, ctl_subclassId = 0,
                     ctl_msgs = adds (store_new 0) [(WM_CLOSE, user count_calls)]\<rparr>"
  define stE :: "nat process" where "stE = new_control 0x4000 [] (process_start 0)"
  define selfE :: "nat base_native_control"
    where "selfE = \<lparr>ctl_hWnd = 0, ctl_subclassId = 0, ctl_msgs = adds (store_new 0) []\<rparr>"
  define stB :: "nat process"
    where "stB = live_control 0x4000 0x900 1 [(WM_NCDESTROY, user always_throws)] (process_start 0)"
  have dA: "deref (controls stA) 0x4000 = Some selfA"
    by (simp add: stA_def selfA_def new_control_def deref_def)
  have hA: "deref (controls stA) 0x4000 = Some selfA \<and> ctl_hWnd selfA = 0 \<and>
            ctl_msgs selfA = adds (store_new 0) [(WM_CLOSE, user count_calls)]"
    using dA by (simp add: selfA_def)
  have hE: "deref (controls stE) 0x4000 = Some selfE \<and> ctl_hWnd selfE = 0 \<and>
            ctl_msgs selfE = adds (store_new 0) []"
    by (simp add: stE_def selfE_def new_control_def deref_def)
  from subclass_installed_iff_registered [where st = stA and this = "0x4000" and self = selfA
      and kfs = "[(WM_CLOSE, user count_calls)]" and gdi = dlg_item_900 and ph = "0x100"
      and ctrlId = 5, THEN conjunct1, THEN mp, OF hA, THEN conjunct2, THEN conjunct2,
      THEN conjunct1]
  obtain st' where "assign dlg_item_900 0x4000 (Some 0x100) 5 stA = Some (Inr (), st')"
    and "api_log st' = api_log stA @ [SetWindowSubclass (dlg_item_900 0x100 5) (firstId stA + 1) 0x4000]"
    by auto
  then have 1: "map_option (api_log \<circ> snd) (assign dlg_item_900 0x4000 (Some 0x100) 5 stA) =
                  Some [SetWindowSubclass 0x900 1 0x4000]"
    by (simp add: stA_def new_control_def process_start_def dlg_item_900_def)
  from subclass_installed_iff_registered [where st = stE and this = "0x4000" and self = selfE
      and kfs = "[]" and gdi = dlg_item_900 and ph = "0x100"
      and ctrlId = 5, THEN conjunct1, THEN mp, OF hE, THEN conjunct2, THEN conjunct2,
      THEN conjunct1]
  obtain st'' where "assign dlg_item_900 0x4000 (Some 0x100) 5 stE = Some (Inr (), st'')"
    and "api_log st'' = api_log stE" by auto
  then have 2: "map_option (api_log \<circ> snd) (assign dlg_item_900 0x4000 (Some 0x100) 5 stE) = Some []"
    by (simp add: stE_def new_control_def process_start_def)
  define stL :: "nat process"
    where "stL = new_control 0x4000 [(WM_CLOSE, user count_calls), (WM_COMMAND, thunk 1)]
                   (process_start 0)"
  define selfL :: "nat base_native_control"
    where "selfL = \<lparr>ctl_hWnd = 0, ctl_subclassId = 0,
                     ctl_msgs = adds (store_new 0)
                       [(WM_CLOSE, user count_calls), (WM_COMMAND, thunk 1)]\<rparr>"
  have hL: "deref (controls stL) 0x4000 = Some selfL \<and> ctl_hWnd selfL = 0 \<and>
            ctl_msgs selfL = adds (store_new 0) [(WM_CLOSE, user count_calls), (WM_COMMAND, thunk 1)]"
    by (simp add: stL_def selfL_def new_control_def deref_def)
  from subclass_installed_iff_registered [where st = stE and this = "0x4000" and self = selfE
      and kfs = "[]" and f = "user count_calls",
      THEN conjunct1, THEN mp, OF hE, THEN conjunct2, THEN conjunct1, THEN spec, THEN spec,
      of WM_CLOSE "[WM_COMMAND]"]
  have 4: "on_subclass_message_list 0x4000 [WM_CLOSE, WM_COMMAND] (user count_calls) stE =
             Some (Inr (), stL)"
    by (simp add: stE_def stL_def selfE_def new_control_def WM_CLOSE_def WM_COMMAND_def)
  from subclass_installed_iff_registered [where st = stL and this = "0x4000" and self = selfL
      and kfs = "[(WM_CLOSE, user count_calls), (WM_COMMAND, thunk 1)]"
      and gdi = dlg_item_900 and ph = "0x100" and ctrlId = 5,
      THEN conjunct1, THEN mp, OF hL, THEN conjunct2, THEN conjunct2, THEN conjunct1]
  obtain stL' where "assign dlg_item_900 0x4000 (Some 0x100) 5 stL = Some (Inr (), stL')"
    and "api_log stL' = api_log stL @
           [SetWindowSubclass (dlg_item_900 0x100 5) (firstId stL + 1) 0x4000]"
    by auto
  then have 5: "map_option (api_log \<circ> snd) (assign dlg_item_900 0x4000 (Some 0x100) 5 stL) =
                  Some [SetWindowSubclass 0x900 1 0x4000]"
    by (simp add: stL_def new_control_def process_start_def dlg_item_900_def)
  have cr: "control_ready 0x4000 0 0 stB"
    by (simp add: control_ready_def stB_def live_control_def process_start_def adds_def
        store_add_def store_new_def wf_table_def pack_ok_def)
  have 3: "map_option (map_prod id api_log)
     (subclass_proc def_proc_one 0x900 WM_NCDESTROY 0 0 1 0x4000 stB) =
     Some (Inr 0, [MessageBox ''Logic exception'', PostQuitMessage (- 1),
                   RemoveWindowSubclass 0x900 1])"
    by (simp add: subclass_proc_def stB_def live_control_def process_start_def adds_def
        store_add_def store_new_def store_find_def catch_all_excps_eq call_func_user
        always_throws_def log_call_def WM_NCDESTROY_def)
  from dA 1 2 4 5 cr 3 show ?thesis unfolding stA_def stE_def stB_def stL_def selfA_def by simp
qed

section \<open>Properties of class registration\<close>

text \<open>
  Claim C8. When the platform reports that the class already exists, \<^verbatim>\<open>register_class\<close>
  throws nothing: it returns what \<^verbatim>\<open>GetClassInfoExW\<close> returns and leaves the fetched
  class data in the structure. For every other error code but success it throws a system
  error carrying that code; on success it returns the new atom.
\<close>

theorem register_class_reuses_existing:
  "(snd (R (prepared wcx)) = ERROR_CLASS_ALREADY_EXISTS \<longrightarrow>
      register_class R G wcx =
        (Inr (fst (G (hInstance wcx) (lpszClassName wcx))),
         case snd (G (hInstance wcx) (lpszClassName wcx)) of
           None \<Rightarrow> prepared wcx | Some fetched \<Rightarrow> fetched)) \<and>
   (snd (R (prepared wcx)) \<noteq> ERROR_CLASS_ALREADY_EXISTS \<and> snd (R (prepared wcx)) \<noteq> ERROR_SUCCESS \<longrightarrow>
      register_class R G wcx = (Inl (system_error (snd (R (prepared wcx)))), prepared wcx)) \<and>
   (snd (R (prepared wcx)) = ERROR_SUCCESS \<longrightarrow>
      register_class R G wcx = (Inr (fst (R (prepared wcx))), prepared wcx))"
  by (cases "R (prepared wcx)"; cases "G (hInstance wcx) (lpszClassName wcx)")
    (auto simp: register_class_def prepared_def Let_def ERROR_SUCCESS_def
      ERROR_CLASS_ALREADY_EXISTS_def split: option.splits)

theorem register_class_reuses_existing_witness:
  "snd (sim_RegisterClassExW [(0x400000, ''MAIN'') \<mapsto> (0xC001, prepared sample_class)] 0xC002
          (prepared sample_class)) = ERROR_CLASS_ALREADY_EXISTS \<and>
   register_class
     (sim_RegisterClassExW [(0x400000, ''MAIN'') \<mapsto> (0xC001, prepared sample_class)] 0xC002)
     (sim_GetClassInfoExW [(0x400000, ''MAIN'') \<mapsto> (0xC001, prepared sample_class)])
     sample_class = (Inr 0xC001, prepared sample_class) \<and>
   register_class (sim_RegisterClassExW Map.empty 0xC001) (sim_GetClassInfoExW Map.empty)
     sample_class = (Inr 0xC001, prepared sample_class) \<and>
   register_class (failing_RegisterClassExW 87) (sim_GetClassInfoExW Map.empty)
     sample_class = (Inl (system_error 87), prepared sample_class)"
proof -
  define tbl :: class_table
    where "tbl = [(0x400000, ''MAIN'') \<mapsto> (0xC001, prepared sample_class)]"
  have h: "hInstance sample_class = 0x400000" "lpszClassName sample_class = ''MAIN''"
    "hInstance (prepared sample_class) = 0x400000"
    "lpszClassName (prepared sample_class) = ''MAIN''"
    by (simp_all add: sample_class_def prepared_def)
  have a: "snd (sim_RegisterClassExW tbl 0xC002 (prepared sample_class)) = ERROR_CLASS_ALREADY_EXISTS"
    by (simp add: sim_RegisterClassExW_def tbl_def h)
  from register_class_reuses_existing [of "sim_RegisterClassExW tbl 0xC002" sample_class
      "sim_GetClassInfoExW tbl"] a
  have 1: "register_class (sim_RegisterClassExW tbl 0xC002) (sim_GetClassInfoExW tbl) sample_class =
           (Inr 0xC001, prepared sample_class)"
    by (simp add: sim_GetClassInfoExW_def tbl_def h)
  have b: "snd (sim_RegisterClassExW Map.empty 0xC001 (prepared sample_class)) = ERROR_SUCCESS"
    by (simp add: sim_RegisterClassExW_def)
  from register_class_reuses_existing [of "sim_RegisterClassExW Map.empty 0xC001" sample_class
      "sim_GetClassInfoExW Map.empty"] b
  have 2: "register_class (sim_RegisterClassExW Map.empty 0xC001) (sim_GetClassInfoExW Map.empty)
             sample_class = (Inr 0xC001, prepared sample_class)"
    by (simp add: sim_RegisterClassExW_def)
  have c: "snd (failing_RegisterClassExW 87 (prepared sample_class)) \<noteq> ERROR_CLASS_ALREADY_EXISTS \<and>
           snd (failing_RegisterClassExW 87 (prepared sample_class)) \<noteq> ERROR_SUCCESS"
    by (simp add: failing_RegisterClassExW_def ERROR_CLASS_ALREADY_EXISTS_def ERROR_SUCCESS_def)
  from register_class_reuses_existing [of "failing_RegisterClassExW 87" sample_class
      "sim_GetClassInfoExW Map.empty"] c
  have 3: "register_class (failing_RegisterClassExW 87) (sim_GetClassInfoExW Map.empty)
             sample_class = (Inl (system_error 87), prepared sample_class)"
    by (simp add: failing_RegisterClassExW_def)
  from a 1 2 3 show ?thesis unfolding tbl_def by simp
qed

end
